(* ===== verification/Prelude.thy ===== *)
theory Prelude
  imports Main "HOL-Library.AList" "HOL-Library.Word" "HOL-Library.Signed_Division"
begin

text \<open>
  The vocabulary every component shares: Go errors as values, Go maps in iteration order,
  the builtin \<open>copy\<close>, 64-bit integers, the collections of facts the component theories
  extend, and the locales for runs of step relations.

  \<^item> \<open>error\<close> holds every error value of the program. A text built by
    \<open>fmt.Errorf\<close> or \<open>status.Errorf\<close> is kept as the source's format string and its
    arguments; nothing is rendered.
  \<^item> \<open>gomap\<close> is a \<open>map[string]string\<close>: \<open>None\<close> is the nil map, and the list
    gives the pairs in the order a \<open>range\<close> loop visits them. Go leaves that order open;
    the theorems hold for every list, so for every order.
\<close>

section \<open>Collections of facts\<close>

named_theorems env_defs "the external operations under tracing"
named_theorems frame_simps "what an operation leaves unchanged"
named_theorems op_defs "the definitions of a component's operations"

section \<open>Errors\<close>

text \<open>gRPC status codes the handlers use, reasons of Kubernetes API errors, kinds of
  operating-system errors.\<close>

datatype code = InvalidArgument | NotFound | AlreadyExists | Internal | Unavailable | Unimplemented

datatype api_reason = ReasonNotFound | ReasonAlreadyExists | ReasonConflict | ReasonOther

datatype os_kind = ErrNotExist | ErrPermission | ErrOther

datatype error =
    Errorf string "arg list"
  | Status code string "arg list"
  | ApiErr api_reason string
  | AlreadyExist string
  | NeedUpdateErr string
  | ErrHadDeleted
  | ErrWaitTimeout
  | OsErr os_kind string
  | ExtErr string
  | GoPanic string
and arg = AStr string | AInt int | AErr error

fun IsConflict :: "error \<Rightarrow> bool" where
  "IsConflict (ApiErr ReasonConflict _) = True"
| "IsConflict _ = False"

fun IsNotFound :: "error \<Rightarrow> bool" where
  "IsNotFound (ApiErr ReasonNotFound _) = True"
| "IsNotFound _ = False"

fun IsAlreadyExists :: "error \<Rightarrow> bool" where
  "IsAlreadyExists (ApiErr ReasonAlreadyExists _) = True"
| "IsAlreadyExists _ = False"

fun os_IsNotExist :: "error \<Rightarrow> bool" where
  "os_IsNotExist (OsErr ErrNotExist _) = True"
| "os_IsNotExist _ = False"

fun_cases IsConflictE: "IsConflict e"
fun_cases IsNotFoundE: "IsNotFound e"

section \<open>types/errors.go\<close>

definition NewNeedUpdateError :: "string \<Rightarrow> error" where
  "NewNeedUpdateError s = NeedUpdateErr s"

definition NewAlreadyExistError :: "string \<Rightarrow> error" where
  "NewAlreadyExistError s = AlreadyExist s"

section \<open>Machine integers\<close>

text \<open>Go's \<open>int64\<close> (and \<open>int\<close> on the 64-bit targets the program is built for):
  \<open>+\<close> and \<open>-\<close> wrap around, comparison is signed, division truncates towards zero.\<close>

type_synonym int64 = "64 word"

definition i64_less :: "int64 \<Rightarrow> int64 \<Rightarrow> bool" where
  "i64_less a b \<longleftrightarrow> sint a < sint b"

definition i64_div :: "int64 \<Rightarrow> int64 \<Rightarrow> int64" where
  "i64_div a b = word_of_int (sint a sdiv sint b)"

section \<open>Slices\<close>

text \<open>The builtin \<open>copy(dst, src)\<close> overwrites the first \<open>min (len dst) (len src)\<close>
  elements of \<open>dst\<close> and never changes its length.\<close>

definition go_copy :: "'a list \<Rightarrow> 'a list \<Rightarrow> 'a list" where
  "go_copy dst src = (let n = min (length dst) (length src) in take n src @ drop n dst)"

lemma length_go_copy [simp]: "length (go_copy dst src) = length dst"
  by (simp add: go_copy_def Let_def)

lemma go_copy_Nil [simp]: "go_copy [] src = []"
  by (simp add: go_copy_def)

lemma go_copy_same_length: "length dst = length src \<Longrightarrow> go_copy dst src = src"
  by (simp add: go_copy_def)

section \<open>Go maps\<close>

type_synonym gomap = "(string \<times> string) list option"

definition gm_items :: "gomap \<Rightarrow> (string \<times> string) list" where
  "gm_items m = (case m of None \<Rightarrow> [] | Some kvs \<Rightarrow> kvs)"

definition gm_get :: "gomap \<Rightarrow> string \<Rightarrow> string option" where
  "gm_get m k = map_of (gm_items m) k"

text \<open>Assignment to an element of a nil map panics; deletion from it does nothing.\<close>

definition gm_set :: "string \<Rightarrow> string \<Rightarrow> gomap \<Rightarrow> error + gomap" where
  "gm_set k v m = (case m of
     None \<Rightarrow> Inl (GoPanic ''assignment to entry in nil map'')
   | Some kvs \<Rightarrow> Inr (Some (AList.update k v kvs)))"

definition gm_delete :: "string \<Rightarrow> gomap \<Rightarrow> gomap" where
  "gm_delete k m = map_option (AList.delete k) m"

text \<open>A map holds each key once.\<close>

definition gm_wf :: "gomap \<Rightarrow> bool" where
  "gm_wf m \<longleftrightarrow> distinct (map fst (gm_items m))"

lemma gm_get_None [simp]: "gm_get None k = None"
  by (simp add: gm_get_def gm_items_def)

lemma gm_get_Some [simp]: "gm_get (Some kvs) k = map_of kvs k"
  by (simp add: gm_get_def gm_items_def)

lemma gm_items_simps [simp]: "gm_items None = []" "gm_items (Some kvs) = kvs"
  by (simp_all add: gm_items_def)

lemma gm_get_delete [simp]: "gm_get (gm_delete k m) k' = (if k' = k then None else gm_get m k')"
  by (cases m) (auto simp: gm_delete_def delete_conv')

lemma gm_set_Some [simp]: "gm_set k v (Some kvs) = Inr (Some (AList.update k v kvs))"
  by (simp add: gm_set_def)

lemma gm_get_set: "gm_set k v m = Inr m' \<Longrightarrow> gm_get m' k' = (if k' = k then Some v else gm_get m k')"
  by (cases m) (auto simp: gm_set_def update_conv')

lemma gm_wf_delete: "gm_wf m \<Longrightarrow> gm_wf (gm_delete k m)"
  by (cases m) (auto simp: gm_wf_def gm_delete_def distinct_delete)

lemma gm_wf_set: "gm_wf m \<Longrightarrow> gm_set k v m = Inr m' \<Longrightarrow> gm_wf m'"
  by (cases m) (auto simp: gm_wf_def gm_set_def distinct_update)

lemma gm_items_get: "gm_wf m \<Longrightarrow> (k, v) \<in> set (gm_items m) \<longleftrightarrow> gm_get m k = Some v"
  by (simp add: gm_wf_def gm_get_def)

text \<open>A \<open>range\<close> loop that assigns every pair of one map into another, and one that
  deletes every key of it.\<close>

fun put_all :: "('k \<Rightarrow> 'v \<Rightarrow> 'm \<Rightarrow> error + 'm) \<Rightarrow> ('k \<times> 'v) list \<Rightarrow> 'm \<Rightarrow> error + 'm" where
  "put_all put [] m = Inr m"
| "put_all put ((k, v) # kvs) m =
     (case put k v m of Inl e \<Rightarrow> Inl e | Inr m' \<Rightarrow> put_all put kvs m')"

fun del_all :: "('k \<Rightarrow> 'm \<Rightarrow> 'm) \<Rightarrow> 'k list \<Rightarrow> 'm \<Rightarrow> 'm" where
  "del_all del [] m = m"
| "del_all del (k # ks) m = del_all del ks (del k m)"

text \<open>What a client of a map relies on, and that the association lists provide it.\<close>

locale map_interface =
  fixes get :: "'m \<Rightarrow> 'k \<Rightarrow> 'v option"
    and put :: "'k \<Rightarrow> 'v \<Rightarrow> 'm \<Rightarrow> error + 'm"
    and del :: "'k \<Rightarrow> 'm \<Rightarrow> 'm"
  assumes get_put: "put k v m = Inr m' \<Longrightarrow> get m' k' = (if k' = k then Some v else get m k')"
    and get_del: "get (del k m) k' = (if k' = k then None else get m k')"
begin

lemma get_put_all:
  "put_all put kvs m = Inr m' \<Longrightarrow> distinct (map fst kvs) \<Longrightarrow>
   get m' k = (case map_of kvs k of None \<Rightarrow> get m k | Some v \<Rightarrow> Some v)"
proof (induction kvs arbitrary: m)
  case Nil
  then show ?case by simp
next
  case (Cons kv kvs)
  obtain k0 v0 where kv: "kv = (k0, v0)" by (cases kv)
  with Cons.prems obtain m1 where p: "put k0 v0 m = Inr m1" and r: "put_all put kvs m1 = Inr m'"
    by (auto split: sum.splits)
  have n: "map_of kvs k0 = None"
    using Cons.prems(2) kv by (auto simp: map_of_eq_None_iff)
  show ?case
    using Cons.IH [OF r] Cons.prems(2) kv get_put [OF p] n
    by (auto split: option.splits)
qed

lemma get_del_all: "get (del_all del ks m) k = (if k \<in> set ks then None else get m k)"
  by (induction ks arbitrary: m) (auto simp: get_del)

end

interpretation gm: map_interface gm_get gm_set gm_delete
  by unfold_locales (simp_all add: gm_get_set)

lemma put_all_gm_set_Some: "\<exists>kvs'. put_all gm_set kvs (Some m) = Inr (Some kvs')"
  by (induction kvs arbitrary: m) auto

lemma put_all_gm_set_None: "put_all gm_set kvs None = (case kvs of
    [] \<Rightarrow> Inr None | _ \<Rightarrow> Inl (GoPanic ''assignment to entry in nil map''))"
  by (cases kvs) (auto simp: gm_set_def)

lemma gm_wf_del_all: "gm_wf m \<Longrightarrow> gm_wf (del_all gm_delete ks m)"
  by (induction ks arbitrary: m) (auto intro: gm_wf_delete)

lemma gm_wf_put_all: "gm_wf m \<Longrightarrow> put_all gm_set kvs m = Inr m' \<Longrightarrow> gm_wf m'"
  by (induction kvs arbitrary: m) (fastforce split: sum.splits dest: gm_wf_set)+

section \<open>Step relations\<close>

text \<open>A property that every step keeps holds in every state a run reaches, and a measure that every
  step from such states lowers bounds the length of the runs.\<close>

locale preserved =
  fixes step :: "'s \<Rightarrow> 's \<Rightarrow> bool" and inv :: "'s \<Rightarrow> bool"
  assumes step_inv: "step s s' \<Longrightarrow> inv s \<Longrightarrow> inv s'"
begin

lemma run_inv: "step\<^sup>*\<^sup>* s s' \<Longrightarrow> inv s \<Longrightarrow> inv s'"
  by (induction rule: rtranclp_induct) (auto intro: step_inv)

end

locale terminating = preserved +
  fixes rank :: "'s \<Rightarrow> nat"
  assumes rank_less: "step s s' \<Longrightarrow> inv s \<Longrightarrow> rank s' < rank s"
begin

lemma run_bounded: "(step ^^ k) s s' \<Longrightarrow> inv s \<Longrightarrow> k + rank s' \<le> rank s"
proof (induction k arbitrary: s')
  case (Suc k)
  then obtain t where t: "(step ^^ k) s t" "step t s'" by (auto elim: relcompp.cases)
  then have "inv t" using run_inv Suc.prems(2) relpowp_imp_rtranclp by metis
  with t Suc.IH [OF t(1) Suc.prems(2)] rank_less [OF t(2)] show ?case by simp
qed simp

end

text \<open>A detailed step relation that implements an abstract one: under an invariant, every detailed
  step is matched by abstract steps between the abstractions of its states.\<close>

locale simulation = preserved step inv
  for step :: "'s \<Rightarrow> 's \<Rightarrow> bool" and inv :: "'s \<Rightarrow> bool" +
  fixes astep :: "'a \<Rightarrow> 'a \<Rightarrow> bool" and abs :: "'s \<Rightarrow> 'a"
  assumes step_sim: "step s s' \<Longrightarrow> inv s \<Longrightarrow> astep\<^sup>*\<^sup>* (abs s) (abs s')"
begin

lemma run_sim: "step\<^sup>*\<^sup>* s s' \<Longrightarrow> inv s \<Longrightarrow> astep\<^sup>*\<^sup>* (abs s) (abs s')"
proof (induction rule: rtranclp_induct)
  case (step t u)
  then show ?case using run_inv [OF step.hyps(1)] step_sim by (meson rtranclp_trans)
qed simp

end

section \<open>Sequences of statements\<close>

text \<open>Statements in sequence, until one panics.\<close>

fun in_sequence :: "('s \<Rightarrow> error + 's) list \<Rightarrow> 's \<Rightarrow> error + 's" where
  "in_sequence [] s = Inr s"
| "in_sequence (a # as) s = (case a s of Inl e \<Rightarrow> Inl e | Inr s1 \<Rightarrow> in_sequence as s1)"

lemma in_sequence_append:
  "in_sequence (xs @ ys) s = (case in_sequence xs s of Inl e \<Rightarrow> Inl e | Inr t \<Rightarrow> in_sequence ys t)"
  by (induction xs arbitrary: s) (auto split: sum.splits)

end
