(* ===== verification/GoText.thy ===== *)
theory GoText
  imports Prelude "HOL-Library.Sublist"
begin

text \<open>
  The parts of Go's \<open>strings\<close>, \<open>bytes\<close>, \<open>strconv\<close> and \<open>path\<close> packages
  the program calls, on byte strings (\<open>char list\<close>). Case mapping is ASCII: bytes outside
  ASCII are left alone.
\<close>

section \<open>strings and bytes\<close>

definition is_upper :: "char \<Rightarrow> bool" where
  "is_upper c \<longleftrightarrow> 65 \<le> (of_char c :: nat) \<and> (of_char c :: nat) \<le> 90"

definition lower_char :: "char \<Rightarrow> char" where
  "lower_char c = (if is_upper c then char_of ((of_char c :: nat) + 32) else c)"

definition ToLower :: "string \<Rightarrow> string" where
  "ToLower s = map lower_char s"

text \<open>\<open>strings.Index\<close>, with \<open>None\<close> for -1.\<close>

fun str_index :: "string \<Rightarrow> string \<Rightarrow> nat option" where
  "str_index [] sub = (if sub = [] then Some 0 else None)"
| "str_index (c # cs) sub =
     (if prefix sub (c # cs) then Some 0 else map_option Suc (str_index cs sub))"

definition str_Contains :: "string \<Rightarrow> string \<Rightarrow> bool" where
  "str_Contains s sub \<longleftrightarrow> str_index s sub \<noteq> None"

text \<open>\<open>strings.Split\<close> for a separator of one character.\<close>

fun str_split :: "char \<Rightarrow> string \<Rightarrow> string list" where
  "str_split c [] = [[]]"
| "str_split c (x # xs) =
     (if x = c then [] # str_split c xs
      else (x # hd (str_split c xs)) # tl (str_split c xs))"

text \<open>\<open>strings.SplitN(s, sep, 2)\<close>.\<close>

definition str_split2 :: "string \<Rightarrow> string \<Rightarrow> string list" where
  "str_split2 s sep = (case str_index s sep of
     None \<Rightarrow> [s]
   | Some i \<Rightarrow> [take i s, drop (i + length sep) s])"

fun str_Join :: "string list \<Rightarrow> string \<Rightarrow> string" where
  "str_Join [] sep = []"
| "str_Join [x] sep = x"
| "str_Join (x # y # ys) sep = x @ sep @ str_Join (y # ys) sep"

text \<open>\<open>bytes.ReplaceAll\<close> for a non-empty pattern; the empty pattern, which no caller
  passes, leaves the text unchanged here.\<close>

function ReplaceAll :: "string \<Rightarrow> string \<Rightarrow> string \<Rightarrow> string" where
  "ReplaceAll s old new =
     (if old = [] \<or> s = [] then s
      else if prefix old s then new @ ReplaceAll (drop (length old) s) old new
      else hd s # ReplaceAll (tl s) old new)"
  by pat_completeness auto
termination
  by (relation "measure (\<lambda>(s, old, new). length s)") auto

declare ReplaceAll.simps [simp del]

text \<open>\<open>fmt.Sprintf("%d", n)\<close> for a non-negative number.\<close>

fun itoa :: "nat \<Rightarrow> string" where
  "itoa n = (if n < 10 then [char_of (48 + n)] else itoa (n div 10) @ [char_of (48 + n mod 10)])"

declare itoa.simps [simp del]

subsection \<open>Facts\<close>

lemma prefix_str_index_0: "prefix sub s \<Longrightarrow> str_index s sub = Some 0"
  by (cases s) auto

lemma str_index_Some:
  "str_index s sub = Some i \<Longrightarrow> s = take i s @ sub @ drop (i + length sub) s"
proof (induction s arbitrary: i)
  case Nil
  then show ?case by (auto split: if_splits)
next
  case (Cons c cs)
  show ?case
  proof (cases "prefix sub (c # cs)")
    case True
    with Cons.prems show ?thesis by (auto simp: prefix_def)
  next
    case False
    with Cons.prems obtain j where "str_index cs sub = Some j" "i = Suc j" by auto
    with Cons.IH [of j] show ?thesis by simp
  qed
qed

lemma str_index_None_prefix: "str_index s sub = None \<Longrightarrow> \<not> prefix sub (drop n s)"
proof (induction s arbitrary: n)
  case Nil
  then show ?case by (cases sub) (auto split: if_splits)
next
  case (Cons c cs)
  then show ?case by (cases n) (auto split: if_splits)
qed

lemma str_Contains_iff: "str_Contains s sub \<longleftrightarrow> (\<exists>pre post. s = pre @ sub @ post)"
proof
  assume "str_Contains s sub"
  then show "\<exists>pre post. s = pre @ sub @ post"
    by (auto simp: str_Contains_def dest: str_index_Some)
next
  assume "\<exists>pre post. s = pre @ sub @ post"
  then obtain pre post where "s = pre @ sub @ post" by blast
  then have "prefix sub (drop (length pre) s)" by simp
  then show "str_Contains s sub"
    using str_index_None_prefix by (auto simp: str_Contains_def)
qed

lemma str_split_nonempty [simp]: "str_split c s \<noteq> []"
  by (cases s) auto

lemma str_Join_Cons: "xs \<noteq> [] \<Longrightarrow> str_Join (x # xs) sep = x @ sep @ str_Join xs sep"
  by (cases xs) auto

lemma str_Join_head: "xs \<noteq> [] \<Longrightarrow> str_Join ((x # hd xs) # tl xs) sep = x # str_Join xs sep"
  by (cases xs; cases "tl xs") auto

lemma Join_split: "str_Join (str_split c s) [c] = s"
  by (induction s) (auto simp: str_Join_Cons str_Join_head)

lemma split_no_sep: "c \<notin> set s \<Longrightarrow> str_split c s = [s]"
  by (induction s) auto

lemma split_append: "c \<notin> set s \<Longrightarrow> str_split c (s @ c # t) = s # str_split c t"
  by (induction s) auto

lemma split_pieces: "x \<in> set (str_split c s) \<Longrightarrow> c \<notin> set x"
proof (induction s arbitrary: x)
  case Nil
  then show ?case by simp
next
  case (Cons a s)
  have h: "c \<notin> set (hd (str_split c s))" by (rule Cons.IH) simp
  have "x \<in> set (tl (str_split c s)) \<Longrightarrow> c \<notin> set x"
    by (rule Cons.IH) (simp add: list.set_sel(2))
  with h Cons show ?case by (auto split: if_splits)
qed

lemma split_Join:
  "xs \<noteq> [] \<Longrightarrow> \<forall>x \<in> set xs. c \<notin> set x \<Longrightarrow> str_split c (str_Join xs [c]) = xs"
proof (induction xs rule: induct_list012)
  case (3 x y zs)
  then show ?case by (simp add: split_append)
qed (auto simp: split_no_sep)

lemma length_split: "length (str_split c s) = Suc (count_list s c)"
  by (induction s) auto

section \<open>path\<close>

text \<open>\<open>path.Clean\<close> works on the elements between slashes: empty and \<open>.\<close>
  elements vanish, \<open>..\<close> removes the element before it, and at the start of a rooted path
  \<open>..\<close> vanishes too. The accumulator is the output so far, reversed.\<close>

fun clean_segs :: "bool \<Rightarrow> string list \<Rightarrow> string list \<Rightarrow> string list" where
  "clean_segs rooted acc [] = rev acc"
| "clean_segs rooted acc (x # xs) =
     (if x = '''' \<or> x = ''.'' then clean_segs rooted acc xs
      else if x = ''..'' then
        (case acc of
           [] \<Rightarrow> clean_segs rooted (if rooted then [] else [x]) xs
         | a # as \<Rightarrow> clean_segs rooted (if a = ''..'' then x # acc else as) xs)
      else clean_segs rooted (x # acc) xs)"

definition path_Clean :: "string \<Rightarrow> string" where
  "path_Clean p =
     (let rooted = (p \<noteq> [] \<and> hd p = CHR ''/'');
          body = str_Join (clean_segs rooted [] (str_split (CHR ''/'') p)) ''/''
      in if rooted then CHR ''/'' # body else if body = [] then ''.'' else body)"

text \<open>\<open>path.Join\<close>: the elements from the first non-empty one on, cleaned.\<close>

definition path_Join :: "string list \<Rightarrow> string" where
  "path_Join elems = (case dropWhile (\<lambda>e. e = []) elems of
     [] \<Rightarrow> [] | es \<Rightarrow> path_Clean (str_Join es ''/''))"

definition plain_seg :: "string \<Rightarrow> bool" where
  "plain_seg x \<longleftrightarrow> x \<noteq> [] \<and> x \<noteq> ''.'' \<and> x \<noteq> ''..'' \<and> CHR ''/'' \<notin> set x"

lemma clean_segs_plain:
  "\<forall>x \<in> set xs. plain_seg x \<Longrightarrow> clean_segs rooted acc xs = rev acc @ xs"
  by (induction xs arbitrary: acc) (auto simp: plain_seg_def)

end
