(* ===== verification/GoNet.thy ===== *)
theory GoNet
  imports GoText
begin

text \<open>
  The parts of Go's \<open>net\<close> and \<open>net/url\<close> packages the program calls, as of the
  language version \<open>go.mod\<close> names (1.15): \<open>net.ParseIP\<close> and \<open>IP.Equal\<close>,
  \<open>net.SplitHostPort\<close> and \<open>net.JoinHostPort\<close>, and \<open>url.Parse\<close> as far as
  its error, \<open>Scheme\<close> and \<open>Host\<close>.
\<close>

section \<open>IP addresses\<close>

text \<open>A \<open>net.IP\<close> is a byte slice; the nil IP is the empty list.\<close>

type_synonym IP = "8 word list"

definition v4InV6Prefix :: IP where
  "v4InV6Prefix = [0, 0, 0, 0, 0, 0, 0, 0, 0, 0, 255, 255]"

definition IP_Equal :: "IP \<Rightarrow> IP \<Rightarrow> bool" where
  "IP_Equal ip x =
     (if length ip = length x then ip = x
      else if length ip = 4 \<and> length x = 16 then take 12 x = v4InV6Prefix \<and> ip = drop 12 x
      else if length ip = 16 \<and> length x = 4 then take 12 ip = v4InV6Prefix \<and> x = drop 12 ip
      else False)"

definition digit_val :: "char \<Rightarrow> nat option" where
  "digit_val c = (let n = of_char c :: nat in if 48 \<le> n \<and> n \<le> 57 then Some (n - 48) else None)"

definition hex_val :: "char \<Rightarrow> nat option" where
  "hex_val c = (let n = of_char c :: nat in
     if 48 \<le> n \<and> n \<le> 57 then Some (n - 48)
     else if 97 \<le> n \<and> n \<le> 102 then Some (n - 87)
     else if 65 \<le> n \<and> n \<le> 70 then Some (n - 55)
     else None)"

text \<open>\<open>dtoi\<close> and \<open>xtoi\<close>: the number at the start of the text and the text after it;
  \<open>None\<close> when there is no digit or the number reaches \<open>0xFFFFFF\<close>.\<close>

fun num_loop :: "(char \<Rightarrow> nat option) \<Rightarrow> nat \<Rightarrow> nat \<Rightarrow> string \<Rightarrow> (nat \<times> string) option" where
  "num_loop val base n [] = Some (n, [])"
| "num_loop val base n (c # cs) = (case val c of
     None \<Rightarrow> Some (n, c # cs)
   | Some d \<Rightarrow> (let n' = n * base + d in
       if 16777215 \<le> n' then None else num_loop val base n' cs))"

definition dtoi :: "string \<Rightarrow> (nat \<times> string) option" where
  "dtoi s = (if s = [] \<or> digit_val (hd s) = None then None else num_loop digit_val 10 0 s)"

definition xtoi :: "string \<Rightarrow> (nat \<times> string) option" where
  "xtoi s = (if s = [] \<or> hex_val (hd s) = None then None else num_loop hex_val 16 0 s)"

text \<open>The loop of \<open>parseIPv4\<close> over the four byte positions.\<close>

fun v4_loop :: "nat list \<Rightarrow> string \<Rightarrow> (IP \<times> string) option" where
  "v4_loop [] s = Some ([], s)"
| "v4_loop (i # is) s =
     (if s = [] \<or> (i > 0 \<and> hd s \<noteq> CHR ''.'') then None
      else (case dtoi (if i > 0 then tl s else s) of
         None \<Rightarrow> None
       | Some (n, rest) \<Rightarrow>
           if n > 255 then None
           else map_option (\<lambda>(bs, r). (of_nat n # bs, r)) (v4_loop is rest)))"

definition parseIPv4 :: "string \<Rightarrow> IP option" where
  "parseIPv4 s = (case v4_loop [0, 1, 2, 3] s of
     Some (bs, []) \<Rightarrow> Some (v4InV6Prefix @ bs)
   | _ \<Rightarrow> None)"

text \<open>The loop of \<open>parseIPv6\<close>: \<open>ip\<close> holds the bytes read so far, \<open>ell\<close> the
  position of the ellipsis. Each round adds at least two of the sixteen bytes; the list names the
  positions of the 16-bit groups left.\<close>

fun v6_loop :: "nat list \<Rightarrow> IP \<Rightarrow> nat option \<Rightarrow> string \<Rightarrow> (IP \<times> nat option \<times> string) option" where
  "v6_loop [] ip ell s = Some (ip, ell, s)"
| "v6_loop (i # k) ip ell s = (case xtoi s of
     None \<Rightarrow> None
   | Some (n, r) \<Rightarrow>
       if n > 65535 then None
       else if r \<noteq> [] \<and> hd r = CHR ''.'' then
         (if (ell = None \<and> length ip \<noteq> 12) \<or> length ip + 4 > 16 then None
          else map_option (\<lambda>ip4. (ip @ drop 12 ip4, ell, [])) (parseIPv4 s))
       else
         (let ip' = ip @ [of_nat (n div 256), of_nat (n mod 256)] in
          if r = [] then Some (ip', ell, [])
          else if hd r \<noteq> CHR '':'' \<or> tl r = [] then None
          else if hd (tl r) = CHR '':'' then
            (if ell \<noteq> None then None
             else if tl (tl r) = [] then Some (ip', Some (length ip'), [])
             else v6_loop k ip' (Some (length ip')) (tl (tl r)))
          else v6_loop k ip' ell (tl r)))"

definition parseIPv6 :: "string \<Rightarrow> IP option" where
  "parseIPv6 s =
     (let lead = prefix ''::'' s;
          s1 = (if lead then drop 2 s else s)
      in if lead \<and> s1 = [] then Some (replicate 16 0)
         else (case v6_loop [0, 2, 4, 6, 8, 10, 12, 14] [] (if lead then Some 0 else None) s1 of
             None \<Rightarrow> None
           | Some (ip, ell, rest) \<Rightarrow>
               if rest \<noteq> [] then None
               else if length ip < 16 then
                 (case ell of
                    None \<Rightarrow> None
                  | Some e \<Rightarrow> Some (take e ip @ replicate (16 - length ip) 0 @ drop e ip))
               else if ell \<noteq> None then None
               else Some ip))"

text \<open>\<open>net.ParseIP\<close>: the first dot or colon decides; \<open>None\<close> is the nil IP.\<close>

definition ParseIP :: "string \<Rightarrow> IP option" where
  "ParseIP s = (case dropWhile (\<lambda>c. c \<noteq> CHR ''.'' \<and> c \<noteq> CHR '':'') s of
     [] \<Rightarrow> None
   | c # _ \<Rightarrow> if c = CHR ''.'' then parseIPv4 s else parseIPv6 s)"

lemma v4_loop_length: "v4_loop is s = Some (bs, r) \<Longrightarrow> length bs = length is"
  by (induction "is" s arbitrary: bs r rule: v4_loop.induct)
    (auto split: if_splits option.splits)

lemma parseIPv4_length: "parseIPv4 s = Some ip \<Longrightarrow> length ip = 16"
  by (auto simp: parseIPv4_def v4InV6Prefix_def simp del: v4_loop.simps
      dest!: v4_loop_length split: option.splits prod.splits list.splits)

lemma v6_loop_length:
  "v6_loop k ip ell s = Some (ip', ell', r) \<Longrightarrow> length ip + 2 * length k = 16 \<Longrightarrow> length ip' \<le> 16"
proof (induction k ip ell s rule: v6_loop.induct)
  case (1 ip ell s)
  then show ?case by simp
next
  case (2 i k ip ell s)
  from 2(3) show ?case
    using 2(1,2,4)
    by (auto split: option.splits if_splits simp: Let_def dest!: parseIPv4_length)
qed

lemma parseIPv6_length: "parseIPv6 s = Some ip \<Longrightarrow> length ip = 16"
  by (auto simp: parseIPv6_def Let_def simp del: v6_loop.simps
      split: option.splits if_splits prod.splits dest!: v6_loop_length)

text \<open>An address that parses has sixteen bytes, so it never equals the nil IP.\<close>

lemma ParseIP_length: "ParseIP s = Some ip \<Longrightarrow> length ip = 16"
  by (auto simp: ParseIP_def parseIPv4_length parseIPv6_length split: list.splits if_splits)

lemma IP_Equal_refl [simp]: "IP_Equal ip ip"
  by (simp add: IP_Equal_def)

lemma IP_Equal_16: "length ip = 16 \<Longrightarrow> length x = 16 \<Longrightarrow> IP_Equal ip x \<longleftrightarrow> ip = x"
  by (simp add: IP_Equal_def)

lemma ParseIP_not_nil: "ParseIP s = Some ip \<Longrightarrow> \<not> IP_Equal [] ip"
  by (auto simp: IP_Equal_def dest: ParseIP_length)

text \<open>\<open>IP.String\<close>: dotted decimal for IPv4 (also in its 16-byte form), for IPv6 the
  16-bit groups in hex with the first longest run of at least two zero groups written as two
  colons.\<close>

definition IP_To4 :: "IP \<Rightarrow> IP option" where
  "IP_To4 ip = (if length ip = 4 then Some ip
     else if length ip = 16 \<and> take 12 ip = v4InV6Prefix then Some (drop 12 ip) else None)"

definition hex_digit :: "nat \<Rightarrow> char" where
  "hex_digit n = (if n < 10 then char_of (48 + n) else char_of (87 + n))"

fun xtoa :: "nat \<Rightarrow> string" where
  "xtoa n = (if n < 16 then [hex_digit n] else xtoa (n div 16) @ [hex_digit (n mod 16)])"

declare xtoa.simps [simp del]

fun groups16 :: "IP \<Rightarrow> nat list" where
  "groups16 (a # b # r) = (unat a * 256 + unat b) # groups16 r"
| "groups16 _ = []"

fun zero_run :: "nat \<Rightarrow> nat list \<Rightarrow> nat \<times> nat \<Rightarrow> nat \<times> nat" where
  "zero_run i [] best = best"
| "zero_run i (g # gs) best =
     (let r = length (takeWhile ((=) 0) (g # gs)) in
      zero_run (Suc i) gs (if r > snd best - fst best then (i, i + r) else best))"

definition IP_String :: "IP \<Rightarrow> string" where
  "IP_String ip =
     (if ip = [] then ''<nil>''
      else case IP_To4 ip of
        Some p4 \<Rightarrow> str_Join (map (\<lambda>b. itoa (unat b)) p4) ''.''
      | None \<Rightarrow>
          if length ip \<noteq> 16 then CHR ''?'' # concat (map (\<lambda>b. [hex_digit (unat b div 16), hex_digit (unat b mod 16)]) ip)
          else (let gs = map xtoa (groups16 ip); (e0, e1) = zero_run 0 (groups16 ip) (0, 0) in
            if e1 - e0 \<le> 1 then str_Join gs '':''
            else str_Join (take e0 gs) '':'' @ ''::'' @ str_Join (drop e1 gs) '':''))"

section \<open>Host and port\<close>

text \<open>\<open>net.SplitHostPort\<close>, \<open>None\<close> for an address error. The last colon separates
  the port; a host in brackets ends right before it.\<close>

definition last_colon :: "string \<Rightarrow> nat option" where
  "last_colon s = (case str_index (rev s) '':'' of None \<Rightarrow> None | Some i \<Rightarrow> Some (length s - 1 - i))"

definition net_SplitHostPort :: "string \<Rightarrow> (string \<times> string) option" where
  "net_SplitHostPort hp = (case last_colon hp of
     None \<Rightarrow> None
   | Some i \<Rightarrow>
       if hd hp = CHR ''['' then
         (case str_index hp '']'' of
            None \<Rightarrow> None
          | Some e \<Rightarrow>
              if e + 1 \<noteq> i then None
              else if CHR ''['' \<in> set (drop 1 hp) \<or> CHR '']'' \<in> set (drop (e + 1) hp) then None
              else Some (take (e - 1) (drop 1 hp), drop (i + 1) hp))
       else if CHR '':'' \<in> set (take i hp) \<or> CHR ''['' \<in> set hp \<or> CHR '']'' \<in> set hp then None
       else Some (take i hp, drop (i + 1) hp))"

definition net_JoinHostPort :: "string \<Rightarrow> string \<Rightarrow> string" where
  "net_JoinHostPort host port =
     (if CHR '':'' \<in> set host then ''['' @ host @ '']:'' @ port else host @ '':'' @ port)"

lemma str_index_single: "c \<notin> set s \<Longrightarrow> str_index (s @ c # t) [c] = Some (length s)"
  by (induction s) auto

lemma last_colon_append: "CHR '':'' \<notin> set t \<Longrightarrow> last_colon (s @ CHR '':'' # t) = Some (length s)"
  using str_index_single [of "CHR '':''" "rev t" "rev s"] by (simp add: last_colon_def)

text \<open>Splitting undoes joining, for a host without brackets and a port without colon or
  bracket.\<close>

lemma Split_Join_HostPort:
  assumes "CHR ''['' \<notin> set h" "CHR '']'' \<notin> set h"
    and "CHR '':'' \<notin> set p" "CHR ''['' \<notin> set p" "CHR '']'' \<notin> set p"
  shows "net_SplitHostPort (net_JoinHostPort h p) = Some (h, p)"
proof (cases "CHR '':'' \<in> set h")
  case True
  have i: "last_colon (''['' @ h @ '']:'' @ p) = Some (length h + 2)"
    using last_colon_append [OF assms(3), of "''['' @ h @ '']''"] by simp
  have j: "str_index (''['' @ h @ '']:'' @ p) '']'' = Some (length h + 1)"
    using str_index_single [of "CHR '']''" "''['' @ h" "'':'' @ p"] assms(2) by simp
  show ?thesis
    using True i j assms by (simp add: net_JoinHostPort_def net_SplitHostPort_def)
next
  case False
  have i: "last_colon (h @ '':'' @ p) = Some (length h)"
    using last_colon_append [OF assms(3), of h] by simp
  have n: "hd (h @ '':'' @ p) \<noteq> CHR ''[''"
    using assms(1) by (cases h) auto
  show ?thesis
    using False i n assms by (simp add: net_JoinHostPort_def net_SplitHostPort_def)
qed

section \<open>URLs\<close>

text \<open>\<open>url.Parse\<close>: what it decides about the error, the scheme and the host.\<close>

record URL =
  Scheme :: string
  Host :: string

definition is_alpha :: "char \<Rightarrow> bool" where
  "is_alpha c \<longleftrightarrow> (let n = of_char c :: nat in (97 \<le> n \<and> n \<le> 122) \<or> (65 \<le> n \<and> n \<le> 90))"

definition is_digit :: "char \<Rightarrow> bool" where
  "is_digit c \<longleftrightarrow> digit_val c \<noteq> None"

text \<open>\<open>stringContainsCTLByte\<close>.\<close>

definition ctl_byte :: "char \<Rightarrow> bool" where
  "ctl_byte c \<longleftrightarrow> (of_char c :: nat) < 32 \<or> (of_char c :: nat) = 127"

text \<open>\<open>getscheme\<close>: \<open>None\<close> is the missing scheme error; the first argument is the
  scheme read so far.\<close>

fun getscheme :: "string \<Rightarrow> string \<Rightarrow> (string \<times> string) option" where
  "getscheme acc [] = Some ([], acc)"
| "getscheme acc (c # cs) =
     (if is_alpha c then getscheme (acc @ [c]) cs
      else if is_digit c \<or> c = CHR ''+'' \<or> c = CHR ''-'' \<or> c = CHR ''.'' then
        (if acc = [] then Some ([], c # cs) else getscheme (acc @ [c]) cs)
      else if c = CHR '':'' then (if acc = [] then None else Some (acc, cs))
      else Some ([], acc @ c # cs))"

text \<open>\<open>unescape\<close>, the part all modes share: every percent sign starts a two-digit hex
  escape. The predicate says which escapes (by their two digits) and which plain bytes the mode
  accepts.\<close>

fun unescape :: "(char \<Rightarrow> char \<Rightarrow> bool) \<Rightarrow> (char \<Rightarrow> bool) \<Rightarrow> string \<Rightarrow> string option" where
  "unescape esc plain [] = Some []"
| "unescape esc plain (c # cs) =
     (if c = CHR ''%'' then
        (case cs of
           a # b # r \<Rightarrow>
             (case (hex_val a, hex_val b) of
                (Some x, Some y) \<Rightarrow>
                  if esc a b then map_option ((#) (char_of (x * 16 + y))) (unescape esc plain r)
                  else None
              | _ \<Rightarrow> None)
         | _ \<Rightarrow> None)
      else if plain c then map_option ((#) c) (unescape esc plain cs)
      else None)"

text \<open>\<open>shouldEscape\<close> in the host and zone modes, for an ASCII byte.\<close>

definition host_plain :: "char \<Rightarrow> bool" where
  "host_plain c \<longleftrightarrow> 128 \<le> (of_char c :: nat) \<or> is_alpha c \<or> is_digit c
     \<or> c \<in> set ''!$&'' \<or> c = CHR 0x27 \<or> c \<in> set ''()*+,;=:[]<>'' \<or> c = CHR 0x22
     \<or> c \<in> set ''-_.~''"

definition host_escape :: "char \<Rightarrow> char \<Rightarrow> bool" where
  "host_escape a b \<longleftrightarrow> (case hex_val a of Some x \<Rightarrow> 8 \<le> x | None \<Rightarrow> False) \<or> (a = CHR ''2'' \<and> b = CHR ''5'')"

definition zone_escape :: "char \<Rightarrow> char \<Rightarrow> bool" where
  "zone_escape a b \<longleftrightarrow> (a = CHR ''2'' \<and> b = CHR ''5'')
     \<or> (case (hex_val a, hex_val b) of
          (Some x, Some y) \<Rightarrow> x * 16 + y = 32 \<or> (x * 16 + y < 128 \<and> host_plain (char_of (x * 16 + y)))
        | _ \<Rightarrow> False)"

definition unescape_host :: "string \<Rightarrow> string option" where
  "unescape_host = unescape host_escape host_plain"

definition unescape_zone :: "string \<Rightarrow> string option" where
  "unescape_zone = unescape zone_escape host_plain"

definition unescape_any :: "string \<Rightarrow> string option" where
  "unescape_any = unescape (\<lambda>_ _. True) (\<lambda>_. True)"

definition validOptionalPort :: "string \<Rightarrow> bool" where
  "validOptionalPort p \<longleftrightarrow> p = [] \<or> (hd p = CHR '':'' \<and> list_all is_digit (tl p))"

definition last_index :: "string \<Rightarrow> char \<Rightarrow> nat option" where
  "last_index s c = (case str_index (rev s) [c] of None \<Rightarrow> None | Some i \<Rightarrow> Some (length s - 1 - i))"

definition parseHost :: "string \<Rightarrow> string option" where
  "parseHost h =
     (if prefix ''['' h then
        (case last_index h (CHR '']'') of
           None \<Rightarrow> None
         | Some i \<Rightarrow>
             if \<not> validOptionalPort (drop (i + 1) h) then None
             else (case str_index (take i h) ''%25'' of
                 None \<Rightarrow> unescape_host h
               | Some z \<Rightarrow>
                   (case (unescape_host (take z h), unescape_zone (take (i - z) (drop z h)),
                          unescape_host (drop i h)) of
                      (Some h1, Some h2, Some h3) \<Rightarrow> Some (h1 @ h2 @ h3)
                    | _ \<Rightarrow> None)))
      else (case last_index h (CHR '':'') of
           None \<Rightarrow> unescape_host h
         | Some i \<Rightarrow> if validOptionalPort (drop i h) then unescape_host h else None))"

definition userinfo_char :: "char \<Rightarrow> bool" where
  "userinfo_char c \<longleftrightarrow> is_alpha c \<or> is_digit c \<or> c \<in> set ''-._:~!$&'' \<or> c = CHR 0x27
     \<or> c \<in> set ''()*+,;=%@''"

definition parseAuthority :: "string \<Rightarrow> string option" where
  "parseAuthority a = (case last_index a (CHR ''@'') of
     None \<Rightarrow> parseHost a
   | Some i \<Rightarrow> (case parseHost (drop (i + 1) a) of
       None \<Rightarrow> None
     | Some h \<Rightarrow>
         if list_all userinfo_char (take i a)
            \<and> list_all (\<lambda>u. unescape_any u \<noteq> None) (str_split2 (take i a) '':'')
         then Some h else None))"

text \<open>Text before the first occurrence of a character, and the text from it on.\<close>

definition cut_at :: "char \<Rightarrow> string \<Rightarrow> string \<times> string" where
  "cut_at c s = (takeWhile (\<lambda>x. x \<noteq> c) s, dropWhile (\<lambda>x. x \<noteq> c) s)"

definition url_parse :: "string \<Rightarrow> URL option" where
  "url_parse raw =
     (if list_ex ctl_byte raw then None
      else if raw = ''*'' then Some \<lparr>Scheme = [], Host = []\<rparr>
      else (case getscheme [] raw of
          None \<Rightarrow> None
        | Some (scheme0, rest0) \<Rightarrow>
            (let scheme = ToLower scheme0; rest = fst (cut_at (CHR ''?'') rest0) in
             if \<not> prefix ''/'' rest \<and> scheme \<noteq> [] then Some \<lparr>Scheme = scheme, Host = []\<rparr>
             else if \<not> prefix ''/'' rest \<and> CHR '':'' \<in> set (fst (cut_at (CHR ''/'') rest)) then None
             else if (scheme \<noteq> [] \<or> \<not> prefix ''///'' rest) \<and> prefix ''//'' rest then
               (let (auth, pth) = cut_at (CHR ''/'') (drop 2 rest) in
                case (parseAuthority auth, unescape_any pth) of
                  (Some h, Some _) \<Rightarrow> Some \<lparr>Scheme = scheme, Host = h\<rparr>
                | _ \<Rightarrow> None)
             else (case unescape_any rest of
                 None \<Rightarrow> None | Some _ \<Rightarrow> Some \<lparr>Scheme = scheme, Host = []\<rparr>))))"

definition url_Parse :: "string \<Rightarrow> error + URL" where
  "url_Parse raw =
     (let (u, frag) = cut_at (CHR ''#'') raw in
      case url_parse u of
        None \<Rightarrow> Inl (Errorf ''parse %q'' [AStr u])
      | Some url \<Rightarrow>
          if frag = [] \<or> unescape_any (tl frag) \<noteq> None then Inr url
          else Inl (Errorf ''parse %q'' [AStr raw]))"

end
