(* ===== verification/Kube.thy ===== *)
theory Kube
  imports GoNet
begin

text \<open>
  The custom resource of \<open>pkg/api/v1beta1\<close>, the parts of a Kubernetes node object the
  program reads, the outside world, and the vendored retry helper.

  Everything the program calls that is not its own code (the Kubernetes API server, the
  \<open>rbd\<close>, \<open>rados\<close> and \<open>ceph\<close> commands, the alcubierre HTTP server, the mount
  library, the resolver, the UUID generator) is a field of the record \<open>env\<close>: a function on
  an abstract world of type \<open>'w\<close>. Every definition that uses the outside takes such a
  record as an argument and threads the world, so a theorem without a hypothesis about the record
  holds for every behaviour of the outside.

  \<open>traced\<close> wraps an outside world so that it also logs every call with its result. A
  statement about the log of a handler run against \<open>traced E\<close> is a statement about the
  calls the handler makes, in order, whatever they answer.
\<close>

section \<open>pkg/api/v1beta1/csi\_alcub.go\<close>

record CsiAlcubSpec =
  Uuid :: string
  Capacity :: int64
  RbdSc :: string
  Pool :: string
  Image :: string

record VolumeInfo =
  Devpath :: string
  StorageIp :: string

record CsiAlcubStatus =
  VolInfo :: VolumeInfo
  Prenode :: string
  Node :: string
  AllNodes :: "string list"

record ObjectMeta =
  Name :: string
  Finalizers :: "string list"
  DeletionTimestamp :: "nat option"
  ResourceVersion :: string

record CsiAlcub =
  Meta :: ObjectMeta
  Spec :: CsiAlcubSpec
  Status :: CsiAlcubStatus

text \<open>The gRPC status errors; the field of the resource hides the constructor's short name.\<close>

abbreviation status_Error :: "code \<Rightarrow> string \<Rightarrow> arg list \<Rightarrow> error" where
  "status_Error \<equiv> error.Status"

text \<open>The zero values.\<close>

definition zero_status :: CsiAlcubStatus where
  "zero_status = \<lparr>VolInfo = \<lparr>Devpath = [], StorageIp = []\<rparr>, Prenode = [], Node = [], AllNodes = []\<rparr>"

section \<open>Node objects\<close>

record Taint =
  Key :: string
  Effect :: string

record kNode =
  nName :: string
  nLabels :: gomap
  nAnnotations :: gomap
  Unschedulable :: bool
  Taints :: "Taint list"
  nDeletionTimestamp :: "nat option"
  nResourceVersion :: string

definition zero_node :: kNode where
  "zero_node = \<lparr>nName = [], nLabels = None, nAnnotations = None, Unschedulable = False,
     Taints = [], nDeletionTimestamp = None, nResourceVersion = []\<rparr>"

text \<open>\<open>Taint.MatchTaint\<close>.\<close>

definition MatchTaint :: "Taint \<Rightarrow> Taint \<Rightarrow> bool" where
  "MatchTaint t u \<longleftrightarrow> Key t = Key u \<and> Effect t = Effect u"

section \<open>The outside world\<close>

text \<open>The result of \<open>exec.Cmd.CombinedOutput\<close> under a deadline.\<close>

record cmd_out =
  Out :: string
  Deadline :: bool
  CmdErr :: "error option"

text \<open>Requests to the alcubierre server and its answers. A body that is not JSON, or that cannot
  be read, is the left value.\<close>

datatype json = JNull | JBool bool | JNum int | JStr string | JArr "json list" | JObj "(string \<times> json) list"

datatype http_method = GET | POST

record http_req =
  Method :: http_method
  Url :: string
  Headers :: "(string \<times> string) list"
  Body :: json

record http_resp =
  StatusCode :: int
  RespBody :: "error + json"

record 'w env =
  kube_get :: "string \<Rightarrow> 'w \<Rightarrow> (error + CsiAlcub) \<times> 'w"
  kube_list :: "'w \<Rightarrow> (error + CsiAlcub list) \<times> 'w"
  kube_create :: "CsiAlcub \<Rightarrow> 'w \<Rightarrow> error option \<times> 'w"
  kube_update :: "CsiAlcub \<Rightarrow> 'w \<Rightarrow> error option \<times> 'w"
  kube_delete :: "CsiAlcub \<Rightarrow> 'w \<Rightarrow> error option \<times> 'w"
  node_get :: "string \<Rightarrow> 'w \<Rightarrow> (error + kNode) \<times> 'w"
  node_list :: "'w \<Rightarrow> (error + kNode list) \<times> 'w"
  node_update :: "kNode \<Rightarrow> 'w \<Rightarrow> error option \<times> 'w"
  sc_get :: "string \<Rightarrow> 'w \<Rightarrow> (error + gomap) \<times> 'w"
  secret_get :: "string \<Rightarrow> string \<Rightarrow> 'w \<Rightarrow> (error + gomap) \<times> 'w"
  find_dns :: "'w \<Rightarrow> string \<times> 'w"
  lookup_host :: "string \<Rightarrow> string \<Rightarrow> 'w \<Rightarrow> (error + string list) \<times> 'w"
  run_cmd :: "string \<Rightarrow> string list \<Rightarrow> 'w \<Rightarrow> cmd_out \<times> 'w"
  http_do :: "http_req \<Rightarrow> 'w \<Rightarrow> (error + http_resp) \<times> 'w"
  new_uuid :: "'w \<Rightarrow> string \<times> 'w"
  likely_not_mnt :: "string \<Rightarrow> 'w \<Rightarrow> (bool \<times> error option) \<times> 'w"
  not_mnt :: "string \<Rightarrow> 'w \<Rightarrow> (bool \<times> error option) \<times> 'w"
  mkdir_all :: "string \<Rightarrow> 'w \<Rightarrow> error option \<times> 'w"
  format_mount :: "string \<Rightarrow> string \<Rightarrow> string \<Rightarrow> string list \<Rightarrow> 'w \<Rightarrow> error option \<times> 'w"
  umount :: "string \<Rightarrow> 'w \<Rightarrow> error option \<times> 'w"
  remove_all :: "string \<Rightarrow> 'w \<Rightarrow> error option \<times> 'w"

section \<open>Logging the calls\<close>

datatype event =
    EvGet string "error + CsiAlcub"
  | EvList "error + CsiAlcub list"
  | EvCreate CsiAlcub "error option"
  | EvUpdate CsiAlcub "error option"
  | EvDelete CsiAlcub "error option"
  | EvNodeGet string "error + kNode"
  | EvNodeList "error + kNode list"
  | EvNodeUpdate kNode "error option"
  | EvSc string "error + gomap"
  | EvSecret string string "error + gomap"
  | EvDns string
  | EvLookup string string "error + string list"
  | EvCmd string "string list" cmd_out
  | EvHttp http_req "error + http_resp"
  | EvUuid string
  | EvLikely string "bool \<times> error option"
  | EvNotMnt string "bool \<times> error option"
  | EvMkdir string "error option"
  | EvMount string string string "string list" "error option"
  | EvUmount string "error option"
  | EvRemove string "error option"

definition logged :: "('r \<Rightarrow> event) \<Rightarrow> ('w \<Rightarrow> 'r \<times> 'w) \<Rightarrow> 'w \<times> event list \<Rightarrow> 'r \<times> 'w \<times> event list" where
  "logged ev f = (\<lambda>(w, l). (fst (f w), snd (f w), l @ [ev (fst (f w))]))"

lemma logged_simp [simp]: "logged ev f (w, l) = (fst (f w), snd (f w), l @ [ev (fst (f w))])"
  by (simp add: logged_def)

definition traced :: "'w env \<Rightarrow> ('w \<times> event list) env" where
  "traced E = \<lparr>
     kube_get = (\<lambda>n. logged (EvGet n) (kube_get E n)),
     kube_list = logged EvList (kube_list E),
     kube_create = (\<lambda>x. logged (EvCreate x) (kube_create E x)),
     kube_update = (\<lambda>x. logged (EvUpdate x) (kube_update E x)),
     kube_delete = (\<lambda>x. logged (EvDelete x) (kube_delete E x)),
     node_get = (\<lambda>n. logged (EvNodeGet n) (node_get E n)),
     node_list = logged EvNodeList (node_list E),
     node_update = (\<lambda>x. logged (EvNodeUpdate x) (node_update E x)),
     sc_get = (\<lambda>n. logged (EvSc n) (sc_get E n)),
     secret_get = (\<lambda>ns n. logged (EvSecret ns n) (secret_get E ns n)),
     find_dns = logged EvDns (find_dns E),
     lookup_host = (\<lambda>h d. logged (EvLookup h d) (lookup_host E h d)),
     run_cmd = (\<lambda>c as. logged (EvCmd c as) (run_cmd E c as)),
     http_do = (\<lambda>r. logged (EvHttp r) (http_do E r)),
     new_uuid = logged EvUuid (new_uuid E),
     likely_not_mnt = (\<lambda>p. logged (EvLikely p) (likely_not_mnt E p)),
     not_mnt = (\<lambda>p. logged (EvNotMnt p) (not_mnt E p)),
     mkdir_all = (\<lambda>p. logged (EvMkdir p) (mkdir_all E p)),
     format_mount = (\<lambda>d t f os. logged (EvMount d t f os) (format_mount E d t f os)),
     umount = (\<lambda>p. logged (EvUmount p) (umount E p)),
     remove_all = (\<lambda>p. logged (EvRemove p) (remove_all E p))\<rparr>"

lemma traced_sel [env_defs]:
  "kube_get (traced E) n = logged (EvGet n) (kube_get E n)"
  "kube_list (traced E) = logged EvList (kube_list E)"
  "kube_create (traced E) x = logged (EvCreate x) (kube_create E x)"
  "kube_update (traced E) x = logged (EvUpdate x) (kube_update E x)"
  "kube_delete (traced E) x = logged (EvDelete x) (kube_delete E x)"
  "node_get (traced E) n = logged (EvNodeGet n) (node_get E n)"
  "node_list (traced E) = logged EvNodeList (node_list E)"
  "node_update (traced E) k = logged (EvNodeUpdate k) (node_update E k)"
  "sc_get (traced E) n = logged (EvSc n) (sc_get E n)"
  "secret_get (traced E) ns n = logged (EvSecret ns n) (secret_get E ns n)"
  "find_dns (traced E) = logged EvDns (find_dns E)"
  "lookup_host (traced E) h d = logged (EvLookup h d) (lookup_host E h d)"
  "run_cmd (traced E) c as = logged (EvCmd c as) (run_cmd E c as)"
  "http_do (traced E) r = logged (EvHttp r) (http_do E r)"
  "new_uuid (traced E) = logged EvUuid (new_uuid E)"
  "likely_not_mnt (traced E) p = logged (EvLikely p) (likely_not_mnt E p)"
  "not_mnt (traced E) p = logged (EvNotMnt p) (not_mnt E p)"
  "mkdir_all (traced E) p = logged (EvMkdir p) (mkdir_all E p)"
  "format_mount (traced E) d t f os = logged (EvMount d t f os) (format_mount E d t f os)"
  "umount (traced E) p = logged (EvUmount p) (umount E p)"
  "remove_all (traced E) p = logged (EvRemove p) (remove_all E p)"
  by (simp_all add: traced_def)

text \<open>A log that was only extended, and only by events with a property.\<close>

definition grows :: "(event \<Rightarrow> bool) \<Rightarrow> event list \<Rightarrow> event list \<Rightarrow> bool" where
  "grows P l l' \<longleftrightarrow> (\<exists>x. l' = l @ x \<and> list_all P x)"

lemma grows_refl [simp, intro]: "grows P l l"
  by (simp add: grows_def)

lemma grows_trans [trans]: "grows P l l1 \<Longrightarrow> grows P l1 l2 \<Longrightarrow> grows P l l2"
  by (auto simp: grows_def)

lemma grows_append [simp]: "grows P l (l @ x) \<longleftrightarrow> list_all P x"
  by (auto simp: grows_def)

lemma grows_mono: "grows P l l' \<Longrightarrow> (\<And>e. P e \<Longrightarrow> Q e) \<Longrightarrow> grows Q l l'"
  by (auto simp: grows_def list_all_iff)

section \<open>The vendored retry helper\<close>

text \<open>\<open>wait.ExponentialBackoff\<close> for a backoff without cap: at most \<open>Steps\<close> calls of
  the condition. The state \<open>'s\<close> is whatever the condition's closure changes. Sleeping is not
  modelled. \<open>DefaultRetry\<close> has five steps.\<close>

fun ExponentialBackoff :: "nat \<Rightarrow> ('s \<Rightarrow> (bool \<times> error option) \<times> 's) \<Rightarrow> 's \<Rightarrow> error option \<times> 's" where
  "ExponentialBackoff 0 cond s = (Some ErrWaitTimeout, s)"
| "ExponentialBackoff (Suc n) cond s = (case cond s of
     ((ok, err), s1) \<Rightarrow>
       if err \<noteq> None \<or> ok then (err, s1)
       else if n = 0 then (Some ErrWaitTimeout, s1)
       else ExponentialBackoff n cond s1)"

text \<open>\<open>retry.OnError\<close>: the closure keeps the last retriable error.\<close>

definition OnError :: "nat \<Rightarrow> (error \<Rightarrow> bool) \<Rightarrow> ('w \<Rightarrow> error option \<times> 'w) \<Rightarrow> 'w \<Rightarrow> error option \<times> 'w" where
  "OnError steps retriable fn w =
     (case ExponentialBackoff steps
        (\<lambda>(w, lastErr). case fn w of
            (None, w1) \<Rightarrow> ((True, None), (w1, lastErr))
          | (Some e, w1) \<Rightarrow>
              if retriable e then ((False, None), (w1, Some e))
              else ((False, Some e), (w1, lastErr)))
        (w, None) of
      (err, (w1, lastErr)) \<Rightarrow> (if err = Some ErrWaitTimeout then lastErr else err, w1))"

definition DefaultRetry :: nat where
  "DefaultRetry = 5"

definition RetryOnConflict :: "nat \<Rightarrow> ('w \<Rightarrow> error option \<times> 'w) \<Rightarrow> 'w \<Rightarrow> error option \<times> 'w" where
  "RetryOnConflict steps fn w = OnError steps IsConflict fn w"

subsection \<open>What retrying does\<close>

text \<open>The reference: call; stop at a success or at an error that is not a conflict; stop after
  the last step. A call that itself answers \<open>ErrWaitTimeout\<close> is taken for the end of the
  loop, and the last conflict, if any, is returned.\<close>

fun attempts :: "nat \<Rightarrow> error option \<Rightarrow> ('w \<Rightarrow> error option \<times> 'w) \<Rightarrow> 'w \<Rightarrow> error option \<times> 'w" where
  "attempts 0 lst fn w = (lst, w)"
| "attempts (Suc n) lst fn w = (case fn w of
     (None, w1) \<Rightarrow> (None, w1)
   | (Some e, w1) \<Rightarrow>
       if IsConflict e then (if n = 0 then (Some e, w1) else attempts n (Some e) fn w1)
       else if e = ErrWaitTimeout then (lst, w1)
       else (Some e, w1))"

lemma ExponentialBackoff_attempts:
  "(case ExponentialBackoff n
      (\<lambda>(w, lastErr). case fn w of
          (None, w1) \<Rightarrow> ((True, None), (w1, lastErr))
        | (Some e, w1) \<Rightarrow>
            if IsConflict e then ((False, None), (w1, Some e))
            else ((False, Some e), (w1, lastErr)))
      (w, lst) of
    (err, (w1, lastErr)) \<Rightarrow> (if err = Some ErrWaitTimeout then lastErr else err, w1))
   = attempts n lst fn w"
proof (induction n arbitrary: w lst)
  case 0
  then show ?case by simp
next
  case (Suc n)
  obtain r w1 where fw: "fn w = (r, w1)" by (cases "fn w")
  show ?case
    by (cases r) (auto simp: fw Suc.IH)
qed

lemma RetryOnConflict_attempts: "RetryOnConflict n fn w = attempts n None fn w"
  using ExponentialBackoff_attempts [of n fn w None]
  by (simp add: RetryOnConflict_def OnError_def)

text \<open>What the callers rely on: one successful call ends the loop, an error that is not a
  conflict is returned at once, whatever every call keeps the loop keeps, and the loop makes at
  most the given number of calls, all but the last of them conflicts.\<close>

locale conflict_retry =
  fixes retry :: "nat \<Rightarrow> ('w \<Rightarrow> error option \<times> 'w) \<Rightarrow> 'w \<Rightarrow> error option \<times> 'w"
    and logretry :: "nat \<Rightarrow> ('w \<times> event list \<Rightarrow> error option \<times> 'w \<times> event list)
      \<Rightarrow> 'w \<times> event list \<Rightarrow> error option \<times> 'w \<times> event list"
  assumes retry_ok: "fn w = (None, w1) \<Longrightarrow> 0 < n \<Longrightarrow> retry n fn w = (None, w1)"
    and retry_stop: "fn w = (Some e, w1) \<Longrightarrow> \<not> IsConflict e \<Longrightarrow> e \<noteq> ErrWaitTimeout \<Longrightarrow> 0 < n \<Longrightarrow>
      retry n fn w = (Some e, w1)"
    and retry_inv: "P w \<Longrightarrow> (\<And>w. P w \<Longrightarrow> P (snd (fn w))) \<Longrightarrow> P (snd (retry n fn w))"
    and retry_log: "0 < n \<Longrightarrow> \<exists>rs r w'. logretry n (logged ev f) (w, l) = (r, w', l @ map ev rs)
      \<and> rs \<noteq> [] \<and> length rs \<le> n
      \<and> (\<forall>x \<in> set (butlast rs). \<exists>e. x = Some e \<and> IsConflict e)
      \<and> (last rs \<noteq> Some ErrWaitTimeout \<longrightarrow> r = last rs)"
begin

lemma retry_log_E:
  assumes "logretry n (logged ev f) (w, l) = (r, w', l')" "0 < n"
  obtains rs where "l' = l @ map ev rs" "rs \<noteq> []" "length rs \<le> n"
    "\<forall>x \<in> set (butlast rs). \<exists>e. x = Some e \<and> IsConflict e"
    "last rs \<noteq> Some ErrWaitTimeout \<longrightarrow> r = last rs"
  using retry_log [OF assms(2), of ev f w l] assms(1) by auto

end

lemma attempts_inv:
  "P w \<Longrightarrow> (\<And>w. P w \<Longrightarrow> P (snd (fn w))) \<Longrightarrow> P (snd (attempts n lst fn w))"
proof (induction n arbitrary: w lst)
  case 0
  then show ?case by simp
next
  case (Suc n)
  obtain r w1 where fw: "fn w = (r, w1)" by (cases "fn w")
  with Suc.prems have "P w1" by (metis snd_conv)
  with Suc.IH [of w1] Suc.prems(2) fw show ?case by (auto split: option.splits)
qed

lemma attempts_log:
  "\<exists>rs r w'. attempts (Suc n) lst (logged ev f) (w, l) = (r, w', l @ map ev rs)
    \<and> rs \<noteq> [] \<and> length rs \<le> Suc n
    \<and> (\<forall>x \<in> set (butlast rs). \<exists>e. x = Some e \<and> IsConflict e)
    \<and> (last rs \<noteq> Some ErrWaitTimeout \<longrightarrow> r = last rs)"
proof (induction n arbitrary: w l lst)
  case 0
  obtain r w1 where fw: "f w = (r, w1)" by (cases "f w")
  show ?case by (rule exI [of _ "[r]"]) (auto simp: fw split: option.splits)
next
  case (Suc n)
  obtain r w1 where fw: "f w = (r, w1)" by (cases "f w")
  show ?case
  proof (cases "\<exists>e. r = Some e \<and> IsConflict e")
    case True
    then obtain e where e: "r = Some e" "IsConflict e" by blast
    from Suc.IH [of "Some e" w1 "l @ [ev r]"] obtain rs r' w' where
      step: "attempts (Suc n) (Some e) (logged ev f) (w1, l @ [ev r]) = (r', w', (l @ [ev r]) @ map ev rs)"
      and rs: "rs \<noteq> []" "length rs \<le> Suc n"
        "\<forall>x \<in> set (butlast rs). \<exists>e. x = Some e \<and> IsConflict e"
        "last rs \<noteq> Some ErrWaitTimeout \<longrightarrow> r' = last rs"
      by blast
    have "attempts (Suc (Suc n)) lst (logged ev f) (w, l) = (r', w', l @ map ev (r # rs))"
      using step e fw by (simp only: attempts.simps logged_simp) simp
    with rs e show ?thesis by (intro exI [of _ "r # rs"] exI [of _ r'] exI [of _ w']) auto
  next
    case False
    then show ?thesis
      by (intro exI [of _ "[r]"]) (auto simp: fw split: option.splits)
  qed
qed

interpretation roc: conflict_retry RetryOnConflict RetryOnConflict
proof (unfold_locales, goal_cases)
  case (1 fn w w1 n)
  then show ?case by (cases n) (auto simp: RetryOnConflict_attempts)
next
  case (2 fn w e w1 n)
  then show ?case by (cases n) (auto simp: RetryOnConflict_attempts)
next
  case (3 P w fn n)
  then show ?case by (simp add: RetryOnConflict_attempts attempts_inv)
next
  case (4 n ev f w l)
  then show ?case
    using attempts_log [of "n - 1" None ev f w l] by (simp add: RetryOnConflict_attempts)
qed

lemma DefaultRetry_pos [simp]: "0 < DefaultRetry"
  by (simp add: DefaultRetry_def)

end
