(* ===== verification/Demo.thy ===== *)
theory Demo
  imports Kube
begin

text \<open>
  One concrete outside world, for the witnesses: an API server that keeps objects by name and
  refuses to create an existing one, a shell whose \<open>rbd\<close>, \<open>rados\<close> and \<open>ceph\<close>
  commands succeed, an alcubierre server that hands out a device, and a host whose mounts are a list
  of paths. It shows that the hypotheses of the theorems can hold; nothing else rests on it.
\<close>

record demo =
  d_objs :: "string \<rightharpoonup> CsiAlcub"
  d_names :: "string list"
  d_node :: kNode
  d_mounts :: "string list"
  d_dirs :: "string list"
  d_attached :: bool

definition demo_spec :: CsiAlcubSpec where
  "demo_spec = \<lparr>Uuid = ''u1'', Capacity = 1073741824, RbdSc = ''general'', Pool = ''rbd'', Image = ''pvc-1''\<rparr>"

definition demo_node :: kNode where
  "demo_node = \<lparr>nName = ''node-1'',
     nLabels = Some [(''alcubierre-manager-node-1'', ''enabled''), (''csi-alcub'', ''enable'')],
     nAnnotations = Some [], Unschedulable = False,
     Taints = [\<lparr>Key = ''node.kubernetes.io/unreachable'', Effect = ''NoSchedule''\<rparr>],
     nDeletionTimestamp = None, nResourceVersion = ''1''\<rparr>"

definition demo0 :: demo where
  "demo0 = \<lparr>d_objs = Map.empty, d_names = [], d_node = demo_node, d_mounts = [], d_dirs = [],
     d_attached = False\<rparr>"

definition demo_obj :: CsiAlcub where
  "demo_obj = \<lparr>Meta = \<lparr>Name = ''pvc-1'', Finalizers = [''controller/csi-alcub''],
       DeletionTimestamp = None, ResourceVersion = ''1''\<rparr>,
     Spec = demo_spec, Status = zero_status\<rparr>"

definition demo1 :: demo where
  "demo1 = demo0\<lparr>d_objs := [''pvc-1'' \<mapsto> demo_obj], d_names := [''pvc-1'']\<rparr>"

definition demo_http :: "http_req \<Rightarrow> json" where
  "demo_http q = (case Method q of
     GET \<Rightarrow> JObj [(''status'', JStr ''clean'')]
   | POST \<Rightarrow> (case Body q of
       JObj ((_, JStr op) # _) \<Rightarrow>
         if op = ''dev_connect'' then JObj [(''alcubierre_dev'', JStr ''rbd0'')]
         else if op = ''get_secondary_urls'' then JArr [JStr ''http://10.0.0.2'']
         else JObj []
     | _ \<Rightarrow> JNull))"

definition demo_env :: "demo env" where
  "demo_env = \<lparr>
     kube_get = (\<lambda>n w. (case d_objs w n of
        None \<Rightarrow> Inl (ApiErr ReasonNotFound n) | Some a \<Rightarrow> Inr a, w)),
     kube_list = (\<lambda>w. (Inr (List.map_filter (d_objs w) (d_names w)), w)),
     kube_create = (\<lambda>x w. (case d_objs w (Name (Meta x)) of
        Some _ \<Rightarrow> (Some (ApiErr ReasonAlreadyExists (Name (Meta x))), w)
      | None \<Rightarrow> (None, w\<lparr>d_objs := (d_objs w)(Name (Meta x) \<mapsto> x), d_names := Name (Meta x) # d_names w\<rparr>))),
     kube_update = (\<lambda>x w. (None, w\<lparr>d_objs := (d_objs w)(Name (Meta x) \<mapsto> x)\<rparr>)),
     kube_delete = (\<lambda>x w. (None, w\<lparr>d_objs := (d_objs w)(Name (Meta x) := None)\<rparr>)),
     node_get = (\<lambda>n w. (if n = nName (d_node w) then Inr (d_node w) else Inl (ApiErr ReasonNotFound n), w)),
     node_list = (\<lambda>w. (Inr [d_node w], w)),
     node_update = (\<lambda>x w. (None, w\<lparr>d_node := x\<rparr>)),
     sc_get = (\<lambda>n w. (Inr (Some [(''monitors'', ''10.0.0.9:6789''), (''adminSecretName'', ''ceph'')]), w)),
     secret_get = (\<lambda>ns n w. (Inr (Some [(''key'', ''s3cret'')]), w)),
     find_dns = (\<lambda>w. (''10.96.0.10'', w)),
     lookup_host = (\<lambda>h d w. (Inr [''10.0.0.9''], w)),
     run_cmd = (\<lambda>c as w. (\<lparr>Out = (if c = ''rados'' then ''http://10.0.0.1'' else ''Watchers: none''),
        Deadline = False, CmdErr = None\<rparr>, w)),
     http_do = (\<lambda>q w. (Inr \<lparr>StatusCode = 200, RespBody = Inr (demo_http q)\<rparr>, w)),
     new_uuid = (\<lambda>w. (''u1'', w)),
     likely_not_mnt = (\<lambda>p w. (if p \<in> set (d_mounts w) then (False, None)
        else if p \<in> set (d_dirs w) then (True, None) else (True, Some (OsErr ErrNotExist p)), w)),
     not_mnt = (\<lambda>p w. (if p \<in> set (d_mounts w) then (False, None)
        else if p \<in> set (d_dirs w) then (True, None) else (True, Some (OsErr ErrNotExist p)), w)),
     mkdir_all = (\<lambda>p w. (None, w\<lparr>d_dirs := p # d_dirs w\<rparr>)),
     format_mount = (\<lambda>d t f os w. (None, w\<lparr>d_mounts := t # d_mounts w\<rparr>)),
     umount = (\<lambda>p w. (None, w\<lparr>d_mounts := removeAll p (d_mounts w)\<rparr>)),
     remove_all = (\<lambda>p w. (None, w\<lparr>d_dirs := removeAll p (d_dirs w)\<rparr>))\<rparr>"

lemmas demo_defs = demo_env_def demo0_def demo1_def demo_obj_def demo_spec_def demo_node_def
  demo_http_def zero_status_def

text \<open>The same by field, for evaluations that keep \<open>demo_env\<close> folded.\<close>

lemma demo_sel:
  "kube_get demo_env n w = (case d_objs w n of None \<Rightarrow> Inl (ApiErr ReasonNotFound n) | Some a \<Rightarrow> Inr a, w)"
  "kube_create demo_env x w = (case d_objs w (Name (Meta x)) of
      Some _ \<Rightarrow> (Some (ApiErr ReasonAlreadyExists (Name (Meta x))), w)
    | None \<Rightarrow> (None, w\<lparr>d_objs := (d_objs w)(Name (Meta x) \<mapsto> x), d_names := Name (Meta x) # d_names w\<rparr>))"
  "kube_update demo_env x w = (None, w\<lparr>d_objs := (d_objs w)(Name (Meta x) \<mapsto> x)\<rparr>)"
  "kube_delete demo_env x w = (None, w\<lparr>d_objs := (d_objs w)(Name (Meta x) := None)\<rparr>)"
  "node_get demo_env n w = (if n = nName (d_node w) then Inr (d_node w) else Inl (ApiErr ReasonNotFound n), w)"
  "node_list demo_env w = (Inr [d_node w], w)"
  "node_update demo_env k w = (None, w\<lparr>d_node := k\<rparr>)"
  "new_uuid demo_env w = (''u1'', w)"
  "run_cmd demo_env c as w = (\<lparr>Out = (if c = ''rados'' then ''http://10.0.0.1'' else ''Watchers: none''),
      Deadline = False, CmdErr = None\<rparr>, w)"
  "http_do demo_env q w = (Inr \<lparr>StatusCode = 200, RespBody = Inr (demo_http q)\<rparr>, w)"
  by (simp_all add: demo_env_def)

lemmas demo_data = demo0_def demo1_def demo_obj_def demo_spec_def demo_node_def zero_status_def

text \<open>Results come as nested pairs; a witness names their parts by these.\<close>

lemma pair3: "x = (fst x, fst (snd x), snd (snd x))"
  by simp

lemma pair4: "x = (fst x, fst (snd x), fst (snd (snd x)), snd (snd (snd x)))"
  by simp

lemma pair5:
  "x = (fst x, fst (snd x), fst (snd (snd x)), fst (snd (snd (snd x))), snd (snd (snd (snd x))))"
  by simp

end
