(* ===== verification/Manager.thy ===== *)
theory Manager
  imports Demo
begin

text \<open>
  \<open>pkg/manager/alcubManage.go\<close>: the client of the \<open>CsiAlcub\<close> custom resources. The
  state \<open>AlcubCon\<close> holds the two maps the mutexes guard, the index from volume UUIDs to
  resource names and the node information collected from resource statuses; every operation
  returns the new state. The Kubernetes client is the \<open>env\<close> argument.

  The facts: the UUID index is first-come and stable; creation registers exactly one UUID and
  unregisters it when the API refuses the object; the reconciler clears finalizers only of objects
  that are being deleted and not attached; updates and deletes are tried at most five times.
\<close>

section \<open>State\<close>

record Nodeinfo =
  StoreIp :: IP
  Zones :: "string list"

record AlcubCon =
  uuidname :: "string \<rightharpoonup> string"
  nodes :: "string \<rightharpoonup> Nodeinfo"

definition NewAlcubCon :: AlcubCon where
  "NewAlcubCon = \<lparr>uuidname = Map.empty, nodes = Map.empty\<rparr>"

definition finalizers :: "string list" where
  "finalizers = [''controller/csi-alcub'']"

section \<open>The UUID index\<close>

definition reverseUuid :: "string \<Rightarrow> string \<Rightarrow> AlcubCon \<Rightarrow> error option \<times> AlcubCon" where
  "reverseUuid uuid name al = (case uuidname al uuid of
     Some v \<Rightarrow>
       if v = name then (None, al)
       else (Some (Errorf ''Alerady exist: uuid %s, and value is %s'' [AStr uuid, AStr v]), al)
   | None \<Rightarrow> (None, al\<lparr>uuidname := (uuidname al)(uuid \<mapsto> name)\<rparr>))"

definition releaseUuid :: "string \<Rightarrow> AlcubCon \<Rightarrow> AlcubCon" where
  "releaseUuid uuid al = al\<lparr>uuidname := (uuidname al)(uuid := None)\<rparr>"

definition getNameByuuid :: "string \<Rightarrow> AlcubCon \<Rightarrow> string" where
  "getNameByuuid uuid al = (case uuidname al uuid of Some v \<Rightarrow> v | None \<Rightarrow> [])"

text \<open>What the users of the index rely on.\<close>

locale uuid_index =
  fixes name_of :: "string \<Rightarrow> 's \<Rightarrow> string"
    and reserve :: "string \<Rightarrow> string \<Rightarrow> 's \<Rightarrow> error option \<times> 's"
    and release :: "string \<Rightarrow> 's \<Rightarrow> 's"
  assumes reserve_ok: "reserve u n s = (None, s') \<Longrightarrow> name_of u s' = n"
    and reserve_err: "reserve u n s = (Some e, s') \<Longrightarrow> s' = s \<and> name_of u s \<noteq> n"
    and reserve_other: "u' \<noteq> u \<Longrightarrow> name_of u' (snd (reserve u n s)) = name_of u' s"
    and reserve_stable: "name_of u s \<noteq> [] \<Longrightarrow> name_of u (snd (reserve u n s)) = name_of u s"
    and name_of_release: "name_of u' (release u s) = (if u' = u then [] else name_of u' s)"
begin

lemma reserve_keeps: "name_of u s \<noteq> [] \<Longrightarrow> name_of u (snd (reserve u' n s)) = name_of u s"
  by (cases "u' = u") (auto simp: reserve_stable reserve_other)

lemma reserve_seq_keeps:
  "name_of u s \<noteq> [] \<Longrightarrow> name_of u (fold (\<lambda>(u', n) s. snd (reserve u' n s)) us s) = name_of u s"
  by (induction us arbitrary: s) (auto simp: reserve_keeps)

lemma reserve_conflict: "name_of u s = m \<Longrightarrow> m \<noteq> [] \<Longrightarrow> m \<noteq> n \<Longrightarrow> \<exists>e. reserve u n s = (Some e, s)"
proof -
  assume a: "name_of u s = m" "m \<noteq> []" "m \<noteq> n"
  obtain r s' where r: "reserve u n s = (r, s')" by (cases "reserve u n s")
  with reserve_stable [of u s n] a have "name_of u s' = m" by simp
  with r a reserve_ok [of u n s s'] have "r \<noteq> None" by auto
  with r reserve_err [of u n s _ s'] show ?thesis by auto
qed

lemma release_reserve_fresh:
  "name_of u s = [] \<Longrightarrow> reserve u n s = (None, s') \<Longrightarrow> name_of v (release u s') = name_of v s"
  using reserve_other [of v u n s] by (cases "v = u") (auto simp: name_of_release)

end

interpretation idx: uuid_index getNameByuuid reverseUuid releaseUuid
  by unfold_locales
    (auto simp: reverseUuid_def releaseUuid_def getNameByuuid_def split: option.splits if_splits)

lemma nodes_reverseUuid [frame_simps]: "nodes (snd (reverseUuid u n al)) = nodes al"
  by (auto simp: reverseUuid_def split: option.splits)

lemma nodes_releaseUuid [frame_simps]: "nodes (releaseUuid u al) = nodes al"
  by (simp add: releaseUuid_def)

section \<open>Node information\<close>

definition Nodeinfo_DeepCopy :: "Nodeinfo \<Rightarrow> Nodeinfo" where
  "Nodeinfo_DeepCopy ni =
     (let tmpn = \<lparr>StoreIp = [], Zones = []\<rparr> in
      tmpn\<lparr>StoreIp := go_copy (StoreIp tmpn) (StoreIp ni), Zones := go_copy (Zones tmpn) (Zones ni)\<rparr>)"

definition GetNodeInfo :: "string \<Rightarrow> AlcubCon \<Rightarrow> Nodeinfo option" where
  "GetNodeInfo nodename al = (case nodes al nodename of
     Some v \<Rightarrow> Some (Nodeinfo_DeepCopy v) | None \<Rightarrow> None)"

definition reverseNode :: "CsiAlcubStatus option \<Rightarrow> AlcubCon \<Rightarrow> AlcubCon" where
  "reverseNode stat al = (case stat of
     None \<Rightarrow> al
   | Some st \<Rightarrow>
       if Node st = [] \<or> StorageIp (VolInfo st) = [] then al
       else (case ParseIP (StorageIp (VolInfo st)) of
           None \<Rightarrow> al
         | Some ip \<Rightarrow>
             (let oldv = (case nodes al (Node st) of Some v \<Rightarrow> v | None \<Rightarrow> \<lparr>StoreIp = [], Zones = []\<rparr>) in
              if IP_Equal (StoreIp oldv) ip then al
              else al\<lparr>nodes := (nodes al)(Node st \<mapsto>
                     oldv\<lparr>StoreIp := ip, Zones := go_copy (Zones oldv) (AllNodes st)\<rparr>)\<rparr>)))"

lemma uuidname_reverseNode [frame_simps]: "uuidname (reverseNode st al) = uuidname al"
  by (auto simp: reverseNode_def Let_def split: option.splits)

lemma getNameByuuid_reverseNode [frame_simps]: "getNameByuuid u (reverseNode st al) = getNameByuuid u al"
  by (simp add: getNameByuuid_def frame_simps)

section \<open>Operations on the resources\<close>

definition AlcubCon_GetByName :: "'w env \<Rightarrow> string \<Rightarrow> 'w \<Rightarrow> CsiAlcub option \<times> 'w" where
  "AlcubCon_GetByName E name w = (case kube_get E name w of
     (Inl _, w1) \<Rightarrow> (None, w1) | (Inr obj, w1) \<Rightarrow> (Some obj, w1))"

definition AlcubCon_GetByUuid :: "'w env \<Rightarrow> string \<Rightarrow> AlcubCon \<Rightarrow> 'w \<Rightarrow> CsiAlcub option \<times> 'w" where
  "AlcubCon_GetByUuid E uuid al w =
     (if uuid = [] then (None, w)
      else let name = getNameByuuid uuid al in
        if name = [] then (None, w) else AlcubCon_GetByName E name w)"

definition newobj :: "string \<Rightarrow> CsiAlcubSpec \<Rightarrow> CsiAlcub" where
  "newobj name spec =
     \<lparr>Meta = \<lparr>Name = name, Finalizers = finalizers, DeletionTimestamp = None, ResourceVersion = []\<rparr>,
      Spec = spec, Status = zero_status\<rparr>"

definition AlcubCon_Create ::
    "'w env \<Rightarrow> string \<Rightarrow> CsiAlcubSpec option \<Rightarrow> AlcubCon \<Rightarrow> 'w \<Rightarrow> error option \<times> AlcubCon \<times> 'w" where
  "AlcubCon_Create E name spec al w = (case spec of
     None \<Rightarrow> (Some (Errorf ''spec is nil'' []), al, w)
   | Some sp \<Rightarrow> (case reverseUuid (Uuid sp) name al of
       (Some e, al1) \<Rightarrow> (Some e, al1, w)
     | (None, al1) \<Rightarrow> (case kube_create E (newobj name sp) w of
         (None, w1) \<Rightarrow> (None, al1, w1)
       | (Some e, w1) \<Rightarrow>
           (Some (if IsAlreadyExists e then NewAlreadyExistError (name @ '' is alerady exist!'') else e),
            releaseUuid (Uuid sp) al1, w1))))"

definition AlcubCon_Delete :: "'w env \<Rightarrow> string \<Rightarrow> 'w \<Rightarrow> error option \<times> 'w" where
  "AlcubCon_Delete E name w = (case kube_get E name w of
     (Inl e, w1) \<Rightarrow> (Some e, w1)
   | (Inr obj, w1) \<Rightarrow> RetryOnConflict DefaultRetry (kube_delete E obj) w1)"

definition AlcubCon_Update ::
    "'w env \<Rightarrow> string \<Rightarrow> CsiAlcubSpec option \<Rightarrow> CsiAlcubStatus option \<Rightarrow> 'w \<Rightarrow> error option \<times> 'w" where
  "AlcubCon_Update E name spec stat w = (case kube_get E name w of
     (Inl e, w1) \<Rightarrow> (Some e, w1)
   | (Inr obj, w1) \<Rightarrow>
       (let obj1 = (case spec of None \<Rightarrow> obj | Some sp \<Rightarrow> obj\<lparr>Spec := sp\<rparr>);
            obj2 = (case stat of None \<Rightarrow> obj1 | Some st \<Rightarrow> obj1\<lparr>Status := st\<rparr>)
        in RetryOnConflict DefaultRetry (kube_update E obj2) w1))"

text \<open>\<open>ForEach\<close> applies a callback with state \<open>'s\<close> to every listed object.\<close>

definition AlcubCon_ForEach ::
    "'w env \<Rightarrow> (CsiAlcub \<Rightarrow> 's \<times> 'w \<Rightarrow> 's \<times> 'w) \<Rightarrow> 's \<Rightarrow> 'w \<Rightarrow> error option \<times> 's \<times> 'w" where
  "AlcubCon_ForEach E fn s w = (case kube_list E w of
     (Inl e, w1) \<Rightarrow> (Some e, s, w1)
   | (Inr items, w1) \<Rightarrow> (None, fold fn items (s, w1)))"

definition validBeDelete :: "CsiAlcub \<Rightarrow> error option" where
  "validBeDelete alcub =
     (if Node (Status alcub) \<noteq> [] then Some (Errorf ''status node is not nil'' []) else None)"

definition AlcubCon_Reconcile :: "'w env \<Rightarrow> string \<Rightarrow> AlcubCon \<Rightarrow> 'w \<Rightarrow> error option \<times> AlcubCon \<times> 'w" where
  "AlcubCon_Reconcile E name al w = (case kube_get E name w of
     (Inl e, w1) \<Rightarrow> (if IsNotFound e then None else Some e, al, w1)
   | (Inr alcub, w1) \<Rightarrow>
       if DeletionTimestamp (Meta alcub) \<noteq> None then
         (if validBeDelete alcub = None then
            (None, al, snd (RetryOnConflict DefaultRetry
               (kube_update E (alcub\<lparr>Meta := (Meta alcub)\<lparr>Finalizers := []\<rparr>\<rparr>)) w1))
          else (None, al, w1))
       else
         (None,
          reverseNode (Some (Status alcub)) (snd (reverseUuid (Uuid (Spec alcub)) (Name (Meta alcub)) al)),
          w1))"

section \<open>The UUID index under the operations\<close>

lemma Create_frame [frame_simps]: "nodes (fst (snd (AlcubCon_Create E n sp al w))) = nodes al"
  using nodes_reverseUuid
  by (fastforce simp: AlcubCon_Create_def frame_simps split: option.splits prod.splits
      dest: arg_cong [where f = "\<lambda>x. nodes (snd x)"])

lemma Create_other:
  assumes "AlcubCon_Create E n (Some sp) al w = (r, al', w')" "u \<noteq> Uuid sp"
  shows "getNameByuuid u al' = getNameByuuid u al"
  using assms idx.reserve_other [OF assms(2), of n al]
  by (auto simp: AlcubCon_Create_def idx.name_of_release split: option.splits prod.splits)

lemma Create_cases:
  assumes "AlcubCon_Create E n (Some sp) al w = (r, al', w')"
  obtains (ok) "r = None" "getNameByuuid (Uuid sp) al' = n" "kube_create E (newobj n sp) w = (None, w')"
  | (taken) "r \<noteq> None" "al' = al" "w' = w" "getNameByuuid (Uuid sp) al \<noteq> n"
  | (refused) e where "r = Some (if IsAlreadyExists e then AlreadyExist (n @ '' is alerady exist!'') else e)"
      "getNameByuuid (Uuid sp) al' = []" "kube_create E (newobj n sp) w = (Some e, w')"
proof (cases "fst (reverseUuid (Uuid sp) n al)")
  case None
  then obtain al1 where rv: "reverseUuid (Uuid sp) n al = (None, al1)"
    by (metis prod.collapse)
  then have "getNameByuuid (Uuid sp) al1 = n" using idx.reserve_ok by blast
  with rv assms that(1,3) show thesis
    by (auto simp: AlcubCon_Create_def NewAlreadyExistError_def idx.name_of_release
        split: option.splits prod.splits)
next
  case (Some e)
  then obtain al1 where rv: "reverseUuid (Uuid sp) n al = (Some e, al1)"
    by (metis prod.collapse)
  then have "al1 = al \<and> getNameByuuid (Uuid sp) al \<noteq> n" using idx.reserve_err by blast
  with rv assms that(2) show thesis by (auto simp: AlcubCon_Create_def)
qed

lemma Reconcile_index:
  "getNameByuuid u al \<noteq> [] \<Longrightarrow> getNameByuuid u (fst (snd (AlcubCon_Reconcile E n al w))) = getNameByuuid u al"
  by (auto simp: AlcubCon_Reconcile_def frame_simps idx.reserve_keeps split: sum.splits prod.splits)

text \<open>After \<open>Create\<close> the index maps the volume's UUID to the resource name exactly when
  it succeeded; when the API server refused the object the UUID is free again; when the UUID
  belonged to another name nothing at all happened; and no other UUID's entry changes.\<close>

theorem Create_index:
  assumes "AlcubCon_Create E n (Some sp) al w = (r, al', w')"
  shows "(case r of
      None \<Rightarrow> getNameByuuid (Uuid sp) al' = n \<and> kube_create E (newobj n sp) w = (None, w')
    | Some _ \<Rightarrow> (al' = al \<and> w' = w \<and> getNameByuuid (Uuid sp) al \<noteq> n)
        \<or> (getNameByuuid (Uuid sp) al' = [] \<and> (\<exists>e. kube_create E (newobj n sp) w = (Some e, w'))))
    \<and> (\<forall>u. u \<noteq> Uuid sp \<longrightarrow> getNameByuuid u al' = getNameByuuid u al)"
  using assms by (rule Create_cases) (auto simp: Create_other [OF assms])

text \<open>A volume created under a name is found by its UUID from then on: whatever sequence of
  registrations by the reconciler follows, looking the UUID up reads the resource of that name.\<close>

theorem Create_then_GetByUuid:
  assumes "AlcubCon_Create E n (Some sp) al w = (None, al', w')" "n \<noteq> []" "Uuid sp \<noteq> []"
  shows "AlcubCon_GetByUuid E (Uuid sp) (fold (\<lambda>(u, m) a. snd (reverseUuid u m a)) us al') w2
       = AlcubCon_GetByName E n w2"
proof -
  have "getNameByuuid (Uuid sp) al' = n"
    using assms(1) by (rule Create_cases) auto
  then have "getNameByuuid (Uuid sp) (fold (\<lambda>(u, m) a. snd (reverseUuid u m a)) us al') = n"
    using idx.reserve_seq_keeps [of "Uuid sp" al' us] assms(2) by simp
  with assms(2,3) show ?thesis by (simp add: AlcubCon_GetByUuid_def)
qed

section \<open>The calls the operations make\<close>

lemma attempts_conflict:
  assumes "\<And>v. fst (fn v) = Some (ApiErr ReasonConflict m)"
  shows "fst (attempts (Suc n) lst fn w) = Some (ApiErr ReasonConflict m)"
proof (induction n arbitrary: w lst)
  case 0
  show ?case using assms [of w] by (cases "fn w") auto
next
  case (Suc n)
  show ?case using assms [of w] Suc.IH by (cases "fn w") auto
qed

lemma retry_update_log:
  assumes "RetryOnConflict DefaultRetry (logged ev f) (w, l) = (r, w', l')"
  obtains rs where "l' = l @ map ev rs" "rs \<noteq> []" "length rs \<le> 5"
    "\<forall>x \<in> set (butlast rs). \<exists>e. x = Some e \<and> IsConflict e"
    "last rs \<noteq> Some ErrWaitTimeout \<longrightarrow> r = last rs"
  using assms by (rule roc.retry_log_E) (auto simp: DefaultRetry_def)

text \<open>C9: Reconciling a resource never lets the API server drop a volume that is attached:
  its first call reads the object; every later call is an update that sends that object with its
  finalizers removed, the object carries a deletion timestamp and an empty status node, and there
  are at most five of them.\<close>

theorem Reconcile_finalizer_safe:
  assumes "AlcubCon_Reconcile (traced E) n al (w, []) = (r, al', w', l)"
  shows "\<exists>g. hd l = EvGet n g \<and> length l \<le> 6 \<and>
    (\<forall>ev \<in> set (tl l). \<exists>a res. g = Inr a
       \<and> ev = EvUpdate (a\<lparr>Meta := (Meta a)\<lparr>Finalizers := []\<rparr>\<rparr>) res
       \<and> DeletionTimestamp (Meta a) \<noteq> None \<and> Node (Status a) = [])"
proof -
  obtain g w1 where g: "kube_get E n w = (g, w1)" by (cases "kube_get E n w")
  show ?thesis
  proof (cases "\<exists>a. g = Inr a \<and> DeletionTimestamp (Meta a) \<noteq> None \<and> validBeDelete a = None")
    case True
    then obtain a where a: "g = Inr a" "DeletionTimestamp (Meta a) \<noteq> None" "validBeDelete a = None"
      by blast
    let ?a' = "a\<lparr>Meta := (Meta a)\<lparr>Finalizers := []\<rparr>\<rparr>"
    obtain r' where "RetryOnConflict DefaultRetry (logged (EvUpdate ?a') (kube_update E ?a'))
        (w1, [EvGet n g]) = (r', w', l)"
      using assms g a by (auto simp: AlcubCon_Reconcile_def env_defs) (metis prod.collapse)
    then obtain rs where "l = [EvGet n g] @ map (EvUpdate ?a') rs" "length rs \<le> 5"
      by (rule retry_update_log)
    with a show ?thesis by (auto simp: validBeDelete_def split: if_splits)
  next
    case False
    with assms g have "l = [EvGet n g]"
      by (auto simp: AlcubCon_Reconcile_def env_defs split: sum.splits if_splits)
    then show ?thesis by simp
  qed
qed

text \<open>An update reads the object once and then sends one and the same object, the one read
  with the given spec and status written into it and its metadata unchanged, at most five times;
  only conflicts are retried.\<close>

theorem Update_sends_one_object:
  assumes "AlcubCon_Update (traced E) n sp st (w, []) = (r, w', l)"
  shows "(\<exists>e. l = [EvGet n (Inl e)] \<and> r = Some e) \<or>
    (\<exists>a b rs. l = EvGet n (Inr a) # map (EvUpdate b) rs \<and> 1 \<le> length rs \<and> length rs \<le> 5
       \<and> Meta b = Meta a
       \<and> Spec b = (case sp of None \<Rightarrow> Spec a | Some s \<Rightarrow> s)
       \<and> Status b = (case st of None \<Rightarrow> Status a | Some s \<Rightarrow> s)
       \<and> (\<forall>x \<in> set (butlast rs). \<exists>e. x = Some e \<and> IsConflict e)
       \<and> (last rs \<noteq> Some ErrWaitTimeout \<longrightarrow> r = last rs))"
proof -
  obtain g w1 where g: "kube_get E n w = (g, w1)" by (cases "kube_get E n w")
  show ?thesis
  proof (cases g)
    case (Inl e)
    with assms g show ?thesis by (auto simp: AlcubCon_Update_def env_defs)
  next
    case (Inr a)
    define b where "b = (case st of None \<Rightarrow> (case sp of None \<Rightarrow> a | Some s \<Rightarrow> a\<lparr>Spec := s\<rparr>)
      | Some s' \<Rightarrow> (case sp of None \<Rightarrow> a | Some s \<Rightarrow> a\<lparr>Spec := s\<rparr>)\<lparr>Status := s'\<rparr>)"
    have "RetryOnConflict DefaultRetry (logged (EvUpdate b) (kube_update E b))
        (w1, [EvGet n (Inr a)]) = (r, w', l)"
      using assms g Inr by (simp add: AlcubCon_Update_def env_defs b_def Let_def)
    then obtain rs where "l = [EvGet n (Inr a)] @ map (EvUpdate b) rs" "rs \<noteq> []" "length rs \<le> 5"
      "\<forall>x \<in> set (butlast rs). \<exists>e. x = Some e \<and> IsConflict e"
      "last rs \<noteq> Some ErrWaitTimeout \<longrightarrow> r = last rs"
      by (rule retry_update_log)
    moreover have "Meta b = Meta a \<and> Spec b = (case sp of None \<Rightarrow> Spec a | Some s \<Rightarrow> s)
      \<and> Status b = (case st of None \<Rightarrow> Status a | Some s \<Rightarrow> s)"
      by (auto simp: b_def split: option.splits)
    ultimately show ?thesis by (intro disjI2 exI [of _ a] exI [of _ b] exI [of _ rs]) (auto simp: Suc_le_eq)
  qed
qed


text \<open>Retrying an update does not help against a conflict: the object is read once, before
  the loop, so when the API server answers a conflict for the version that was read, as it does for
  every stale resource version, the update fails with that conflict after five tries.\<close>

theorem Update_conflict_persists:
  assumes "kube_get E n w = (Inr a, w1)"
    and "b = a\<lparr>Status := st\<rparr>"
    and "\<And>v. fst (kube_update E b v) = Some (ApiErr ReasonConflict m)"
  shows "fst (AlcubCon_Update E n None (Some st) w) = Some (ApiErr ReasonConflict m)"
  using attempts_conflict [of "kube_update E b" m 4 None w1] assms
  by (simp add: AlcubCon_Update_def RetryOnConflict_attempts DefaultRetry_def)

section \<open>Node information is lost\<close>

text \<open>What the controller gets back about a node carries no storage address and no zone, for
  whatever was stored: the copy is made into empty slices.\<close>

theorem GetNodeInfo_empty: "GetNodeInfo n al = (if nodes al n = None then None else Some \<lparr>StoreIp = [], Zones = []\<rparr>)"
  by (auto simp: GetNodeInfo_def Nodeinfo_DeepCopy_def split: option.splits)

section \<open>Witnesses\<close>

definition demo_al :: AlcubCon where
  "demo_al = \<lparr>uuidname = [''u1'' \<mapsto> ''pvc-1''], nodes = Map.empty\<rparr>"

definition demo_deleting :: demo where
  "demo_deleting = demo1\<lparr>d_objs := [''pvc-1'' \<mapsto> demo_obj\<lparr>Meta := (Meta demo_obj)\<lparr>DeletionTimestamp := Some 1\<rparr>\<rparr>]\<rparr>"

definition conflict_env :: "demo env" where
  "conflict_env = demo_env\<lparr>kube_update := (\<lambda>x w. (Some (ApiErr ReasonConflict ''stale''), w))\<rparr>"

theorem Create_index_witness:
  "let x = AlcubCon_Create demo_env ''pvc-1'' (Some demo_spec) NewAlcubCon demo0 in
     fst x = None \<and> getNameByuuid ''u1'' (fst (snd x)) = ''pvc-1''"
  using Create_index [OF pair3 [of "AlcubCon_Create demo_env ''pvc-1'' (Some demo_spec) NewAlcubCon demo0"]]
  by (simp add: AlcubCon_Create_def reverseUuid_def NewAlcubCon_def newobj_def demo_defs
      getNameByuuid_def Let_def)

theorem Create_then_GetByUuid_witness:
  "let x = AlcubCon_Create demo_env ''pvc-1'' (Some demo_spec) NewAlcubCon demo0 in
     fst x = None \<and>
     fst (AlcubCon_GetByUuid demo_env ''u1'' (snd (reverseUuid ''u1'' ''other'' (fst (snd x)))) demo1) = Some demo_obj"
proof -
  let ?x = "AlcubCon_Create demo_env ''pvc-1'' (Some demo_spec) NewAlcubCon demo0"
  have 1: "fst ?x = None"
    by (simp add: AlcubCon_Create_def reverseUuid_def NewAlcubCon_def newobj_def demo_defs
      getNameByuuid_def Let_def)
  have 2: "?x = (None, fst (snd ?x), snd (snd ?x))"
    using 1 by (metis prod.collapse)
  from Create_then_GetByUuid [OF 2, of "[(''u1'', ''other'')]" demo1] 1 show ?thesis
    by (simp add: demo_defs AlcubCon_GetByName_def)
qed

theorem Reconcile_finalizer_safe_witness:
  "let x = AlcubCon_Reconcile (traced demo_env) ''pvc-1'' demo_al (demo_deleting, []) in
     length (snd (snd (snd x))) = 2 \<and> (\<exists>g. hd (snd (snd (snd x))) = EvGet ''pvc-1'' g)"
  using Reconcile_finalizer_safe [OF pair4
      [of "AlcubCon_Reconcile (traced demo_env) ''pvc-1'' demo_al (demo_deleting, [])"]]
  by (simp add: AlcubCon_Reconcile_def env_defs demo_deleting_def validBeDelete_def demo_defs
      RetryOnConflict_attempts DefaultRetry_def numeral_eq_Suc)

theorem Update_sends_one_object_witness:
  "let x = AlcubCon_Update (traced demo_env) ''pvc-1'' None (Some zero_status) (demo1, []) in
     fst x = None \<and> length (snd (snd x)) = 2"
  using Update_sends_one_object [OF pair3
      [of "AlcubCon_Update (traced demo_env) ''pvc-1'' None (Some zero_status) (demo1, [])"]]
  by (simp add: Let_def AlcubCon_Update_def env_defs demo_defs RetryOnConflict_attempts DefaultRetry_def
      numeral_eq_Suc)

theorem Update_conflict_persists_witness:
  "fst (AlcubCon_Update conflict_env ''pvc-1'' None (Some zero_status) demo1)
     = Some (ApiErr ReasonConflict ''stale'')"
  by (rule Update_conflict_persists [OF _ refl, of _ _ _ demo_obj demo1])
    (simp_all add: conflict_env_def demo_defs)

end
