(* ===== verification/Rbd.thy ===== *)
theory Rbd
  imports Manager "HOL-Library.Multiset"
begin

text \<open>
  \<open>pkg/rbd/rbd_util.go\<close> and \<open>pkg/rbd/rbd.go\<close>: the images. \<open>RBDUtil_*\<close> are the
  methods that run the \<open>rbd\<close>, \<open>rados\<close> and \<open>ceph\<close> commands; the deadline of a
  command is part of the outside world's answer. \<open>Rbd\<close> is the state of the provisioner (the
  cached DNS address); its methods read the storage class and its secret and parse the parameters.

  The facts: the size given to \<open>rbd create\<close> is the smallest number of MiB that holds the
  request, and a request is refused exactly when it is not positive or its rounding overflows; an
  image is removed only after a status command that showed no watcher; parsed options are well
  formed and do not depend on the order in which the parameter map is visited.
\<close>

section \<open>rbd\_util.go\<close>

definition imageWatcherStr :: string where "imageWatcherStr = ''watcher=''"
definition imageNotFound :: string where "imageNotFound = ''No such file''"
definition secretKeyName :: string where "secretKeyName = ''key''"
definition rbdImageFormat1 :: string where "rbdImageFormat1 = ''1''"
definition rbdImageFormat2 :: string where "rbdImageFormat2 = ''2''"

lemmas rbd_consts = imageWatcherStr_def imageNotFound_def secretKeyName_def rbdImageFormat1_def
  rbdImageFormat2_def

record rbdProvisionOptions =
  opt_monitors :: "string list"
  opt_pool :: string
  opt_dataPool :: string
  opt_adminID :: string
  opt_adminSecret :: string
  opt_userID :: string
  opt_userSecretName :: string
  opt_userSecretNamespace :: string
  opt_fsType :: string
  opt_imageFormat :: string
  opt_imageFeatures :: "string list"

record Volume =
  vol_Pool :: string
  vol_Image :: string

text \<open>The vendored size helper.\<close>

definition MiB :: int64 where
  "MiB = 1024 * 1024"

definition RoundUpSize :: "int64 \<Rightarrow> int64 \<Rightarrow> int64" where
  "RoundUpSize volumeSizeBytes allocationUnitBytes =
     i64_div (volumeSizeBytes + allocationUnitBytes - 1) allocationUnitBytes"

definition kernelRBDMonitorsOpt :: "string list \<Rightarrow> string" where
  "kernelRBDMonitorsOpt mons = str_Join mons '',''"

definition execCommand :: "'w env \<Rightarrow> string \<Rightarrow> string list \<Rightarrow> 'w \<Rightarrow> (string \<times> error option) \<times> 'w" where
  "execCommand E command args w = (case run_cmd E command args w of
     (o1, w1) \<Rightarrow>
       ((Out o1,
         if Deadline o1 then Some (Errorf ''rbd: Command timed out'' [])
         else map_option (\<lambda>e. Errorf ''rbd: Command exited with non-zero code: %v'' [AErr e]) (CmdErr o1)),
        w1))"

definition create_args :: "rbdProvisionOptions \<Rightarrow> string \<Rightarrow> string \<Rightarrow> string list" where
  "create_args pOpts img volSz =
     (let args = [''create'', img, ''--size'', volSz, ''--pool'', opt_pool pOpts,
                  ''--id'', opt_adminID pOpts, ''-m'', kernelRBDMonitorsOpt (opt_monitors pOpts),
                  ''--key='' @ opt_adminSecret pOpts, ''--image-format'', opt_imageFormat pOpts];
          args1 = (if opt_dataPool pOpts \<noteq> [] then args @ [''--data-pool'', opt_dataPool pOpts] else args)
      in if opt_imageFormat pOpts = rbdImageFormat2
         then args1 @ [''--image-feature'', str_Join (opt_imageFeatures pOpts) '','']
         else args1)"

definition RBDUtil_CreateImage ::
    "'w env \<Rightarrow> rbdProvisionOptions \<Rightarrow> string \<Rightarrow> int64 \<Rightarrow> 'w \<Rightarrow> (error + Volume) \<times> 'w" where
  "RBDUtil_CreateImage E pOpts img bytessize w =
     (let sz = RoundUpSize bytessize MiB in
      if sint sz \<le> 0 then
        (Inl (Errorf ''invalid volume size '%d' requested for RBD provisioner, it must greater than zero''
              [AInt (sint bytessize)]), w)
      else (case execCommand E ''rbd'' (create_args pOpts img (itoa (nat (sint sz)))) w of
          ((output, Some err), w1) \<Rightarrow>
            (Inl (Errorf ''failed to create rbd image: %v, command output: %s'' [AErr err, AStr output]), w1)
        | ((output, None), w1) \<Rightarrow> (Inr \<lparr>vol_Pool = opt_pool pOpts, vol_Image = img\<rparr>, w1)))"

definition status_args :: "rbdProvisionOptions \<Rightarrow> string \<Rightarrow> string list" where
  "status_args pOpts img =
     [''status'', img, ''--pool'', opt_pool pOpts, ''-m'', kernelRBDMonitorsOpt (opt_monitors pOpts),
      ''--id'', opt_adminID pOpts, ''--key='' @ opt_adminSecret pOpts]"

definition rm_args :: "rbdProvisionOptions \<Rightarrow> string \<Rightarrow> string list" where
  "rm_args pOpts img =
     [''rm'', img, ''--pool'', opt_pool pOpts, ''--id'', opt_adminID pOpts,
      ''-m'', kernelRBDMonitorsOpt (opt_monitors pOpts), ''--key='' @ opt_adminSecret pOpts]"

definition rbdStatus :: "'w env \<Rightarrow> string \<Rightarrow> rbdProvisionOptions \<Rightarrow> 'w \<Rightarrow> (bool \<times> error option) \<times> 'w" where
  "rbdStatus E img pOpts w = (case execCommand E ''rbd'' (status_args pOpts img) w of
     ((output, Some err), w1) \<Rightarrow>
       if str_Contains output imageNotFound then ((True, Some ErrHadDeleted), w1)
       else ((False, Some err), w1)
   | ((output, None), w1) \<Rightarrow>
       if str_Contains output imageWatcherStr then ((True, None), w1) else ((False, None), w1))"

definition RBDUtil_DeleteImage :: "'w env \<Rightarrow> rbdProvisionOptions \<Rightarrow> string \<Rightarrow> 'w \<Rightarrow> error option \<times> 'w" where
  "RBDUtil_DeleteImage E pOpts img w = (case rbdStatus E img pOpts w of
     ((found, err), w1) \<Rightarrow>
       if err = Some ErrHadDeleted then (None, w1)
       else if err \<noteq> None then (err, w1)
       else if found then (Some (Errorf ''rbd %s is still being used'' [AStr img]), w1)
       else (case execCommand E ''rbd'' (rm_args pOpts img) w1 of ((_, err'), w2) \<Rightarrow> (err', w2)))"

definition RBDUtil_FetchUrl :: "'w env \<Rightarrow> string \<Rightarrow> string \<Rightarrow> 'w \<Rightarrow> (string \<times> error option) \<times> 'w" where
  "RBDUtil_FetchUrl E pl attr w =
     (if pl = [] \<or> attr = [] then (([], Some (Errorf ''pool or attr not define'' [])), w)
      else execCommand E ''rados'' [''-p'', pl, ''getxattr'', attr, ''URL''] w)"

definition BlackList :: "'w env \<Rightarrow> string \<Rightarrow> string \<Rightarrow> bool \<Rightarrow> 'w \<Rightarrow> error option \<times> 'w" where
  "BlackList E entityAddr ident add w =
     (if entityAddr = [] \<or> ident = [] then (Some (Errorf ''pool or attr not define'' []), w)
      else (case execCommand E ''ceph''
              [''--id'', ident, ''osd'', ''blacklist'', if add then ''add'' else ''rm'', entityAddr] w of
          ((_, err), w1) \<Rightarrow> (err, w1)))"

text \<open>The package functions use the default utility.\<close>

definition FetchUrl :: "'w env \<Rightarrow> string \<Rightarrow> string \<Rightarrow> 'w \<Rightarrow> (string \<times> error option) \<times> 'w" where
  "FetchUrl E pl attr w = RBDUtil_FetchUrl E pl attr w"

definition AddBlackList :: "'w env \<Rightarrow> IP \<Rightarrow> string \<Rightarrow> 'w \<Rightarrow> error option \<times> 'w" where
  "AddBlackList E storageip ident w = BlackList E (IP_String storageip @ '':0/0'') ident True w"

definition RmBlackList :: "'w env \<Rightarrow> IP \<Rightarrow> string \<Rightarrow> 'w \<Rightarrow> error option \<times> 'w" where
  "RmBlackList E storageip ident w = BlackList E (IP_String storageip @ '':0/0'') ident False w"

section \<open>rbd.go\<close>

text \<open>\<open>client\<close> says whether the Kubernetes client is set.\<close>

record Rbd =
  dnsip :: string
  rbd_client :: bool

definition NewRbd :: Rbd where
  "NewRbd = \<lparr>dnsip = [], rbd_client = True\<rparr>"

text \<open>The vendored host and port helpers.\<close>

definition SplitHostPort :: "string \<Rightarrow> string \<times> string" where
  "SplitHostPort hostport = (case net_SplitHostPort hostport of
     None \<Rightarrow> (hostport, []) | Some hp \<Rightarrow> hp)"

definition JoinHostPort :: "string \<Rightarrow> string \<Rightarrow> string" where
  "JoinHostPort host port = (if port \<noteq> [] then net_JoinHostPort host port else host)"

text \<open>The variables of \<open>parseParameters\<close> while its loop runs.\<close>

record parse_st =
  ps_opts :: rbdProvisionOptions
  adminSecretName :: string
  adminSecretNamespace :: string
  ps_dnsip :: string

fun monitors_loop :: "'w env \<Rightarrow> string \<Rightarrow> string list \<Rightarrow> string list \<Rightarrow> 'w \<Rightarrow> string list \<times> 'w" where
  "monitors_loop E dns [] acc w = (acc, w)"
| "monitors_loop E dns (m # ms) acc w =
     (let (mhost, mport) = SplitHostPort m in
      if dns \<noteq> [] \<and> ParseIP mhost = None then
        (case lookup_host E mhost dns w of
           (Inr lookup, w1) \<Rightarrow> monitors_loop E dns ms (acc @ map (\<lambda>a. JoinHostPort a mport) lookup) w1
         | (Inl _, w1) \<Rightarrow> monitors_loop E dns ms (acc @ [JoinHostPort mhost mport]) w1)
      else monitors_loop E dns ms (acc @ [JoinHostPort mhost mport]) w)"

definition param_monitors :: "'w env \<Rightarrow> string \<Rightarrow> parse_st \<Rightarrow> 'w \<Rightarrow> error option \<times> parse_st \<times> 'w" where
  "param_monitors E v st w =
     (let (dns, w1) = (if ps_dnsip st = [] then find_dns E w else (ps_dnsip st, w));
          (mons, w2) = monitors_loop E dns (str_split (CHR '','') v) (opt_monitors (ps_opts st)) w1;
          st1 = st\<lparr>ps_dnsip := dns, ps_opts := (ps_opts st)\<lparr>opt_monitors := mons\<rparr>\<rparr>
      in (if mons = [] then Some (Errorf ''missing Ceph monitors'' []) else None, st1, w2))"

fun features_loop :: "string list \<Rightarrow> string list \<Rightarrow> error + string list" where
  "features_loop [] acc = Inr acc"
| "features_loop (f # fs) acc =
     (if f \<noteq> ''layering'' then Inl (Errorf ''invalid feature %q, supported features are: %v'' [AStr f])
      else features_loop fs (acc @ [f]))"

definition param_step :: "'w env \<Rightarrow> string \<times> string \<Rightarrow> parse_st \<Rightarrow> 'w \<Rightarrow> error option \<times> parse_st \<times> 'w" where
  "param_step E kv st w =
     (let (k, v) = kv; lk = ToLower k; o1 = ps_opts st in
      if lk = ''monitors'' then param_monitors E v st w
      else if lk = ''adminid'' then
        (if v = [] then (Some (Errorf ''missing Ceph adminid'' []), st, w)
         else (None, st\<lparr>ps_opts := o1\<lparr>opt_adminID := v\<rparr>\<rparr>, w))
      else if lk = ''adminsecretname'' then (None, st\<lparr>adminSecretName := v\<rparr>, w)
      else if lk = ''adminsecretnamespace'' then (None, st\<lparr>adminSecretNamespace := v\<rparr>, w)
      else if lk = ''userid'' then (None, st\<lparr>ps_opts := o1\<lparr>opt_userID := v\<rparr>\<rparr>, w)
      else if lk = ''pool'' then
        (if v = [] then (Some (Errorf ''missing Ceph pool'' []), st, w)
         else (None, st\<lparr>ps_opts := o1\<lparr>opt_pool := v\<rparr>\<rparr>, w))
      else if lk = ''datapool'' then (None, st\<lparr>ps_opts := o1\<lparr>opt_dataPool := v\<rparr>\<rparr>, w)
      else if lk = ''usersecretname'' then
        (if v = [] then (Some (Errorf ''missing user secret name'' []), st, w)
         else (None, st\<lparr>ps_opts := o1\<lparr>opt_userSecretName := v\<rparr>\<rparr>, w))
      else if lk = ''usersecretnamespace'' then (None, st\<lparr>ps_opts := o1\<lparr>opt_userSecretNamespace := v\<rparr>\<rparr>, w)
      else if lk = ''imageformat'' then
        (if v \<noteq> rbdImageFormat1 \<and> v \<noteq> rbdImageFormat2
         then (Some (Errorf ''invalid ceph imageformat %s, expecting %s or %s''
                 [AStr v, AStr rbdImageFormat1, AStr rbdImageFormat2]), st, w)
         else (None, st\<lparr>ps_opts := o1\<lparr>opt_imageFormat := v\<rparr>\<rparr>, w))
      else if lk = ''imagefeatures'' then
        (case features_loop (str_split (CHR '','') v) (opt_imageFeatures o1) of
           Inl e \<Rightarrow> (Some e, st, w)
         | Inr fs \<Rightarrow> (None, st\<lparr>ps_opts := o1\<lparr>opt_imageFeatures := fs\<rparr>\<rparr>, w))
      else if lk = ''fstype'' then (None, st\<lparr>ps_opts := o1\<lparr>opt_fsType := v\<rparr>\<rparr>, w)
      else (Some (Errorf ''invalid option %q'' [AStr k]), st, w))"

fun parse_loop :: "'w env \<Rightarrow> (string \<times> string) list \<Rightarrow> parse_st \<Rightarrow> 'w \<Rightarrow> error option \<times> parse_st \<times> 'w" where
  "parse_loop E [] st w = (None, st, w)"
| "parse_loop E (kv # kvs) st w = (case param_step E kv st w of
     (Some e, st1, w1) \<Rightarrow> (Some e, st1, w1)
   | (None, st1, w1) \<Rightarrow> parse_loop E kvs st1 w1)"

fun secret_loop :: "string \<Rightarrow> (string \<times> string) list \<Rightarrow> string" where
  "secret_loop secret [] = secret"
| "secret_loop secret ((k, v) # kvs) = (if k = secretKeyName then v else secret_loop v kvs)"

definition parsePVSecret :: "'w env \<Rightarrow> Rbd \<Rightarrow> string \<Rightarrow> string \<Rightarrow> 'w \<Rightarrow> (error + string) \<times> 'w" where
  "parsePVSecret E r namespace secretName w =
     (if \<not> rbd_client r then (Inl (Errorf ''Cannot get kube client'' []), w)
      else (case secret_get E namespace secretName w of
          (Inl e, w1) \<Rightarrow> (Inl e, w1)
        | (Inr dat, w1) \<Rightarrow> (Inr (secret_loop [] (gm_items dat)), w1)))"

definition parse_init :: "Rbd \<Rightarrow> parse_st" where
  "parse_init r =
     \<lparr>ps_opts = \<lparr>opt_monitors = [], opt_pool = ''rbd'', opt_dataPool = [], opt_adminID = ''admin'',
        opt_adminSecret = [], opt_userID = [], opt_userSecretName = [], opt_userSecretNamespace = [],
        opt_fsType = [], opt_imageFormat = rbdImageFormat2, opt_imageFeatures = []\<rparr>,
      adminSecretName = [], adminSecretNamespace = ''default'', ps_dnsip = dnsip r\<rparr>"

definition parse_finish ::
    "'w env \<Rightarrow> Rbd \<Rightarrow> error option \<times> parse_st \<times> 'w \<Rightarrow> (error + rbdProvisionOptions) \<times> Rbd \<times> 'w" where
  "parse_finish E r x = (case x of (err, st, w) \<Rightarrow>
     let r1 = r\<lparr>dnsip := ps_dnsip st\<rparr> in
     case err of
       Some e \<Rightarrow> (Inl e, r1, w)
     | None \<Rightarrow>
         if adminSecretName st = [] then (Inl (Errorf ''missing Ceph admin secret name'' []), r1, w)
         else (case parsePVSecret E r1 (adminSecretNamespace st) (adminSecretName st) w of
             (Inl e, w1) \<Rightarrow>
               (Inl (Errorf ''failed to get admin secret from [%q/%q]: %v''
                  [AStr (adminSecretNamespace st), AStr (adminSecretName st), AErr e]), r1, w1)
           | (Inr secret, w1) \<Rightarrow>
               (let o1 = (ps_opts st)\<lparr>opt_adminSecret := secret\<rparr> in
                (Inr (if opt_userID o1 = [] then o1\<lparr>opt_userID := opt_adminID o1\<rparr> else o1), r1, w1))))"

definition parseParameters ::
    "'w env \<Rightarrow> Rbd \<Rightarrow> (string \<times> string) list \<Rightarrow> 'w \<Rightarrow> (error + rbdProvisionOptions) \<times> Rbd \<times> 'w" where
  "parseParameters E r parameters w = parse_finish E r (parse_loop E parameters (parse_init r) w)"

text \<open>Reading the storage class and its parameters, as both image operations begin.\<close>

definition class_options :: "'w env \<Rightarrow> Rbd \<Rightarrow> string \<Rightarrow> 'w \<Rightarrow> (error + rbdProvisionOptions) \<times> Rbd \<times> 'w" where
  "class_options E r scname w =
     (if \<not> rbd_client r then (Inl (GoPanic ''nil client''), r, w)
      else (case sc_get E scname w of
          (Inl e, w1) \<Rightarrow> (Inl e, r, w1)
        | (Inr params, w1) \<Rightarrow> parseParameters E r (gm_items params) w1))"

definition Rbd_CreateImage ::
    "'w env \<Rightarrow> Rbd \<Rightarrow> string \<Rightarrow> string \<Rightarrow> int64 \<Rightarrow> 'w \<Rightarrow> (error + Volume) \<times> Rbd \<times> 'w" where
  "Rbd_CreateImage E r scname img bytesize w = (case class_options E r scname w of
     (Inl e, r1, w1) \<Rightarrow> (Inl e, r1, w1)
   | (Inr rbdoption, r1, w1) \<Rightarrow>
       (case RBDUtil_CreateImage E rbdoption img bytesize w1 of (res, w2) \<Rightarrow> (res, r1, w2)))"

definition Rbd_DeleteImage :: "'w env \<Rightarrow> Rbd \<Rightarrow> string \<Rightarrow> string \<Rightarrow> 'w \<Rightarrow> error option \<times> Rbd \<times> 'w" where
  "Rbd_DeleteImage E r scname img w = (case class_options E r scname w of
     (Inl e, r1, w1) \<Rightarrow> (Some e, r1, w1)
   | (Inr rbdoption, r1, w1) \<Rightarrow>
       (case RBDUtil_DeleteImage E rbdoption img w1 of (err, w2) \<Rightarrow> (err, r1, w2)))"

section \<open>Sizes\<close>

lemma sint_i64_add: "sint (a + b :: int64) = (sint a + sint b + 2^63) mod 2^64 - 2^63"
  by (simp add: sint_word_ariths signed_take_bit_eq_take_bit_shift take_bit_eq_mod)

lemma sint_i64_range: "- (2^63) \<le> sint (a::int64)" "sint (a::int64) < 2^63"
  using sint_range_size [of a] by (simp_all add: word_size)

lemma sint_i64_of_int: "- (2^63) \<le> k \<Longrightarrow> k < 2^63 \<Longrightarrow> sint (word_of_int k :: int64) = k"
  by (simp add: sint_sbintrunc' signed_take_bit_int_eq_self)

lemma round_sum:
  "sint (b + MiB - 1) = (if sint b \<le> 2^63 - 2^20 then sint b + (2^20 - 1) else sint b + (2^20 - 1) - 2^64)"
proof -
  have 1: "b + MiB - 1 = b + 1048575" by (simp add: MiB_def)
  have 2: "sint (b + 1048575) = (sint b + 1048575 + 2^63) mod 2^64 - 2^63"
    using sint_i64_add [of b 1048575] by simp
  have 3: "x mod 2^64 = x - 2^64" if "2^64 \<le> x" "x < 2 * 2^64" for x :: int
    using that mod_pos_geq [of "2^64" x] mod_pos_pos_trivial [of "x - 2^64" "2^64"] by simp
  show ?thesis using sint_i64_range [of b] 2 3 [of "sint b + 1048575 + 2^63"] unfolding 1 by auto
qed

lemma sint_RoundUpSize: "sint (RoundUpSize b MiB) = sint (b + MiB - 1) sdiv 2^20"
proof -
  let ?x = "sint (b + MiB - 1)"
  have m: "sint MiB = 2^20" by (simp add: MiB_def)
  have "\<bar>?x\<bar> div 2^20 \<le> 2^43"
    using sint_i64_range [of "b + MiB - 1"] by auto
  then have "\<bar>?x sdiv 2^20\<bar> \<le> 2^43"
    by (auto simp: signed_divide_int_def abs_mult abs_sgn_eq)
  then have "sint (word_of_int (?x sdiv 2^20) :: int64) = ?x sdiv 2^20"
    by (intro sint_i64_of_int) auto
  then show ?thesis by (simp add: RoundUpSize_def i64_div_def m)
qed

lemma sdiv_pos: "0 \<le> x \<Longrightarrow> (x::int) sdiv 2^20 = x div 2^20"
  by (cases "x = 0") (auto simp: signed_divide_int_def sgn_if)

lemma sdiv_neg: "x \<le> 0 \<Longrightarrow> (x::int) sdiv 2^20 \<le> 0"
  by (auto simp: signed_divide_int_def sgn_if)

lemma RoundUpSize_exact:
  assumes "0 < sint b" "sint b \<le> 2^63 - 2^20"
  shows "sint (RoundUpSize b MiB) = (sint b + (2^20 - 1)) div 2^20"
proof -
  have "sint (b + MiB - 1) = sint b + (2^20 - 1)" using assms(2) round_sum [of b] by simp
  then show ?thesis using assms(1) sdiv_pos [of "sint b + (2^20 - 1)"] by (simp add: sint_RoundUpSize)
qed

lemma RoundUpSize_refused:
  assumes "sint b \<le> 0 \<or> 2^63 - 2^20 < sint b"
  shows "sint (RoundUpSize b MiB) \<le> 0"
proof (cases "sint (b + MiB - 1) \<le> 0")
  case True
  then show ?thesis using sdiv_neg [OF True] by (simp add: sint_RoundUpSize)
next
  case False
  then have "sint (b + MiB - 1) < 2^20"
    using assms round_sum [of b] sint_i64_range [of b] by (auto split: if_splits)
  with False show ?thesis using sdiv_pos [of "sint (b + MiB - 1)"] by (simp add: sint_RoundUpSize)
qed

lemma RoundUpSize_tight:
  assumes "0 < sint b" "sint b \<le> 2^63 - 2^20" "z = sint (RoundUpSize b MiB)"
  shows "0 < z \<and> sint b \<le> z * 2^20 \<and> (z - 1) * 2^20 < sint b"
  using assms RoundUpSize_exact [OF assms(1,2)] by auto

section \<open>The commands\<close>

definition cmd_ok :: "cmd_out \<Rightarrow> bool" where
  "cmd_ok o1 \<longleftrightarrow> \<not> Deadline o1 \<and> CmdErr o1 = None"

lemma execCommand_ok: "snd (fst (execCommand E c as w)) = None \<longleftrightarrow> cmd_ok (fst (run_cmd E c as w))"
  by (auto simp: execCommand_def cmd_ok_def split: prod.splits)

text \<open>C28: Creating an image runs exactly one \<open>rbd create\<close> with the smallest number of MiB
  that holds the requested bytes, and answers with the pool and image exactly when the command
  succeeded; for a request that is not positive, or so large that its rounding overflows 64 bits, it
  fails without running anything.\<close>

theorem CreateImage_size:
  assumes "RBDUtil_CreateImage (traced E) opts img b (w, []) = (r, w', l)"
  shows "if 0 < sint b \<and> sint b \<le> 2^63 - 2^20 then
      (\<exists>z o1. l = [EvCmd ''rbd'' (create_args opts img (itoa (nat z))) o1]
        \<and> 0 < z \<and> sint b \<le> z * 2^20 \<and> (z - 1) * 2^20 < sint b
        \<and> (case r of Inl _ \<Rightarrow> \<not> cmd_ok o1
           | Inr v \<Rightarrow> cmd_ok o1 \<and> v = \<lparr>vol_Pool = opt_pool opts, vol_Image = img\<rparr>))
    else l = [] \<and> w' = w \<and> (\<exists>e. r = Inl e)"
proof (cases "0 < sint b \<and> sint b \<le> 2^63 - 2^20")
  case True
  define z where "z = sint (RoundUpSize b MiB)"
  have z: "0 < z \<and> sint b \<le> z * 2^20 \<and> (z - 1) * 2^20 < sint b"
    using True RoundUpSize_tight [OF _ _ z_def] by blast
  have "\<exists>o1. l = [EvCmd ''rbd'' (create_args opts img (itoa (nat z))) o1]
      \<and> (case r of Inl _ \<Rightarrow> \<not> cmd_ok o1
         | Inr v \<Rightarrow> cmd_ok o1 \<and> v = \<lparr>vol_Pool = opt_pool opts, vol_Image = img\<rparr>)"
    using assms z by (auto simp: RBDUtil_CreateImage_def execCommand_def env_defs z_def [symmetric]
        cmd_ok_def split: prod.splits option.splits if_splits)
  with z True show ?thesis by auto
next
  case False
  then have "sint (RoundUpSize b MiB) \<le> 0" using RoundUpSize_refused [of b] by linarith
  with assms False show ?thesis by (auto simp: RBDUtil_CreateImage_def)
qed

text \<open>C29: An image is removed only after a status command that succeeded and listed no
  watcher, and then with exactly one \<open>rbd rm\<close> whose outcome is the outcome of the
  operation; the only other success is an image that no longer exists.\<close>

theorem DeleteImage_safe:
  assumes "RBDUtil_DeleteImage (traced E) opts img (w, []) = (r, w', l)"
  shows "\<exists>o1 ls. l = EvCmd ''rbd'' (status_args opts img) o1 # ls
     \<and> (ls \<noteq> [] \<longrightarrow> cmd_ok o1 \<and> \<not> str_Contains (Out o1) imageWatcherStr
          \<and> (\<exists>o2. ls = [EvCmd ''rbd'' (rm_args opts img) o2] \<and> (r = None \<longleftrightarrow> cmd_ok o2)))
     \<and> (ls = [] \<and> r = None \<longrightarrow> \<not> cmd_ok o1 \<and> str_Contains (Out o1) imageNotFound)"
proof -
  obtain o1 w1 where o1: "run_cmd E ''rbd'' (status_args opts img) w = (o1, w1)"
    by (cases "run_cmd E ''rbd'' (status_args opts img) w")
  obtain o2 w2 where o2: "run_cmd E ''rbd'' (rm_args opts img) w1 = (o2, w2)"
    by (cases "run_cmd E ''rbd'' (rm_args opts img) w1")
  show ?thesis
    using assms o1 o2
    by (auto simp: RBDUtil_DeleteImage_def rbdStatus_def execCommand_def env_defs cmd_ok_def
        split: option.splits if_splits)
qed

section \<open>The parameters do not depend on their order\<close>

definition low :: "(string \<times> string) list \<Rightarrow> (string \<times> string) list" where
  "low ps = map (\<lambda>(k, v). (ToLower k, v)) ps"

lemma low_simps [simp]: "low [] = []" "low (kv # ps) = (ToLower (fst kv), snd kv) # low ps"
  by (auto simp: low_def split: prod.splits)

lemma features_loop_eq:
  "features_loop xs acc = (if \<forall>x \<in> set xs. x = ''layering'' then Inr (acc @ xs)
     else Inl (Errorf ''invalid feature %q, supported features are: %v'' [AStr (hd (filter (\<lambda>x. x \<noteq> ''layering'') xs))]))"
  by (induction xs arbitrary: acc) auto

text \<open>What one monitors parameter makes of the monitors, the DNS address and the world.\<close>

definition mon_result :: "'w env \<Rightarrow> string \<Rightarrow> string list \<times> string \<times> 'w \<Rightarrow> string list \<times> string \<times> 'w" where
  "mon_result E v = (\<lambda>(ms, d, w).
     let (dns, w1) = (if d = [] then find_dns E w else (d, w));
         (mons, w2) = monitors_loop E dns (str_split (CHR '','') v) ms w1
     in (mons, dns, w2))"

lemma param_monitors_result:
  "param_monitors E v st w =
     (let (mons, dns, w2) = mon_result E v (opt_monitors (ps_opts st), ps_dnsip st, w)
      in (if mons = [] then Some (Errorf ''missing Ceph monitors'' []) else None,
          st\<lparr>ps_dnsip := dns, ps_opts := (ps_opts st)\<lparr>opt_monitors := mons\<rparr>\<rparr>, w2))"
  by (simp add: param_monitors_def mon_result_def Let_def split: prod.splits)

text \<open>Which parameters other than the monitors are accepted.\<close>

definition free_key :: "string \<Rightarrow> bool" where
  "free_key k \<longleftrightarrow> k \<in> {''adminsecretname'', ''adminsecretnamespace'', ''userid'', ''datapool'',
     ''usersecretnamespace'', ''fstype''}"

definition valid_param :: "string \<Rightarrow> string \<Rightarrow> bool" where
  "valid_param k v \<longleftrightarrow> free_key k
     \<or> (k \<in> {''adminid'', ''pool'', ''usersecretname''} \<and> v \<noteq> [])
     \<or> (k = ''imageformat'' \<and> (v = rbdImageFormat1 \<or> v = rbdImageFormat2))
     \<or> (k = ''imagefeatures'' \<and> (\<forall>f \<in> set (str_split (CHR '','') v). f = ''layering''))"

lemma param_step_ok_iff:
  "ToLower (fst kv) \<noteq> ''monitors'' \<Longrightarrow>
   fst (param_step E kv st w) = None \<longleftrightarrow> valid_param (ToLower (fst kv)) (snd kv)"
proof (cases "ToLower (fst kv) \<in> {''adminid'', ''adminsecretname'', ''adminsecretnamespace'',
    ''userid'', ''pool'', ''datapool'', ''usersecretname'', ''usersecretnamespace'', ''imageformat'',
    ''imagefeatures'', ''fstype''}")
  case True
  then show ?thesis
    by (elim insertE) (simp_all add: param_step_def valid_param_def free_key_def features_loop_eq
        Let_def case_prod_beta)
next
  case False
  moreover assume "ToLower (fst kv) \<noteq> ''monitors''"
  ultimately show ?thesis
    by (simp add: param_step_def valid_param_def free_key_def Let_def case_prod_beta)
qed

lemma parse_loop_field:
  assumes step: "\<And>kv st w st' w'. param_step E kv st w = (None, st', w') \<Longrightarrow>
      F st' w' = (if ToLower (fst kv) = K then G (snd kv) (F st w) else F st w)"
  shows "parse_loop E ps st w = (None, st', w') \<Longrightarrow> distinct (map fst (low ps)) \<Longrightarrow>
    F st' w' = (case map_of (low ps) K of None \<Rightarrow> F st w | Some v \<Rightarrow> G v (F st w))"
proof (induction ps arbitrary: st w)
  case Nil
  then show ?case by simp
next
  case (Cons kv ps)
  from Cons.prems(1) obtain st1 w1 where
    s: "param_step E kv st w = (None, st1, w1)" and r: "parse_loop E ps st1 w1 = (None, st', w')"
    by (auto split: prod.splits option.splits)
  have n: "ToLower (fst kv) = K \<Longrightarrow> map_of (low ps) K = None"
    using Cons.prems(2) by (auto simp: map_of_eq_None_iff)
  show ?case
    using Cons.IH [OF r] Cons.prems(2) step [OF s] n by (auto split: option.splits)
qed


lemma step_state:
  assumes "param_step E kv st w = (None, st', w')"
  shows "adminSecretName st' = (if ToLower (fst kv) = ''adminsecretname'' then snd kv else adminSecretName st)"
    and "adminSecretNamespace st' = (if ToLower (fst kv) = ''adminsecretnamespace'' then snd kv else adminSecretNamespace st)"
    and "opt_adminID (ps_opts st') = (if ToLower (fst kv) = ''adminid'' then snd kv else opt_adminID (ps_opts st))"
    and "opt_userID (ps_opts st') = (if ToLower (fst kv) = ''userid'' then snd kv else opt_userID (ps_opts st))"
    and "opt_pool (ps_opts st') = (if ToLower (fst kv) = ''pool'' then snd kv else opt_pool (ps_opts st))"
    and "opt_dataPool (ps_opts st') = (if ToLower (fst kv) = ''datapool'' then snd kv else opt_dataPool (ps_opts st))"
    and "opt_userSecretName (ps_opts st') = (if ToLower (fst kv) = ''usersecretname'' then snd kv else opt_userSecretName (ps_opts st))"
    and "opt_userSecretNamespace (ps_opts st') =
      (if ToLower (fst kv) = ''usersecretnamespace'' then snd kv else opt_userSecretNamespace (ps_opts st))"
    and "opt_imageFormat (ps_opts st') = (if ToLower (fst kv) = ''imageformat'' then snd kv else opt_imageFormat (ps_opts st))"
    and "opt_imageFeatures (ps_opts st') =
      (if ToLower (fst kv) = ''imagefeatures'' then opt_imageFeatures (ps_opts st) @ str_split (CHR '','') (snd kv)
       else opt_imageFeatures (ps_opts st))"
    and "opt_fsType (ps_opts st') = (if ToLower (fst kv) = ''fstype'' then snd kv else opt_fsType (ps_opts st))"
    and "opt_adminSecret (ps_opts st') = opt_adminSecret (ps_opts st)"
    and "(opt_monitors (ps_opts st'), ps_dnsip st', w') =
      (if ToLower (fst kv) = ''monitors'' then mon_result E (snd kv) (opt_monitors (ps_opts st), ps_dnsip st, w)
       else (opt_monitors (ps_opts st), ps_dnsip st, w))"
  using assms
  by (auto simp: param_step_def Let_def param_monitors_result features_loop_eq
      split: if_splits prod.splits sum.splits)

definition pick :: "(string \<rightharpoonup> string) \<Rightarrow> string \<Rightarrow> string \<Rightarrow> string" where
  "pick m k d = (case m k of None \<Rightarrow> d | Some v \<Rightarrow> v)"

text \<open>The whole loop, read off the parameters by their lower-case keys: the reference the loop
  is compared with.\<close>

definition parsed :: "'w env \<Rightarrow> (string \<rightharpoonup> string) \<Rightarrow> parse_st \<Rightarrow> 'w \<Rightarrow> parse_st \<times> 'w" where
  "parsed E m st w =
     (let o1 = ps_opts st;
          (mons, dns, w') = (case m ''monitors'' of
              None \<Rightarrow> (opt_monitors o1, ps_dnsip st, w)
            | Some v \<Rightarrow> mon_result E v (opt_monitors o1, ps_dnsip st, w))
      in (\<lparr>ps_opts = \<lparr>opt_monitors = mons,
             opt_pool = pick m ''pool'' (opt_pool o1),
             opt_dataPool = pick m ''datapool'' (opt_dataPool o1),
             opt_adminID = pick m ''adminid'' (opt_adminID o1),
             opt_adminSecret = opt_adminSecret o1,
             opt_userID = pick m ''userid'' (opt_userID o1),
             opt_userSecretName = pick m ''usersecretname'' (opt_userSecretName o1),
             opt_userSecretNamespace = pick m ''usersecretnamespace'' (opt_userSecretNamespace o1),
             opt_fsType = pick m ''fstype'' (opt_fsType o1),
             opt_imageFormat = pick m ''imageformat'' (opt_imageFormat o1),
             opt_imageFeatures = opt_imageFeatures o1 @
               (case m ''imagefeatures'' of None \<Rightarrow> [] | Some v \<Rightarrow> str_split (CHR '','') v)\<rparr>,
           adminSecretName = pick m ''adminsecretname'' (adminSecretName st),
           adminSecretNamespace = pick m ''adminsecretnamespace'' (adminSecretNamespace st),
           ps_dnsip = dns\<rparr>, w'))"

lemma parse_loop_pick:
  assumes "\<And>kv st w st' w'. param_step E kv st w = (None, st', w') \<Longrightarrow>
      F st' = (if ToLower (fst kv) = K then snd kv else F st)"
    and "parse_loop E ps st w = (None, st', w')" "distinct (map fst (low ps))"
  shows "F st' = pick (map_of (low ps)) K (F st)"
  using parse_loop_field [where F = "\<lambda>s u. F s" and G = "\<lambda>v _. v", OF assms]
  by (simp add: pick_def)

lemma parse_loop_parsed:
  assumes l: "parse_loop E ps st w = (None, st', w')" and d: "distinct (map fst (low ps))"
  shows "(st', w') = parsed E (map_of (low ps)) st w"
proof -
  let ?m = "map_of (low ps)"
  have mons: "(opt_monitors (ps_opts st'), ps_dnsip st', w') = (case ?m ''monitors'' of
      None \<Rightarrow> (opt_monitors (ps_opts st), ps_dnsip st, w)
    | Some v \<Rightarrow> mon_result E v (opt_monitors (ps_opts st), ps_dnsip st, w))"
    by (rule parse_loop_field [where F = "\<lambda>s u. (opt_monitors (ps_opts s), ps_dnsip s, u)", OF _ l d])
      (erule step_state(13))
  have "opt_imageFeatures (ps_opts st') = (case ?m ''imagefeatures'' of
      None \<Rightarrow> opt_imageFeatures (ps_opts st) | Some v \<Rightarrow> opt_imageFeatures (ps_opts st) @ str_split (CHR '','') v)"
    by (rule parse_loop_field [where F = "\<lambda>s u. opt_imageFeatures (ps_opts s)"
          and G = "\<lambda>v fs. fs @ str_split (CHR '','') v", OF _ l d]) (erule step_state(10))
  then have feat: "opt_imageFeatures (ps_opts st') = opt_imageFeatures (ps_opts st) @
      (case ?m ''imagefeatures'' of None \<Rightarrow> [] | Some v \<Rightarrow> str_split (CHR '','') v)"
    by (simp split: option.splits)
  have "opt_adminSecret (ps_opts st') = (case ?m ''pool'' of
      None \<Rightarrow> opt_adminSecret (ps_opts st) | Some v \<Rightarrow> opt_adminSecret (ps_opts st))"
    by (rule parse_loop_field [where F = "\<lambda>s u. opt_adminSecret (ps_opts s)" and G = "\<lambda>v x. x", OF _ l d])
      (simp add: step_state(12))
  then have secr: "opt_adminSecret (ps_opts st') = opt_adminSecret (ps_opts st)"
    by (simp split: option.splits)
  have p1: "adminSecretName st' = pick ?m ''adminsecretname'' (adminSecretName st)"
    by (rule parse_loop_pick [OF _ l d]) (erule step_state(1))
  have p2: "adminSecretNamespace st' = pick ?m ''adminsecretnamespace'' (adminSecretNamespace st)"
    by (rule parse_loop_pick [OF _ l d]) (erule step_state(2))
  have p3: "opt_adminID (ps_opts st') = pick ?m ''adminid'' (opt_adminID (ps_opts st))"
    by (rule parse_loop_pick [where F = "\<lambda>s. opt_adminID (ps_opts s)", OF _ l d]) (erule step_state(3))
  have p4: "opt_userID (ps_opts st') = pick ?m ''userid'' (opt_userID (ps_opts st))"
    by (rule parse_loop_pick [where F = "\<lambda>s. opt_userID (ps_opts s)", OF _ l d]) (erule step_state(4))
  have p5: "opt_pool (ps_opts st') = pick ?m ''pool'' (opt_pool (ps_opts st))"
    by (rule parse_loop_pick [where F = "\<lambda>s. opt_pool (ps_opts s)", OF _ l d]) (erule step_state(5))
  have p6: "opt_dataPool (ps_opts st') = pick ?m ''datapool'' (opt_dataPool (ps_opts st))"
    by (rule parse_loop_pick [where F = "\<lambda>s. opt_dataPool (ps_opts s)", OF _ l d]) (erule step_state(6))
  have p7: "opt_userSecretName (ps_opts st') = pick ?m ''usersecretname'' (opt_userSecretName (ps_opts st))"
    by (rule parse_loop_pick [where F = "\<lambda>s. opt_userSecretName (ps_opts s)", OF _ l d]) (erule step_state(7))
  have p8: "opt_userSecretNamespace (ps_opts st') = pick ?m ''usersecretnamespace'' (opt_userSecretNamespace (ps_opts st))"
    by (rule parse_loop_pick [where F = "\<lambda>s. opt_userSecretNamespace (ps_opts s)", OF _ l d]) (erule step_state(8))
  have p9: "opt_imageFormat (ps_opts st') = pick ?m ''imageformat'' (opt_imageFormat (ps_opts st))"
    by (rule parse_loop_pick [where F = "\<lambda>s. opt_imageFormat (ps_opts s)", OF _ l d]) (erule step_state(9))
  have p11: "opt_fsType (ps_opts st') = pick ?m ''fstype'' (opt_fsType (ps_opts st))"
    by (rule parse_loop_pick [where F = "\<lambda>s. opt_fsType (ps_opts s)", OF _ l d]) (erule step_state(11))
  show ?thesis
    using mons [symmetric] feat secr p1 p2 p3 p4 p5 p6 p7 p8 p9 p11
    by (auto simp: parsed_def Let_def split: prod.splits
        intro!: parse_st.equality rbdProvisionOptions.equality)
qed

text \<open>The loop accepts the parameters when each of them is acceptable on its own.\<close>

lemma parse_loop_ok_iff:
  "distinct (map fst (low ps)) \<Longrightarrow>
   fst (parse_loop E ps st w) = None \<longleftrightarrow> (\<forall>kv \<in> set ps. fst (param_step E kv st w) = None)"
proof (induction ps arbitrary: st w)
  case Nil
  then show ?case by simp
next
  case (Cons kv ps)
  obtain r st1 w1 where s: "param_step E kv st w = (r, st1, w1)" by (cases "param_step E kv st w")
  show ?case
  proof (cases r)
    case (Some e)
    with s show ?thesis by simp
  next
    case None
    have "fst (param_step E kv' st1 w1) = None \<longleftrightarrow> fst (param_step E kv' st w) = None"
      if "kv' \<in> set ps" for kv'
    proof (cases "ToLower (fst kv') = ''monitors''")
      case False
      then show ?thesis by (simp add: param_step_ok_iff)
    next
      case True
      have "ToLower (fst kv) \<noteq> ToLower (fst kv')"
        using Cons.prems that by (force simp: low_def case_prod_beta)
      then have same: "opt_monitors (ps_opts st1) = opt_monitors (ps_opts st)" "ps_dnsip st1 = ps_dnsip st" "w1 = w"
        using step_state(13) [OF s [unfolded None]] True by auto
      show ?thesis
        using True same by (simp add: param_step_def Let_def param_monitors_result case_prod_beta)
    qed
    with Cons None s show ?thesis by simp
  qed
qed

lemma map_of_low_perm:
  assumes "mset qs = mset ps" "distinct (map fst (low ps))"
  shows "map_of (low qs) = map_of (low ps)" "distinct (map fst (low qs))"
proof -
  have m: "mset (low qs) = mset (low ps)" using assms(1) by (simp add: low_def)
  then have s: "set (low qs) = set (low ps)" by (metis set_mset_mset)
  have "mset (map fst (low qs)) = mset (map fst (low ps))" using m by simp
  with assms(2) show d: "distinct (map fst (low qs))" by (metis distinct_count_atmost_1 set_mset_mset)
  show "map_of (low qs) = map_of (low ps)"
    using d assms(2) s by (metis map_of_inject_set)
qed

text \<open>C31: Go visits the storage class parameters in an unspecified order. When no two keys
  agree up to case and one order of visiting them is accepted, every order is accepted, with the
  same options, the same cached DNS address and the same calls.\<close>

theorem parseParameters_order:
  assumes "mset qs = mset ps" "distinct (map (\<lambda>kv. ToLower (fst kv)) ps)"
    and "fst (parseParameters E r ps w) = Inr opts"
  shows "parseParameters E r qs w = parseParameters E r ps w"
proof -
  have d: "distinct (map fst (low ps))" using assms(2) by (simp add: low_def comp_def case_prod_beta)
  note m = map_of_low_perm [OF assms(1) d]
  have ok: "fst (parse_loop E ps (parse_init r) w) = None"
    using assms(3) by (auto simp: parseParameters_def parse_finish_def Let_def split: prod.splits option.splits)
  then have okq: "fst (parse_loop E qs (parse_init r) w) = None"
    using parse_loop_ok_iff [OF d] parse_loop_ok_iff [OF m(2)] assms(1) by (metis set_mset_mset)
  have "parse_loop E ps (parse_init r) w = (None, parsed E (map_of (low ps)) (parse_init r) w)"
    using ok parse_loop_parsed [OF _ d] by (metis prod.collapse)
  moreover have "parse_loop E qs (parse_init r) w = (None, parsed E (map_of (low ps)) (parse_init r) w)"
    using okq parse_loop_parsed [OF _ m(2)] m(1) by (metis prod.collapse)
  ultimately show ?thesis by (simp add: parseParameters_def)
qed


text \<open>C32: Without that condition the order matters. The names of parameters are compared in lower case, so a
  storage class may have \<open>pool\<close> and \<open>Pool\<close>; both orders of visiting them are accepted, and the images are
  in the pool that was visited last.\<close>

theorem parameter_case_order:
  assumes "rbd_client r" "s \<noteq> []" "fst (secret_get E ''default'' s w) = Inr dat" "a \<noteq> []" "b \<noteq> []"
  shows "\<exists>opts1 opts2. fst (parseParameters E r [(''adminSecretName'', s), (''pool'', a), (''Pool'', b)] w) = Inr opts1
    \<and> fst (parseParameters E r [(''adminSecretName'', s), (''Pool'', b), (''pool'', a)] w) = Inr opts2
    \<and> opt_pool opts1 = b \<and> opt_pool opts2 = a"
proof -
  have low: "ToLower ''adminSecretName'' = ''adminsecretname''" "ToLower ''pool'' = ''pool''" "ToLower ''Pool'' = ''pool''"
    by (simp_all add: ToLower_def lower_char_def is_upper_def char_of_def bit_0)
  obtain w1 where "secret_get E ''default'' s w = (Inr dat, w1)" using assms(3) by (metis prod.collapse)
  with assms show ?thesis
    by (simp add: parseParameters_def parse_finish_def param_step_def parse_init_def parsePVSecret_def low Let_def)
qed

section \<open>Parsed options are well formed\<close>

definition wf_opts :: "rbdProvisionOptions \<Rightarrow> bool" where
  "wf_opts o1 \<longleftrightarrow> opt_pool o1 \<noteq> [] \<and> opt_adminID o1 \<noteq> []
     \<and> (opt_imageFormat o1 = rbdImageFormat1 \<or> opt_imageFormat o1 = rbdImageFormat2)
     \<and> (\<forall>f \<in> set (opt_imageFeatures o1). f = ''layering'')"

lemma param_step_wf:
  assumes "param_step E kv st w = (None, st', w')" "wf_opts (ps_opts st)"
  shows "wf_opts (ps_opts st')"
proof (cases "ToLower (fst kv) = ''monitors''")
  case True
  with assms show ?thesis
    by (auto simp: param_step_def Let_def param_monitors_result wf_opts_def split: prod.splits)
next
  case False
  then have "valid_param (ToLower (fst kv)) (snd kv)"
    using param_step_ok_iff [of kv E st w] assms(1) by simp
  then show ?thesis
    using assms(2) unfolding wf_opts_def step_state [OF assms(1)]
    by (auto simp: valid_param_def free_key_def)
qed

lemma param_step_monitors:
  assumes "param_step E kv st w = (None, st', w')"
  shows "opt_monitors (ps_opts st') \<noteq> [] \<longleftrightarrow>
    opt_monitors (ps_opts st) \<noteq> [] \<or> ToLower (fst kv) = ''monitors''"
proof (cases "ToLower (fst kv) = ''monitors''")
  case True
  with assms show ?thesis
    by (auto simp: param_step_def Let_def param_monitors_result split: prod.splits if_splits)
next
  case False
  with step_state(13) [OF assms] show ?thesis by simp
qed

lemma parse_loop_wf:
  assumes "parse_loop E ps st w = (None, st', w')" "wf_opts (ps_opts st)"
  shows "wf_opts (ps_opts st') \<and>
    (opt_monitors (ps_opts st') \<noteq> [] \<longleftrightarrow>
      opt_monitors (ps_opts st) \<noteq> [] \<or> ''monitors'' \<in> set (map (\<lambda>kv. ToLower (fst kv)) ps))"
  using assms
proof (induction ps arbitrary: st w)
  case Nil
  then show ?case by simp
next
  case (Cons kv ps)
  from Cons.prems(1) obtain st1 w1 where
    s: "param_step E kv st w = (None, st1, w1)" and r: "parse_loop E ps st1 w1 = (None, st', w')"
    by (auto split: prod.splits option.splits)
  from Cons.IH [OF r param_step_wf [OF s Cons.prems(2)]] param_step_monitors [OF s]
  show ?case by auto
qed

lemma parse_init_wf: "wf_opts (ps_opts (parse_init r))" "opt_monitors (ps_opts (parse_init r)) = []"
  by (simp_all add: parse_init_def wf_opts_def rbd_consts)

text \<open>Accepted parameters give a non-empty pool, admin and user, image format 1 or 2 and
  only the supported image feature. Monitors are given exactly when the parameters have a
  \<open>monitors\<close> key: leaving the key out is accepted and no monitor is passed on.\<close>

theorem parseParameters_wf:
  assumes "parseParameters E r ps w = (Inr opts, r', w')"
  shows "wf_opts opts \<and> opt_userID opts \<noteq> []
    \<and> (opt_monitors opts \<noteq> [] \<longleftrightarrow> ''monitors'' \<in> set (map (\<lambda>kv. ToLower (fst kv)) ps))"
proof -
  obtain st w1 where l: "parse_loop E ps (parse_init r) w = (None, st, w1)"
    using assms by (cases "parse_loop E ps (parse_init r) w")
      (auto simp: parseParameters_def parse_finish_def Let_def split: option.splits)
  note wf = parse_loop_wf [OF l parse_init_wf(1)]
  from assms l obtain secret where
    "opts = (let o1 = (ps_opts st)\<lparr>opt_adminSecret := secret\<rparr> in
       if opt_userID o1 = [] then o1\<lparr>opt_userID := opt_adminID o1\<rparr> else o1)"
    by (auto simp: parseParameters_def parse_finish_def Let_def split: if_splits sum.splits prod.splits)
  with wf show ?thesis by (auto simp: parse_init_wf(2) wf_opts_def Let_def)
qed

section \<open>Witnesses\<close>

definition demo_opts :: rbdProvisionOptions where
  "demo_opts = (ps_opts (parse_init NewRbd))\<lparr>opt_monitors := [''10.0.0.9:6789''], opt_adminSecret := ''s3cret''\<rparr>"

definition demo_params :: "(string \<times> string) list" where
  "demo_params = [(''adminSecretName'', ''ceph''), (''imageFeatures'', ''layering''), (''pool'', ''vols'')]"

lemma demo_params_ok:
  "parseParameters demo_env NewRbd demo_params demo0 =
     (Inr ((ps_opts (parse_init NewRbd))\<lparr>opt_pool := ''vols'', opt_adminSecret := ''s3cret'',
        opt_userID := ''admin'', opt_imageFeatures := [''layering'']\<rparr>), NewRbd, demo0)"
  by (simp add: parseParameters_def parse_finish_def demo_params_def param_step_def NewRbd_def
      parse_init_def ToLower_def parsePVSecret_def demo_defs gm_items_def rbd_consts Let_def
      lower_char_def is_upper_def char_of_def bit_0)

theorem CreateImage_size_witness:
  "let x = RBDUtil_CreateImage (traced demo_env) demo_opts ''pvc-1'' 1048577 (demo0, []) in
     length (snd (snd x)) = 1"
  using CreateImage_size [OF pair3
      [of "RBDUtil_CreateImage (traced demo_env) demo_opts ''pvc-1'' 1048577 (demo0, [])"]]
  by (auto simp: Let_def)

theorem DeleteImage_safe_witness:
  "let x = RBDUtil_DeleteImage (traced demo_env) demo_opts ''pvc-1'' (demo0, []) in
     fst x = None \<and> length (snd (snd x)) = 2"
  using DeleteImage_safe [OF pair3
      [of "RBDUtil_DeleteImage (traced demo_env) demo_opts ''pvc-1'' (demo0, [])"]]
  by (simp add: Let_def RBDUtil_DeleteImage_def rbdStatus_def execCommand_def env_defs demo_defs
      rbd_consts str_Contains_def)

theorem parseParameters_order_witness:
  "parseParameters demo_env NewRbd (rev demo_params) demo0 = parseParameters demo_env NewRbd demo_params demo0
   \<and> (\<exists>opts. fst (parseParameters demo_env NewRbd demo_params demo0) = Inr opts)"
proof -
  have "fst (parseParameters demo_env NewRbd demo_params demo0) =
      Inr ((ps_opts (parse_init NewRbd))\<lparr>opt_pool := ''vols'', opt_adminSecret := ''s3cret'',
        opt_userID := ''admin'', opt_imageFeatures := [''layering'']\<rparr>)"
    by (simp add: demo_params_ok)
  from parseParameters_order [OF _ _ this, of "rev demo_params"] this show ?thesis
    by (simp add: demo_params_def ToLower_def lower_char_def is_upper_def char_of_def bit_0)
qed

theorem parameter_case_order_witness:
  "\<exists>opts1 opts2. fst (parseParameters demo_env NewRbd [(''adminSecretName'', ''ceph''), (''pool'', ''p1''), (''Pool'', ''p2'')] demo0) = Inr opts1
     \<and> fst (parseParameters demo_env NewRbd [(''adminSecretName'', ''ceph''), (''Pool'', ''p2''), (''pool'', ''p1'')] demo0) = Inr opts2
     \<and> opt_pool opts1 \<noteq> opt_pool opts2"
  using parameter_case_order [of NewRbd "''ceph''" demo_env demo0 "projr (fst (secret_get demo_env ''default'' ''ceph'' demo0))" "''p1''" "''p2''"]
  by (auto simp: NewRbd_def demo_defs)

theorem parseParameters_wf_witness:
  "\<exists>opts r' w'. parseParameters demo_env NewRbd demo_params demo0 = (Inr opts, r', w')
     \<and> wf_opts opts \<and> opt_monitors opts = []"
proof -
  have "''monitors'' \<notin> set (map (\<lambda>kv. ToLower (fst kv)) demo_params)"
    by (simp add: demo_params_def ToLower_def lower_char_def is_upper_def char_of_def bit_0)
  with parseParameters_wf [OF demo_params_ok] demo_params_ok show ?thesis by blast
qed

section \<open>The calls of the image operations\<close>

text \<open>Reading a storage class and resolving its parameters.\<close>

definition class_event :: "event \<Rightarrow> bool" where
  "class_event e \<longleftrightarrow> (\<exists>n r. e = EvSc n r) \<or> (\<exists>ns n r. e = EvSecret ns n r) \<or> (\<exists>d. e = EvDns d)
     \<or> (\<exists>h d r. e = EvLookup h d r)"

lemma class_event_simps [simp]:
  "class_event (EvSc n r1)" "class_event (EvSecret ns n r2)" "class_event (EvDns d)" "class_event (EvLookup h d r3)"
  "\<not> class_event (EvCmd c as o1)" "\<not> class_event (EvDelete x r4)" "\<not> class_event (EvCreate x r4)"
  by (auto simp: class_event_def)

lemma monitors_loop_grows:
  "monitors_loop (traced E) dns ms acc (w, l) = (x, w', l') \<Longrightarrow> grows class_event l l'"
proof (induction ms arbitrary: acc w l)
  case Nil
  then show ?case by simp
next
  case (Cons m ms)
  show ?case
  proof (cases "dns \<noteq> [] \<and> ParseIP (fst (SplitHostPort m)) = None")
    case False
    then show ?thesis using Cons by (auto simp: Let_def split: prod.splits)
  next
    case True
    then obtain acc' where "monitors_loop (traced E) dns ms acc'
        (snd (lookup_host E (fst (SplitHostPort m)) dns w),
         l @ [EvLookup (fst (SplitHostPort m)) dns (fst (lookup_host E (fst (SplitHostPort m)) dns w))]) = (x, w', l')"
      using Cons.prems by (auto simp: Let_def env_defs split: prod.splits sum.splits)
    from Cons.IH [OF this] show ?thesis by (rule grows_trans [rotated]) simp
  qed
qed

lemma param_step_grows:
  "param_step (traced E) kv st (w, l) = (r, st', w', l') \<Longrightarrow> grows class_event l l'"
  by (auto simp: param_step_def param_monitors_def Let_def env_defs split: prod.splits if_splits sum.splits
      dest!: monitors_loop_grows intro: grows_trans [where ?l1.0 = "l @ [EvDns d]" for d])

lemma parse_loop_grows:
  "parse_loop (traced E) ps st (w, l) = (r, st', w', l') \<Longrightarrow> grows class_event l l'"
proof (induction ps arbitrary: st w l)
  case (Cons kv ps)
  obtain r1 st1 w1 l1 where s: "param_step (traced E) kv st (w, l) = (r1, st1, w1, l1)" by (metis prod_cases4)
  with Cons show ?case using param_step_grows [OF s] by (cases r1) (auto intro: grows_trans)
qed simp

lemma class_options_grows:
  assumes "class_options (traced E) r sc (w, l) = (x, r', w', l')"
  shows "grows class_event l l'"
proof (cases "rbd_client r")
  case False
  with assms show ?thesis by (auto simp: class_options_def)
next
  case True
  show ?thesis
  proof (cases "fst (sc_get E sc w)")
    case (Inl e)
    with assms True show ?thesis by (auto simp: class_options_def env_defs)
  next
    case (Inr ps)
    obtain e st w1 l1 where lp: "parse_loop (traced E) (gm_items ps) (parse_init r) (snd (sc_get E sc w), l @ [EvSc sc (Inr ps)])
      = (e, st, w1, l1)" by (metis prod_cases4)
    have "grows class_event (l @ [EvSc sc (Inr ps)]) l1" by (rule parse_loop_grows [OF lp])
    then have 1: "grows class_event l l1" by (rule grows_trans [rotated]) simp
    have "grows class_event l1 l'"
      using assms True Inr lp
      by (auto simp: class_options_def env_defs parseParameters_def parse_finish_def parsePVSecret_def Let_def
          split: option.splits if_splits sum.splits prod.splits)
    with 1 show ?thesis by (rule grows_trans)
  qed
qed

definition image_event :: "event \<Rightarrow> bool" where
  "image_event e \<longleftrightarrow> class_event e \<or> (\<exists>as o1. e = EvCmd ''rbd'' as o1)"

lemma image_event_simps [simp]:
  "image_event (EvCmd ''rbd'' as o1)" "class_event e \<Longrightarrow> image_event e"
  "\<not> image_event (EvGet n r1)" "\<not> image_event (EvDelete x r)" "\<not> image_event (EvCreate x r)"
  by (auto simp: image_event_def class_event_def)

text \<open>The commands that end in an image being gone: the status command says that it does not exist,
  or it shows no watcher and the removal succeeds.\<close>

definition removed :: "string \<Rightarrow> event list \<Rightarrow> bool" where
  "removed img cs \<longleftrightarrow> (\<exists>opts o1.
     (cs = [EvCmd ''rbd'' (status_args opts img) o1] \<and> \<not> cmd_ok o1 \<and> str_Contains (Out o1) imageNotFound)
   \<or> (\<exists>o2. cs = [EvCmd ''rbd'' (status_args opts img) o1, EvCmd ''rbd'' (rm_args opts img) o2]
        \<and> cmd_ok o1 \<and> \<not> str_Contains (Out o1) imageWatcherStr \<and> cmd_ok o2))"

lemma RBDUtil_DeleteImage_log:
  assumes "RBDUtil_DeleteImage (traced E) opts img (w, l) = (r, w', l')"
  shows "\<exists>cs. l' = l @ cs \<and> list_all image_event cs \<and> (r = None \<longrightarrow> removed img cs)"
proof -
  obtain o1 w1 where o1: "run_cmd E ''rbd'' (status_args opts img) w = (o1, w1)"
    by (cases "run_cmd E ''rbd'' (status_args opts img) w")
  obtain o2 w2 where o2: "run_cmd E ''rbd'' (rm_args opts img) w1 = (o2, w2)"
    by (cases "run_cmd E ''rbd'' (rm_args opts img) w1")
  show ?thesis
    using assms o1 o2
    by (auto simp: RBDUtil_DeleteImage_def rbdStatus_def execCommand_def env_defs cmd_ok_def removed_def
        split: option.splits if_splits)
qed

lemma Rbd_DeleteImage_log:
  assumes "Rbd_DeleteImage (traced E) rb sc img (w, l) = (r, rb', w', l')"
  shows "\<exists>lc cs. l' = l @ lc @ cs \<and> list_all class_event lc \<and> list_all image_event cs
    \<and> (r = None \<longrightarrow> removed img cs)"
proof -
  obtain x r1 w1 l1 where c: "class_options (traced E) rb sc (w, l) = (x, r1, w1, l1)" by (metis prod_cases4)
  obtain lc where lc: "l1 = l @ lc" "list_all class_event lc"
    using class_options_grows [OF c] by (auto simp: grows_def)
  show ?thesis
  proof (cases x)
    case (Inl e)
    with assms c lc show ?thesis by (auto simp: Rbd_DeleteImage_def intro: exI [of _ lc] exI [of _ "[]"])
  next
    case (Inr opts)
    with assms c have "RBDUtil_DeleteImage (traced E) opts img (w1, l1) = (r, w', l')"
      by (auto simp: Rbd_DeleteImage_def split: prod.splits)
    from RBDUtil_DeleteImage_log [OF this] lc show ?thesis by auto
  qed
qed

text \<open>What \<open>DeleteImage\<close> tries with given options: the status command, and exactly when it succeeds and
  shows no watcher the removal.\<close>

definition removal_attempt :: "rbdProvisionOptions \<Rightarrow> string \<Rightarrow> event list \<Rightarrow> bool" where
  "removal_attempt opts img cs \<longleftrightarrow> (\<exists>o1.
     if cmd_ok o1 \<and> \<not> str_Contains (Out o1) imageWatcherStr
     then \<exists>o2. cs = [EvCmd ''rbd'' (status_args opts img) o1, EvCmd ''rbd'' (rm_args opts img) o2]
     else cs = [EvCmd ''rbd'' (status_args opts img) o1])"

lemma RBDUtil_DeleteImage_attempt:
  assumes "RBDUtil_DeleteImage (traced E) opts img (w, l) = (r, w', l')"
  shows "\<exists>cs. l' = l @ cs \<and> removal_attempt opts img cs"
proof -
  obtain o1 w1 where o1: "run_cmd E ''rbd'' (status_args opts img) w = (o1, w1)"
    by (cases "run_cmd E ''rbd'' (status_args opts img) w")
  obtain o2 w2 where o2: "run_cmd E ''rbd'' (rm_args opts img) w1 = (o2, w2)"
    by (cases "run_cmd E ''rbd'' (rm_args opts img) w1")
  let ?cs = "EvCmd ''rbd'' (status_args opts img) o1 #
    (if cmd_ok o1 \<and> \<not> str_Contains (Out o1) imageWatcherStr then [EvCmd ''rbd'' (rm_args opts img) o2] else [])"
  have "l' = l @ ?cs" using assms o1 o2
    by (auto simp: RBDUtil_DeleteImage_def rbdStatus_def execCommand_def env_defs cmd_ok_def split: option.splits if_splits)
  moreover have "removal_attempt opts img ?cs" unfolding removal_attempt_def by (rule exI [of _ o1]) simp
  ultimately show ?thesis by blast
qed

text \<open>The calls after \<open>l\<close> by which an image of a storage class is removed: the class is read, its
  parameters are resolved, by the calls \<open>lc\<close>, and with the options they give the removal is tried; nothing
  more is done only if the class cannot be read or its parameters are refused.\<close>

definition removal_tried :: "'w env \<Rightarrow> string \<Rightarrow> string \<Rightarrow> event list \<Rightarrow> event list \<Rightarrow> bool" where
  "removal_tried E sc img l ds \<longleftrightarrow> (\<exists>g lc cs. ds = EvSc sc g # lc @ cs \<and> (case g of
     Inl e \<Rightarrow> lc = [] \<and> cs = []
   | Inr ps \<Rightarrow> \<exists>rb w0 x rb1 w1. rbd_client rb
       \<and> parseParameters (traced E) rb (gm_items ps) (w0, l @ [EvSc sc g]) = (x, rb1, w1, l @ EvSc sc g # lc)
       \<and> (case x of Inl e \<Rightarrow> cs = [] | Inr opts \<Rightarrow> removal_attempt opts img cs)))"

lemma Rbd_DeleteImage_tried:
  assumes "Rbd_DeleteImage (traced E) rb sc img (w, l) = (r, rb', w', l')" "rbd_client rb"
  shows "\<exists>ds. l' = l @ ds \<and> removal_tried E sc img l ds"
proof (cases "fst (sc_get E sc w)")
  case (Inl e)
  with assms show ?thesis
    by (intro exI [of _ "[EvSc sc (Inl e)]"])
      (auto simp: Rbd_DeleteImage_def class_options_def env_defs removal_tried_def)
next
  case (Inr ps)
  let ?l = "l @ [EvSc sc (Inr ps)]" and ?w = "snd (sc_get E sc w)"
  obtain x rb1 w1 l1 where x: "parseParameters (traced E) rb (gm_items ps) (?w, ?l) = (x, rb1, w1, l1)" by (metis prod_cases4)
  have co: "class_options (traced E) rb sc (w, l) = (x, rb1, w1, l1)"
    using assms(2) Inr x by (simp add: class_options_def env_defs)
  obtain e st w2 l2 where lp: "parse_loop (traced E) (gm_items ps) (parse_init rb) (?w, ?l) = (e, st, w2, l2)"
    by (metis prod_cases4)
  have "grows class_event ?l l1" using parse_loop_grows [OF lp] x lp
    by (auto simp: parseParameters_def parse_finish_def parsePVSecret_def env_defs Let_def intro: grows_trans
        split: option.splits if_splits sum.splits prod.splits)
  then obtain lc where lc: "l1 = l @ EvSc sc (Inr ps) # lc" by (auto simp: grows_def)
  have t: "removal_tried E sc img l (EvSc sc (Inr ps) # lc @ cs)"
    if "case x of Inl e \<Rightarrow> cs = [] | Inr opts \<Rightarrow> removal_attempt opts img cs" for cs
    unfolding removal_tried_def using that x assms(2) lc by fastforce
  show ?thesis
  proof (cases x)
    case (Inl e)
    with assms(1) co lc t [of "[]"] show ?thesis
      by (intro exI [of _ "EvSc sc (Inr ps) # lc"]) (auto simp: Rbd_DeleteImage_def)
  next
    case (Inr opts)
    with assms(1) co have "RBDUtil_DeleteImage (traced E) opts img (w1, l1) = (r, w', l')"
      by (auto simp: Rbd_DeleteImage_def split: prod.splits)
    from RBDUtil_DeleteImage_attempt [OF this] obtain cs where "l' = l1 @ cs" "removal_attempt opts img cs" by blast
    with lc t [of cs] Inr show ?thesis by (intro exI [of _ "EvSc sc (Inr ps) # lc @ cs"]) auto
  qed
qed

lemma CreateImage_client:
  assumes "Rbd_CreateImage E rb sc img b w = (Inr v, rb', w')"
  shows "rbd_client rb'"
  using assms
  by (auto simp: Rbd_CreateImage_def class_options_def parseParameters_def parse_finish_def Let_def
      split: sum.splits prod.splits if_splits option.splits)

text \<open>The commands of a successful creation.\<close>

definition created :: "string \<Rightarrow> event list \<Rightarrow> bool" where
  "created img l \<longleftrightarrow> (\<exists>opts sz o1. EvCmd ''rbd'' (create_args opts img sz) o1 \<in> set l \<and> cmd_ok o1)"

lemma class_not_created [simp]: "list_all class_event lc \<Longrightarrow> \<not> created img lc"
  by (auto simp: created_def list_all_iff class_event_def)

lemma created_append [simp]: "created img (l @ l') \<longleftrightarrow> created img l \<or> created img l'"
  by (auto simp: created_def)

lemma Rbd_CreateImage_log:
  assumes "Rbd_CreateImage (traced E) rb sc img b (w, l) = (r, rb', w', l')"
  shows "\<exists>lc cs. l' = l @ lc @ cs \<and> list_all class_event lc
    \<and> (case r of Inl _ \<Rightarrow> list_all image_event cs \<and> \<not> created img cs
       | Inr v \<Rightarrow> \<exists>opts z o1. cs = [EvCmd ''rbd'' (create_args opts img (itoa (nat z))) o1] \<and> cmd_ok o1
           \<and> 0 < z \<and> sint b \<le> z * 2^20 \<and> (z - 1) * 2^20 < sint b
           \<and> v = \<lparr>vol_Pool = opt_pool opts, vol_Image = img\<rparr>)"
proof -
  obtain x r1 w1 l1 where c: "class_options (traced E) rb sc (w, l) = (x, r1, w1, l1)" by (metis prod_cases4)
  obtain lc where lc: "l1 = l @ lc" "list_all class_event lc"
    using class_options_grows [OF c] by (auto simp: grows_def)
  show ?thesis
  proof (cases x)
    case (Inl e)
    with assms c lc show ?thesis
      by (auto simp: Rbd_CreateImage_def created_def intro: exI [of _ lc] exI [of _ "[]"])
  next
    case (Inr opts)
    with assms c have u: "RBDUtil_CreateImage (traced E) opts img b (w1, l1) = (r, w', l')"
      by (auto simp: Rbd_CreateImage_def split: prod.splits)
    show ?thesis
    proof (cases "0 < sint b \<and> sint b \<le> 2^63 - 2^20")
      case True
      define z where "z = sint (RoundUpSize b MiB)"
      have z: "0 < z \<and> sint b \<le> z * 2^20 \<and> (z - 1) * 2^20 < sint b"
        using True RoundUpSize_tight [OF _ _ z_def] by blast
      have inj: "created img [EvCmd ''rbd'' as o1] \<Longrightarrow> cmd_ok o1" for as o1 by (auto simp: created_def)
      obtain o1 where "l' = l1 @ [EvCmd ''rbd'' (create_args opts img (itoa (nat z))) o1]"
        "case r of Inl _ \<Rightarrow> \<not> cmd_ok o1
         | Inr v \<Rightarrow> cmd_ok o1 \<and> v = \<lparr>vol_Pool = opt_pool opts, vol_Image = img\<rparr>"
        using u z by (auto simp: RBDUtil_CreateImage_def execCommand_def env_defs z_def [symmetric]
          cmd_ok_def split: prod.splits option.splits if_splits)
      with z lc inj show ?thesis
        by (intro exI [of _ lc] exI [of _ "[EvCmd ''rbd'' (create_args opts img (itoa (nat z))) o1]"])
          (auto split: sum.splits)
    next
      case False
      then have "sint (RoundUpSize b MiB) \<le> 0" using RoundUpSize_refused [of b] by linarith
      with u lc have "l' = l @ lc @ []" "\<exists>e. r = Inl e" by (auto simp: RBDUtil_CreateImage_def)
      with lc show ?thesis by (intro exI [of _ lc] exI [of _ "[]"]) (auto simp: created_def)
    qed
  qed
qed

end
