(* ===== verification/Utils.thy ===== *)
theory Utils
  imports GoNet
begin

text \<open>
  \<open>utils/buf.go\<close> and \<open>utils/net.go\<close>: the buffer pool and \<open>Combine\<close>, the
  visit of the host's addresses and the authorization header. MD5 and Base64 are written out as the
  standard library defines them.

  The facts: \<open>Combine\<close> concatenates whatever the pooled buffers held before; the
  authorization header decodes back to the user and the 32 hexadecimal digits of the digest.
\<close>

unbundle bit_operations_syntax

section \<open>buf.go\<close>

text \<open>The pool holds the buffers that were put back, with whatever they contain. \<open>sync.Pool\<close>
  may hand out any of them or a new one: the number \<open>k\<close> stands for that choice.\<close>

type_synonym bufpool = "string list"

definition pool_Get :: "nat \<Rightarrow> bufpool \<Rightarrow> string \<times> bufpool" where
  "pool_Get k pl = (if k < length pl then (pl ! k, take k pl @ drop (Suc k) pl) else ([], pl))"

definition GetBuf :: "nat \<Rightarrow> bufpool \<Rightarrow> string \<times> bufpool" where
  "GetBuf k pl = (let (buf, pl1) = pool_Get k pl in ([], pl1))"

definition PutBuf :: "string \<Rightarrow> bufpool \<Rightarrow> bufpool" where
  "PutBuf b pl = b # pl"

fun write_all :: "string \<Rightarrow> string list \<Rightarrow> string" where
  "write_all buf [] = buf"
| "write_all buf (v # vs) = write_all (buf @ v) vs"

text \<open>\<open>None\<close> is the nil slice.\<close>

definition Combine :: "nat \<Rightarrow> string list \<Rightarrow> bufpool \<Rightarrow> string option \<times> bufpool" where
  "Combine k strs pl =
     (if length strs = 0 then (None, pl)
      else let (buf, pl1) = GetBuf k pl;
               buf1 = write_all buf strs;
               tmps = go_copy (replicate (length buf1) (CHR 0x00)) buf1
           in (Some tmps, PutBuf buf1 pl1))"

lemma write_all_concat: "write_all buf strs = buf @ concat strs"
  by (induction strs arbitrary: buf) auto

text \<open>\<open>Combine\<close> returns the concatenation of its arguments, or nil for none, whatever the
  pooled buffers contain and whichever of them is handed out, and the pool loses no buffer: a buffer
  with old content cannot leak into the result.\<close>

theorem Combine_concat:
  "fst (Combine k strs pl) = (if strs = [] then None else Some (concat strs))
   \<and> length pl \<le> length (snd (Combine k strs pl))"
  by (auto simp: Combine_def GetBuf_def pool_Get_def PutBuf_def write_all_concat go_copy_same_length
      Let_def)

section \<open>net.go\<close>

datatype ifaddr = IPAddr IP | IPNet IP IP | OtherAddr

definition DefaultMask :: "IP \<Rightarrow> IP" where
  "DefaultMask ip = (case IP_To4 ip of
     None \<Rightarrow> []
   | Some p4 \<Rightarrow> if hd p4 < 128 then [255, 0, 0, 0] else if hd p4 < 192 then [255, 255, 0, 0]
       else [255, 255, 255, 0])"

text \<open>The callback's closure has a state \<open>'s\<close>; \<open>True\<close> in the last component means
  the callback asked to stop.\<close>

fun addrs_loop :: "(string \<Rightarrow> IP \<Rightarrow> IP \<Rightarrow> 's \<Rightarrow> bool \<times> 's) \<Rightarrow> string \<Rightarrow> ifaddr list \<Rightarrow> 's \<Rightarrow> 's \<times> bool" where
  "addrs_loop fn name [] s = (s, False)"
| "addrs_loop fn name (a # as) s = (case a of
     IPAddr ip \<Rightarrow> (let (ok, s1) = fn name ip (DefaultMask ip) s in
       if \<not> ok then (s1, True) else addrs_loop fn name as s1)
   | IPNet ip ipmask \<Rightarrow> (let (ok, s1) = fn name ip ipmask s in
       if \<not> ok then (s1, True) else addrs_loop fn name as s1)
   | OtherAddr \<Rightarrow> addrs_loop fn name as s)"

fun ifaces_loop ::
    "(string \<Rightarrow> IP \<Rightarrow> IP \<Rightarrow> 's \<Rightarrow> bool \<times> 's) \<Rightarrow> (string \<times> (error + ifaddr list)) list \<Rightarrow> 's \<Rightarrow> error option \<times> 's" where
  "ifaces_loop fn [] s = (None, s)"
| "ifaces_loop fn ((name, addrs) # is) s = (case addrs of
     Inl e \<Rightarrow> (Some e, s)
   | Inr as \<Rightarrow> (let (s1, stop) = addrs_loop fn name as s in
       if stop then (None, s1) else ifaces_loop fn is s1))"

text \<open>The argument is what \<open>net.Interfaces\<close> and each interface's \<open>Addrs\<close> answer.\<close>

definition LookupAddresses ::
    "error + (string \<times> (error + ifaddr list)) list \<Rightarrow> (string \<Rightarrow> IP \<Rightarrow> IP \<Rightarrow> 's \<Rightarrow> bool \<times> 's) \<Rightarrow> 's
      \<Rightarrow> error option \<times> 's" where
  "LookupAddresses ifaces fn s = (case ifaces of
     Inl e \<Rightarrow> (Some e, s) | Inr is \<Rightarrow> ifaces_loop fn is s)"

subsection \<open>MD5\<close>

definition md5_shift :: "nat \<Rightarrow> nat" where
  "md5_shift i = [[7, 12, 17, 22], [5, 9, 14, 20], [4, 11, 16, 23], [6, 10, 15, 21]] ! (i div 16) ! (i mod 4)"

definition md5_table :: "32 word list" where
  "md5_table = [
     0xd76aa478, 0xe8c7b756, 0x242070db, 0xc1bdceee, 0xf57c0faf, 0x4787c62a, 0xa8304613, 0xfd469501,
     0x698098d8, 0x8b44f7af, 0xffff5bb1, 0x895cd7be, 0x6b901122, 0xfd987193, 0xa679438e, 0x49b40821,
     0xf61e2562, 0xc040b340, 0x265e5a51, 0xe9b6c7aa, 0xd62f105d, 0x02441453, 0xd8a1e681, 0xe7d3fbc8,
     0x21e1cde6, 0xc33707d6, 0xf4d50d87, 0x455a14ed, 0xa9e3e905, 0xfcefa3f8, 0x676f02d9, 0x8d2a4c8a,
     0xfffa3942, 0x8771f681, 0x6d9d6122, 0xfde5380c, 0xa4beea44, 0x4bdecfa9, 0xf6bb4b60, 0xbebfbc70,
     0x289b7ec6, 0xeaa127fa, 0xd4ef3085, 0x04881d05, 0xd9d4d039, 0xe6db99e5, 0x1fa27cf8, 0xc4ac5665,
     0xf4292244, 0x432aff97, 0xab9423a7, 0xfc93a039, 0x655b59c3, 0x8f0ccc92, 0xffeff47d, 0x85845dd1,
     0x6fa87e4f, 0xfe2ce6e0, 0xa3014314, 0x4e0811a1, 0xf7537e82, 0xbd3af235, 0x2ad7d2bb, 0xeb86d391]"

type_synonym md5_state = "32 word \<times> 32 word \<times> 32 word \<times> 32 word"

definition md5_step :: "32 word list \<Rightarrow> nat \<Rightarrow> md5_state \<Rightarrow> md5_state" where
  "md5_step M i = (\<lambda>(a, b, c, d).
     let (f, g) =
       (if i < 16 then ((b AND c) OR (NOT b AND d), i)
        else if i < 32 then ((d AND b) OR (NOT d AND c), (5 * i + 1) mod 16)
        else if i < 48 then (b XOR c XOR d, (3 * i + 5) mod 16)
        else (c XOR (b OR NOT d), (7 * i) mod 16))
     in (d, b + word_rotl (md5_shift i) (a + f + md5_table ! i + M ! g), b, c))"

fun le_words :: "8 word list \<Rightarrow> 32 word list" where
  "le_words (a # b # c # d # r) =
     (ucast a OR push_bit 8 (ucast b) OR push_bit 16 (ucast c) OR push_bit 24 (ucast d)) # le_words r"
| "le_words _ = []"

definition md5_block :: "8 word list \<Rightarrow> md5_state \<Rightarrow> md5_state" where
  "md5_block chunk s = (case (s, fold (md5_step (le_words chunk)) [0..<64] s) of
     ((a0, b0, c0, d0), (a, b, c, d)) \<Rightarrow> (a0 + a, b0 + b, c0 + c, d0 + d))"

definition le_bytes :: "nat \<Rightarrow> 64 word \<Rightarrow> 8 word list" where
  "le_bytes n x = map (\<lambda>i. ucast (drop_bit (8 * i) x)) [0..<n]"

definition md5_pad :: "8 word list \<Rightarrow> 8 word list" where
  "md5_pad m = m @ [128] @ replicate ((119 - length m mod 64) mod 64) 0 @ le_bytes 8 (8 * word_of_nat (length m))"

function chunks64 :: "8 word list \<Rightarrow> 8 word list list" where
  "chunks64 m = (if length m < 64 then [] else take 64 m # chunks64 (drop 64 m))"
  by pat_completeness auto
termination by (relation "measure length") auto

declare chunks64.simps [simp del]

definition md5_Sum :: "string \<Rightarrow> 8 word list" where
  "md5_Sum pass = (case fold md5_block (chunks64 (md5_pad (map of_char pass)))
       (0x67452301, 0xefcdab89, 0x98badcfe, 0x10325476) of
     (a, b, c, d) \<Rightarrow> concat (map (\<lambda>x. le_bytes 4 (ucast x)) [a, b, c, d]))"

text \<open>\<open>%x\<close> of a byte array.\<close>

definition hex_bytes :: "8 word list \<Rightarrow> string" where
  "hex_bytes bs = concat (map (\<lambda>b. [hex_digit (unat b div 16), hex_digit (unat b mod 16)]) bs)"

subsection \<open>Base64\<close>

definition b64_alphabet :: string where
  "b64_alphabet = ''ABCDEFGHIJKLMNOPQRSTUVWXYZabcdefghijklmnopqrstuvwxyz0123456789+/''"

definition b64_char :: "nat \<Rightarrow> char" where
  "b64_char n = b64_alphabet ! n"

fun b64_enc :: "nat list \<Rightarrow> string" where
  "b64_enc [] = []"
| "b64_enc [a] = [b64_char (a div 4), b64_char (a mod 4 * 16), CHR ''='', CHR ''='']"
| "b64_enc [a, b] =
     [b64_char (a div 4), b64_char (a mod 4 * 16 + b div 16), b64_char (b mod 16 * 4), CHR ''='']"
| "b64_enc (a # b # c # r) =
     [b64_char (a div 4), b64_char (a mod 4 * 16 + b div 16), b64_char (b mod 16 * 4 + c div 64),
      b64_char (c mod 64)] @ b64_enc r"

definition b64_EncodeToString :: "string \<Rightarrow> string" where
  "b64_EncodeToString s = b64_enc (map of_char s)"

type_synonym http_Header = "(string \<times> string list) list"

definition AuthHead :: string where
  "AuthHead = ''Authorization''"

definition BuildBasicAuthMd5 :: "string \<Rightarrow> string \<Rightarrow> http_Header" where
  "BuildBasicAuthMd5 user pass =
     (if length user = 0 \<and> length pass = 0 then []
      else let bearstr = user @ '':'' @ hex_bytes (md5_Sum pass);
               b64 = b64_EncodeToString bearstr
           in [(AuthHead, [''Basic '' @ b64])])"

subsection \<open>The header can be read back\<close>

text \<open>A decoder, as the receiver of the header has it.\<close>

definition b64_val :: "char \<Rightarrow> nat" where
  "b64_val c = length (takeWhile (\<lambda>x. x \<noteq> c) b64_alphabet)"

fun b64_dec :: "string \<Rightarrow> nat list" where
  "b64_dec (w # x # y # z # r) =
     (let a = b64_val w; b = b64_val x; c = b64_val y; d = b64_val z in
      if y = CHR ''='' then [a * 4 + b div 16]
      else if z = CHR ''='' then [a * 4 + b div 16, b mod 16 * 16 + c div 4]
      else [a * 4 + b div 16, b mod 16 * 16 + c div 4, c mod 4 * 64 + d] @ b64_dec r)"
| "b64_dec _ = []"

definition b64_decode :: "string \<Rightarrow> string" where
  "b64_decode s = map char_of (b64_dec s)"

lemma b64_alphabet_props: "length b64_alphabet = 64" "distinct b64_alphabet" "CHR ''='' \<notin> set b64_alphabet"
  by (simp_all add: b64_alphabet_def)

lemma takeWhile_nth_distinct:
  "distinct xs \<Longrightarrow> n < length xs \<Longrightarrow> length (takeWhile (\<lambda>x. x \<noteq> xs ! n) xs) = n"
  by (induction xs arbitrary: n) (auto simp: nth_Cons split: nat.splits)

lemma b64_val_char [simp]: "n < 64 \<Longrightarrow> b64_val (b64_char n) = n"
  using takeWhile_nth_distinct [OF b64_alphabet_props(2), of n]
  by (simp add: b64_val_def b64_char_def b64_alphabet_props)

lemma b64_char_not_pad [simp]: "n < 64 \<Longrightarrow> b64_char n \<noteq> CHR ''=''"
  using nth_mem [of n b64_alphabet] b64_alphabet_props by (metis b64_char_def)

lemma b64_split:
  fixes a b c :: nat
  assumes "a < 256" "b < 256" "c < 256"
  shows "a div 4 < 64" "a mod 4 * 16 + b div 16 < 64" "b mod 16 * 4 + c div 64 < 64" "c mod 64 < 64"
    "a div 4 * 4 + (a mod 4 * 16 + b div 16) div 16 = a"
    "(a mod 4 * 16 + b div 16) mod 16 * 16 + (b mod 16 * 4 + c div 64) div 4 = b"
    "(b mod 16 * 4 + c div 64) mod 4 * 64 + c mod 64 = c"
proof -
  have b: "b div 16 < 16" and c: "c div 64 < 4" using assms by auto
  show "a div 4 < 64" "c mod 64 < 64" using assms by auto
  have "a mod 4 \<le> 3" by (simp add: le_simps(2))
  with b show "a mod 4 * 16 + b div 16 < 64" by linarith
  have "b mod 16 \<le> 15" by (simp add: le_simps(2))
  with c show "b mod 16 * 4 + c div 64 < 64" by linarith
  show "a div 4 * 4 + (a mod 4 * 16 + b div 16) div 16 = a"
    using b div_mult_mod_eq [of a 4] by simp
  have "(b mod 16 * 4 + c div 64) div 4 = b mod 16" using c by simp
  moreover have "(a mod 4 * 16 + b div 16) mod 16 = b div 16" using b by simp
  ultimately show "(a mod 4 * 16 + b div 16) mod 16 * 16 + (b mod 16 * 4 + c div 64) div 4 = b"
    using div_mult_mod_eq [of b 16] by simp
  have "(b mod 16 * 4 + c div 64) mod 4 = c div 64" using c by simp
  then show "(b mod 16 * 4 + c div 64) mod 4 * 64 + c mod 64 = c" using div_mult_mod_eq [of c 64] by simp
qed

lemma b64_dec_enc: "\<forall>x \<in> set xs. x < 256 \<Longrightarrow> b64_dec (b64_enc xs) = xs"
proof (induction xs rule: b64_enc.induct)
  case (2 a)
  then show ?case using b64_split [of a 0 0] by (simp add: Let_def)
next
  case (3 a b)
  then show ?case using b64_split [of a b 0] by (simp add: Let_def)
next
  case (4 a b c r)
  then have b: "b div 16 < 16" by auto
  then have "b div 16 mod 16 * 16 + b mod 16 = b"
    using div_mult_mod_eq [of b 16] by (simp only: mod_less)
  then show ?case using 4 b b64_split [of a b c] by (simp add: Let_def)
qed simp

lemma b64_roundtrip: "b64_decode (b64_EncodeToString s) = s"
proof -
  have "\<forall>x \<in> set (map of_char s). (x :: nat) < 256" by auto
  then show ?thesis by (simp add: b64_decode_def b64_EncodeToString_def b64_dec_enc comp_def)
qed

lemma length_md5_Sum [simp]: "length (md5_Sum s) = 16"
  by (simp add: md5_Sum_def le_bytes_def split: prod.splits)

lemma length_hex_bytes [simp]: "length (hex_bytes bs) = 2 * length bs"
  by (induction bs) (auto simp: hex_bytes_def)

text \<open>C34: For a user without a colon the authorization header holds one \<open>Basic\<close> credential,
  and decoding it and splitting at the first colon gives back the user and 32 hexadecimal digits:
  the digest of the password and nothing else.\<close>

theorem BasicAuth_decodes:
  assumes "user \<noteq> []" "CHR '':'' \<notin> set user"
  shows "\<exists>cred. BuildBasicAuthMd5 user pass = [(AuthHead, [''Basic '' @ cred])]
    \<and> str_split2 (b64_decode cred) '':'' = [user, hex_bytes (md5_Sum pass)]
    \<and> length (hex_bytes (md5_Sum pass)) = 32"
  using assms str_index_single [of "CHR '':''" user "hex_bytes (md5_Sum pass)"]
  by (simp add: BuildBasicAuthMd5_def Let_def b64_roundtrip str_split2_def)

theorem BasicAuth_decodes_witness:
  "\<exists>cred. BuildBasicAuthMd5 ''admin'' ''pw'' = [(AuthHead, [''Basic '' @ cred])]
    \<and> str_split2 (b64_decode cred) '':'' = [''admin'', hex_bytes (md5_Sum ''pw'')]"
  using BasicAuth_decodes [of "''admin''" "''pw''"] by auto

end
