(* ===== verification/Store.thy ===== *)
theory Store
  imports Rbd Utils
begin

text \<open>
  \<open>pkg/store/alcub.go\<close> and \<open>pkg/store/interface.go\<close>: the client of the alcubierre
  server. \<open>client_do\<close> is the method \<open>do\<close>: it chooses the dynamic configuration, fills
  its URL from the \<open>rados\<close> attribute when it is empty, builds the request URL and runs the
  operation's closure. The closures' captured variables are the state \<open>'s\<close> it threads. A
  \<open>*DynConf\<close> argument is an option; every operation returns the configuration and the client as
  they are afterwards, since \<open>fillAlcubUrl\<close> writes through the pointer it was given.

  The locale \<open>alcuber\<close> is the interface \<open>Alcuber\<close> as the node service uses it,
  interpreted on the client.
\<close>

record AlcubConf =
  AlucbPool :: string
  ApiUrl :: string
  User :: string
  Password :: string

record DynConf =
  AlucbUrl :: string
  Nodename :: string

record client =
  conf :: AlcubConf
  dynConf :: "DynConf option"

definition resource :: string where "resource = ''dev''"
definition devpath :: string where "devpath = ''/dev''"

definition defaultHeader :: http_Header where
  "defaultHeader = [(''content-type'', [''application/json'']), (''Accept'', [''application/json''])]"

section \<open>Decoding a response\<close>

text \<open>\<open>Resp.ToJSON\<close> into a struct with one string field: the key matches up to ASCII case, a
  null leaves the field alone, another type is an error that does not stop the decoding, and the last
  match wins. The struct's field may already have been written when an error is returned.\<close>

definition type_error :: error where
  "type_error = ExtErr ''json: cannot unmarshal''"

definition field_step :: "string \<Rightarrow> string \<times> json \<Rightarrow> string \<times> error option \<Rightarrow> string \<times> error option" where
  "field_step name kv cur =
     (if ToLower (fst kv) = ToLower name then
        (case snd kv of
           JStr s \<Rightarrow> (s, snd cur)
         | JNull \<Rightarrow> cur
         | _ \<Rightarrow> (fst cur, if snd cur = None then Some type_error else snd cur))
      else cur)"

definition ToJSON_field :: "string \<Rightarrow> http_resp \<Rightarrow> string \<Rightarrow> string \<times> error option" where
  "ToJSON_field name resp cur = (case RespBody resp of
     Inl e \<Rightarrow> (cur, Some e)
   | Inr JNull \<Rightarrow> (cur, None)
   | Inr (JObj kvs) \<Rightarrow> fold (field_step name) kvs (cur, None)
   | Inr _ \<Rightarrow> (cur, Some type_error))"

text \<open>\<open>Resp.ToJSON\<close> into a \<open>[]string\<close>.\<close>

definition elem_step :: "json \<Rightarrow> string list \<times> error option \<Rightarrow> string list \<times> error option" where
  "elem_step j cur = (case j of
     JStr s \<Rightarrow> (fst cur @ [s], snd cur)
   | JNull \<Rightarrow> (fst cur @ [[]], snd cur)
   | _ \<Rightarrow> (fst cur @ [[]], if snd cur = None then Some type_error else snd cur))"

definition ToJSON_strings :: "http_resp \<Rightarrow> string list \<Rightarrow> string list \<times> error option" where
  "ToJSON_strings resp cur = (case RespBody resp of
     Inl e \<Rightarrow> (cur, Some e)
   | Inr JNull \<Rightarrow> ([], None)
   | Inr (JArr js) \<Rightarrow> fold elem_step js ([], None)
   | Inr _ \<Rightarrow> (cur, Some type_error))"

section \<open>The client\<close>

text \<open>\<open>string(utils.Combine(...))\<close>; the pool does not influence the result.\<close>

definition combined :: "string list \<Rightarrow> string" where
  "combined strs = (case fst (Combine 0 strs []) of None \<Rightarrow> [] | Some b \<Rightarrow> b)"

lemma combined_concat [simp]: "combined strs = concat strs"
  by (auto simp: combined_def Combine_def GetBuf_def pool_Get_def write_all_concat go_copy_same_length Let_def)

definition fillAlcubUrl :: "'w env \<Rightarrow> client \<Rightarrow> DynConf \<Rightarrow> 'w \<Rightarrow> error option \<times> DynConf \<times> 'w" where
  "fillAlcubUrl E c dynconf w =
     (let attr = ''alcubierre_node_'' @ Nodename dynconf in
      case FetchUrl E (AlucbPool (conf c)) attr w of
        ((alcuburl, Some err), w1) \<Rightarrow> (Some err, dynconf, w1)
      | ((alcuburl, None), w1) \<Rightarrow> (None, dynconf\<lparr>AlucbUrl := alcuburl\<rparr>, w1))"

definition client_do ::
    "'w env \<Rightarrow> client \<Rightarrow> DynConf option
      \<Rightarrow> (string \<Rightarrow> http_Header \<Rightarrow> DynConf \<Rightarrow> 's \<Rightarrow> 'w \<Rightarrow> (error option \<times> 's) \<times> 'w) \<Rightarrow> 's \<Rightarrow> 'w
      \<Rightarrow> (error option \<times> 's) \<times> DynConf option \<times> client \<times> 'w" where
  "client_do E c dynconf fn s w =
     (case (case dynconf of Some d \<Rightarrow> Some d | None \<Rightarrow> dynConf c) of
        None \<Rightarrow> ((Some (Errorf ''No dynmic Configure found'' []), s), dynconf, c, w)
      | Some dconf \<Rightarrow>
          (let (err, dconf1, w1) =
                 (if length (AlucbUrl dconf) = 0 then fillAlcubUrl E c dconf w else (None, dconf, w));
               dynconf1 = (if dynconf = None then None else Some dconf1);
               c1 = (if dynconf = None then c\<lparr>dynConf := Some dconf1\<rparr> else c)
           in case err of
                Some e \<Rightarrow> ((Some e, s), dynconf1, c1, w1)
              | None \<Rightarrow>
                  (let auth = (if User (conf c) \<noteq> [] then BuildBasicAuthMd5 (User (conf c)) (Password (conf c))
                               else [])
                   in case url_Parse (AlucbUrl dconf1) of
                        Inl e \<Rightarrow> ((Some e, s), dynconf1, c1, w1)
                      | Inr dst \<Rightarrow>
                          (let buf = combined [Scheme dst, ''://''] @ path_Join [Host dst, ApiUrl (conf c), resource];
                               (res, w2) = fn buf auth dconf1 s w1
                           in (res, dynconf1, c1, w2)))))"

text \<open>A request: the headers are handed over in the order of the arguments.\<close>

definition request :: "'w env \<Rightarrow> http_method \<Rightarrow> string \<Rightarrow> http_Header \<Rightarrow> json \<Rightarrow> 'w \<Rightarrow> (error + http_resp) \<times> 'w" where
  "request E m buf au dat w =
     http_do E \<lparr>Method = m, Url = buf,
       Headers = concat (map (\<lambda>(k, vs). map (Pair k) vs) (au @ defaultHeader)), Body = dat\<rparr> w"

definition op_body :: "string \<Rightarrow> (string \<times> string) list \<Rightarrow> json" where
  "op_body op args = JObj [(''op'', JStr op), (''op_args'', JObj (map (\<lambda>(k, v). (k, JStr v)) args))]"

text \<open>Each operation is \<open>do\<close> with a closure, here \<open>*_fn\<close>.\<close>

definition conn_fn ::
    "'w env \<Rightarrow> string \<Rightarrow> string \<Rightarrow> string \<Rightarrow> http_Header \<Rightarrow> DynConf \<Rightarrow> string \<Rightarrow> 'w \<Rightarrow> (error option \<times> string) \<times> 'w" where
  "conn_fn E pl img buf au d dev w = (case request E POST buf au (op_body ''dev_connect'' [(''image'', img), (''pool'', pl)]) w of
        (Inl err, w1) \<Rightarrow> ((Some err, dev), w1)
      | (Inr resp, w1) \<Rightarrow> (let (dev1, err) = ToJSON_field ''alcubierre_dev'' resp dev in ((err, dev1), w1)))"

definition DoConn ::
    "'w env \<Rightarrow> client \<Rightarrow> DynConf option \<Rightarrow> string \<Rightarrow> string \<Rightarrow> 'w \<Rightarrow> (error + string) \<times> DynConf option \<times> client \<times> 'w" where
  "DoConn E c dc pl img w =
     (case client_do E c dc (conn_fn E pl img) [] w of
        ((Some reterr, dev), r) \<Rightarrow> (Inl reterr, r)
      | ((None, dev), r) \<Rightarrow>
          if dev = [] then (Inl (Errorf ''not found device on alcubierre_dev'' []), r)
          else (Inr (path_Join [devpath, dev]), r))"

definition disconn_fn ::
    "'w env \<Rightarrow> string \<Rightarrow> string \<Rightarrow> string \<Rightarrow> http_Header \<Rightarrow> DynConf \<Rightarrow> string \<Rightarrow> 'w \<Rightarrow> (error option \<times> string) \<times> 'w" where
  "disconn_fn E pl img buf au d serr w = (case request E POST buf au (op_body ''dev_disconnect'' [(''image'', img), (''pool'', pl)]) w of
        (Inl err, w1) \<Rightarrow> ((Some err, serr), w1)
      | (Inr resp, w1) \<Rightarrow>
          (let serr1 = fst (ToJSON_field ''error'' resp serr) in
           ((if serr1 \<noteq> [] then Some (Errorf serr1 []) else None, serr1), w1)))"

definition DoDisConn ::
    "'w env \<Rightarrow> client \<Rightarrow> DynConf option \<Rightarrow> string \<Rightarrow> string \<Rightarrow> 'w \<Rightarrow> error option \<times> DynConf option \<times> client \<times> 'w" where
  "DoDisConn E c dc pl img w =
     (case client_do E c dc (disconn_fn E pl img) [] w of
        ((err, _), r) \<Rightarrow> (err, r))"

definition fail_fn ::
    "'w env \<Rightarrow> string \<Rightarrow> string \<Rightarrow> http_Header \<Rightarrow> DynConf \<Rightarrow> unit \<Rightarrow> 'w \<Rightarrow> (error option \<times> unit) \<times> 'w" where
  "fail_fn E node buf au d s w = (case request E POST buf au (op_body ''node_fail'' [(''node'', node)]) w of
        (Inl err, w1) \<Rightarrow> ((Some err, s), w1)
      | (Inr resp, w1) \<Rightarrow> ((None, s), w1))"

definition FailNode ::
    "'w env \<Rightarrow> client \<Rightarrow> DynConf option \<Rightarrow> string \<Rightarrow> 'w \<Rightarrow> error option \<times> DynConf option \<times> client \<times> 'w" where
  "FailNode E c dc node w =
     (case client_do E c dc (fail_fn E node) () w of
        ((err, _), r) \<Rightarrow> (err, r))"

definition stop_fn ::
    "'w env \<Rightarrow> string \<Rightarrow> string \<Rightarrow> string \<Rightarrow> http_Header \<Rightarrow> DynConf \<Rightarrow> unit \<Rightarrow> 'w \<Rightarrow> (error option \<times> unit) \<times> 'w" where
  "stop_fn E pl img buf au d s w = (case request E POST buf au (op_body ''dev_stop'' [(''image'', img), (''pool'', pl)]) w of
        (Inl err, w1) \<Rightarrow> ((Some err, s), w1)
      | (Inr resp, w1) \<Rightarrow> ((None, s), w1))"

definition DevStop ::
    "'w env \<Rightarrow> client \<Rightarrow> DynConf option \<Rightarrow> string \<Rightarrow> string \<Rightarrow> 'w \<Rightarrow> error option \<times> DynConf option \<times> client \<times> 'w" where
  "DevStop E c dc pl img w =
     (case client_do E c dc (stop_fn E pl img) () w of
        ((err, _), r) \<Rightarrow> (err, r))"

definition status_fn ::
    "'w env \<Rightarrow> string \<Rightarrow> string \<Rightarrow> string \<Rightarrow> http_Header \<Rightarrow> DynConf \<Rightarrow> string \<Rightarrow> 'w \<Rightarrow> (error option \<times> string) \<times> 'w" where
  "status_fn E pl img buf au d stat w = (case request E GET buf au (JObj [(''image'', JStr img), (''pool'', JStr pl)]) w of
        (Inl err, w1) \<Rightarrow> ((Some err, stat), w1)
      | (Inr resp, w1) \<Rightarrow> (let (stat1, err) = ToJSON_field ''status'' resp stat in ((err, stat1), w1)))"

definition GetImageStatus ::
    "'w env \<Rightarrow> client \<Rightarrow> DynConf option \<Rightarrow> string \<Rightarrow> string \<Rightarrow> 'w \<Rightarrow> bool \<times> DynConf option \<times> client \<times> 'w" where
  "GetImageStatus E c dc pl img w =
     (case client_do E c dc (status_fn E pl img) [] w of
        ((Some _, stat), r) \<Rightarrow> (False, r)
      | ((None, stat), r) \<Rightarrow> (stat = [] \<or> stat = ''clean'', r))"

definition peers_fn ::
    "'w env \<Rightarrow> string \<Rightarrow> string \<Rightarrow> http_Header \<Rightarrow> DynConf \<Rightarrow> string list \<Rightarrow> 'w \<Rightarrow> (error option \<times> string list) \<times> 'w" where
  "peers_fn E nodename buf au d ns w = (case request E POST buf au (op_body ''get_secondary_urls'' [(''node'', nodename)]) w of
        (Inl err, w1) \<Rightarrow> ((Some err, ns), w1)
      | (Inr resp, w1) \<Rightarrow>
          (case ToJSON_strings resp ns of
             (ns1, Some err) \<Rightarrow> ((Some err, ns1), w1)
           | (ns1, None) \<Rightarrow>
               (case url_Parse (AlucbUrl d) of
                  Inl _ \<Rightarrow> ((None, ns1), w1)
                | Inr alcubu \<Rightarrow> ((None, ns1 @ [combined [Scheme alcubu, ''://'', Host alcubu]]), w1))))"

definition GetNode ::
    "'w env \<Rightarrow> client \<Rightarrow> DynConf option \<Rightarrow> string \<Rightarrow> 'w \<Rightarrow> (error + string list) \<times> DynConf option \<times> client \<times> 'w" where
  "GetNode E c dc nodename w =
     (case client_do E c dc (peers_fn E nodename) [] w of
        ((Some reterr, ns), r) \<Rightarrow> (Inl reterr, r)
      | ((None, ns), r) \<Rightarrow> (Inr ns, r))"

text \<open>A nil configuration or an empty API path is a panic; a failure to fill the URL is only
  logged.\<close>

definition NewClient :: "'w env \<Rightarrow> AlcubConf option \<Rightarrow> DynConf option \<Rightarrow> 'w \<Rightarrow> (error + client) \<times> 'w" where
  "NewClient E alcubConf dynconf w =
     (case alcubConf of
        None \<Rightarrow> (Inl (GoPanic ''alcub configure must not be nil and apiurl must not be nil''), w)
      | Some ac \<Rightarrow>
          if ApiUrl ac = [] then (Inl (GoPanic ''alcub configure must not be nil and apiurl must not be nil''), w)
          else (let cli = \<lparr>conf = ac, dynConf = dynconf\<rparr> in
            case dynconf of
              None \<Rightarrow> (Inr cli, w)
            | Some d \<Rightarrow> (case fillAlcubUrl E cli d w of
                  (_, d1, w1) \<Rightarrow> (Inr (cli\<lparr>dynConf := Some d1\<rparr>), w1))))"

section \<open>What the client does\<close>

definition dev_url :: "client \<Rightarrow> URL \<Rightarrow> string" where
  "dev_url c u = Scheme u @ ''://'' @ path_Join [Host u, ApiUrl (conf c), resource]"

definition auth_of :: "client \<Rightarrow> http_Header" where
  "auth_of c = (if User (conf c) \<noteq> [] then BuildBasicAuthMd5 (User (conf c)) (Password (conf c)) else [])"

definition url_query :: "client \<Rightarrow> DynConf \<Rightarrow> cmd_out \<Rightarrow> event" where
  "url_query c d o1 = EvCmd ''rados'' [''-p'', AlucbPool (conf c), ''getxattr'', ''alcubierre_node_'' @ Nodename d, ''URL''] o1"

definition chosen :: "client \<Rightarrow> DynConf option \<Rightarrow> DynConf option" where
  "chosen c dc = (if dc = None then dynConf c else dc)"

lemma fillAlcubUrl_traced:
  "fillAlcubUrl (traced E) c d (w, l) = (r, d', w', l') \<Longrightarrow>
     (l' = l \<and> r \<noteq> None \<and> d' = d \<and> AlucbPool (conf c) = [])
   \<or> (\<exists>o1. AlucbPool (conf c) \<noteq> [] \<and> l' = l @ [url_query c d o1] \<and> (r = None \<longleftrightarrow> cmd_ok o1)
        \<and> d' = (if r = None then d\<lparr>AlucbUrl := Out o1\<rparr> else d))"
  by (auto simp: fillAlcubUrl_def FetchUrl_def RBDUtil_FetchUrl_def execCommand_def env_defs
      url_query_def cmd_ok_def Let_def split: if_splits option.splits prod.splits)

lemma client_do_cases:
  assumes "client_do (traced E) c dc fn s (w, l) = ((r, s'), dc', c', w', l')"
  obtains (noconf) "chosen c dc = None" "r \<noteq> None" "s' = s" "dc' = dc" "c' = c" "w' = w" "l' = l"
  | (nourl) d where "chosen c dc = Some d" "r \<noteq> None" "s' = s"
      "l' = l \<or> (AlucbUrl d = [] \<and> (\<exists>o1. l' = l @ [url_query c d o1]))"
      "conf c' = conf c" "dc' = None \<longleftrightarrow> dc = None"
  | (called) d d' u w1 l1 where "chosen c dc = Some d"
      "(AlucbUrl d \<noteq> [] \<and> d' = d \<and> l1 = l) \<or>
       (\<exists>o1. AlucbUrl d = [] \<and> AlucbPool (conf c) \<noteq> [] \<and> cmd_ok o1 \<and> d' = d\<lparr>AlucbUrl := Out o1\<rparr> \<and> l1 = l @ [url_query c d o1])"
      "url_Parse (AlucbUrl d') = Inr u"
      "fn (dev_url c u) (auth_of c) d' s (w1, l1) = ((r, s'), w', l')"
      "chosen c' dc' = Some d'" "conf c' = conf c" "dc' = None \<longleftrightarrow> dc = None"
proof (cases "chosen c dc")
  case None
  with assms that(1) show thesis
    by (auto simp: client_do_def chosen_def split: option.splits if_splits)
next
  case (Some d)
  then have ch: "(case dc of Some d \<Rightarrow> Some d | None \<Rightarrow> dynConf c) = Some d"
    by (auto simp: chosen_def split: option.splits if_splits)
  obtain err d1 w1 l1 where f:
    "(if AlucbUrl d = [] then fillAlcubUrl (traced E) c d (w, l) else (None, d, (w, l))) = (err, d1, w1, l1)"
    by (metis prod_cases4)
  have g: "err = None \<Longrightarrow> (AlucbUrl d \<noteq> [] \<and> d1 = d \<and> l1 = l) \<or>
       (\<exists>o1. AlucbUrl d = [] \<and> AlucbPool (conf c) \<noteq> [] \<and> cmd_ok o1 \<and> d1 = d\<lparr>AlucbUrl := Out o1\<rparr> \<and> l1 = l @ [url_query c d o1])"
    and h: "l1 = l \<or> (AlucbUrl d = [] \<and> (\<exists>o1. l1 = l @ [url_query c d o1]))"
    using f fillAlcubUrl_traced [of E c d w l err d1 w1 l1] by (auto split: if_splits)
  show thesis
  proof (cases "err = None \<and> (\<exists>u. url_Parse (AlucbUrl d1) = Inr u)")
    case True
    then obtain u where u: "err = None" "url_Parse (AlucbUrl d1) = Inr u" by blast
    have "fn (dev_url c u) (auth_of c) d1 s (w1, l1) = ((r, s'), w', l')"
      "chosen c' dc' = Some d1" "conf c' = conf c" "dc' = None \<longleftrightarrow> dc = None"
      using assms u by (auto simp: client_do_def ch f dev_url_def auth_of_def chosen_def
          split: prod.splits if_splits)
    then show thesis by (rule that(3) [OF Some g [OF u(1)] u(2)])
  next
    case False
    then obtain e where "(r, s') = (Some e, s)" "(w', l') = (w1, l1)" "conf c' = conf c" "dc' = None \<longleftrightarrow> dc = None"
      using assms by (cases err; cases "url_Parse (AlucbUrl d1)") (auto simp: client_do_def ch f split: if_splits)
    with h show thesis by (intro that(2) [OF Some]) auto
  qed
qed

definition store_event :: "event \<Rightarrow> bool" where
  "store_event e \<longleftrightarrow> (\<exists>q r. e = EvHttp q r) \<or> (\<exists>as o1. e = EvCmd ''rados'' as o1)"

lemma store_event_simps [simp]: "store_event (EvHttp q r)" "store_event (url_query c d o1)"
  by (auto simp: store_event_def url_query_def)

lemma client_do_grows:
  assumes "client_do (traced E) c dc fn s (w, l) = ((r, s'), dc', c', w', l')"
    and "\<And>buf au d s w l x w' l'. fn buf au d s (w, l) = (x, w', l') \<Longrightarrow> grows store_event l l'"
  shows "grows store_event l l'"
  using assms(1)
proof (cases rule: client_do_cases)
  case (called d d' u w1 l1)
  have "grows store_event l l1" using called(2) by auto
  then show ?thesis using assms(2) [OF called(4)] by (rule grows_trans)
qed auto

text \<open>A request as the client sends it: to the device resource below the API path, with the
  credentials of the configuration.\<close>

definition sent :: "client \<Rightarrow> http_method \<Rightarrow> json \<Rightarrow> URL \<Rightarrow> http_req" where
  "sent c m b u = \<lparr>Method = m, Url = dev_url c u,
     Headers = concat (map (\<lambda>(k, vs). map (Pair k) vs) (auth_of c @ defaultHeader)), Body = b\<rparr>"

lemma request_traced:
  "request (traced E) m (dev_url c u) (auth_of c) b (w, l) =
     (fst (http_do E (sent c m b u) w), snd (http_do E (sent c m b u) w),
      l @ [EvHttp (sent c m b u) (fst (http_do E (sent c m b u) w))])"
  by (simp add: request_def sent_def env_defs)

text \<open>The calls of one operation: nothing without a configuration; otherwise the URL query if the
  URL is not known, and then the request. \<open>ans\<close> says how the answer is reported.\<close>

definition op_trace ::
    "client \<Rightarrow> DynConf option \<Rightarrow> http_method \<Rightarrow> json \<Rightarrow> bool \<Rightarrow> (error + http_resp \<Rightarrow> bool) \<Rightarrow> event list \<Rightarrow> bool" where
  "op_trace c dc m b failed ans l = (case chosen c dc of
     None \<Rightarrow> failed \<and> l = []
   | Some d \<Rightarrow> \<exists>pre post. l = pre @ post
       \<and> (pre = [] \<or> (AlucbUrl d = [] \<and> (\<exists>o1. pre = [url_query c d o1])))
       \<and> (if post = [] then failed
          else \<exists>u a. post = [EvHttp (sent c m b u) a] \<and> ans a))"

lemma op_traceI:
  assumes do: "client_do (traced E) c dc fn s (w, []) = ((r, s'), dc', c', w', l)"
    and fn: "\<And>u d w1 l1. fn (dev_url c u) (auth_of c) d s (w1, l1) = ((r, s'), w', l) \<Longrightarrow>
      \<exists>a. l = l1 @ [EvHttp (sent c m b u) a] \<and> ans a"
    and bad: "r \<noteq> None \<Longrightarrow> s' = s \<Longrightarrow> failed"
  shows "op_trace c dc m b failed ans l"
  using do
proof (cases rule: client_do_cases)
  case noconf
  then show ?thesis using bad by (simp add: op_trace_def)
next
  case (nourl d)
  then show ?thesis using bad unfolding op_trace_def nourl(1) option.case
    by (intro exI [of _ l] exI [of _ "[]"]) auto
next
  case (called d d' u w1 l1)
  obtain a where a: "l = l1 @ [EvHttp (sent c m b u) a]" "ans a" using fn [OF called(4)] by blast
  have "l1 = [] \<or> (AlucbUrl d = [] \<and> (\<exists>o1. l1 = [url_query c d o1]))" using called(2) by auto
  with a show ?thesis unfolding op_trace_def called(1) option.case
    by (intro exI [of _ l1] exI [of _ "[EvHttp (sent c m b u) a]"]) auto
qed


lemma path_Join_dev: "plain_seg d \<Longrightarrow> path_Join [devpath, d] = ''/dev/'' @ d"
  by (simp add: path_Join_def path_Clean_def devpath_def Let_def clean_segs_plain plain_seg_def
      split_no_sep)

text \<open>Each operation is a run of \<open>do\<close> and a reading of its outcome.\<close>

lemma DoConn_do:
  assumes "DoConn (traced E) c dc pl img (w, l) = (r, dc', c', w', l')"
  obtains r' s' where "client_do (traced E) c dc (conn_fn (traced E) pl img) [] (w, l) = ((r', s'), dc', c', w', l')"
    "r = (case r' of Some e \<Rightarrow> Inl e
      | None \<Rightarrow> if s' = [] then Inl (Errorf ''not found device on alcubierre_dev'' []) else Inr (path_Join [devpath, s']))"
  using assms unfolding DoConn_def
  by (cases "client_do (traced E) c dc (conn_fn (traced E) pl img) [] (w, l)")
    (auto split: option.splits if_splits)

lemma GetImageStatus_do:
  assumes "GetImageStatus (traced E) c dc pl img (w, l) = (r, dc', c', w', l')"
  obtains r' s' where "client_do (traced E) c dc (status_fn (traced E) pl img) [] (w, l) = ((r', s'), dc', c', w', l')"
    "r \<longleftrightarrow> r' = None \<and> (s' = [] \<or> s' = ''clean'')"
  using assms unfolding GetImageStatus_def
  by (cases "client_do (traced E) c dc (status_fn (traced E) pl img) [] (w, l)")
    (auto split: option.splits)

lemma GetNode_do:
  assumes "GetNode (traced E) c dc n (w, l) = (r, dc', c', w', l')"
  obtains r' s' where "client_do (traced E) c dc (peers_fn (traced E) n) [] (w, l) = ((r', s'), dc', c', w', l')"
    "r = (case r' of None \<Rightarrow> Inr s' | Some e \<Rightarrow> Inl e)"
  using assms unfolding GetNode_def
  by (cases "client_do (traced E) c dc (peers_fn (traced E) n) [] (w, l)")
    (auto split: option.splits)

lemma DoDisConn_do:
  assumes "DoDisConn (traced E) c dc pl img (w, l) = (r, dc', c', w', l')"
  obtains s' where "client_do (traced E) c dc (disconn_fn (traced E) pl img) [] (w, l) = ((r, s'), dc', c', w', l')"
  using assms unfolding DoDisConn_def
  by (cases "client_do (traced E) c dc (disconn_fn (traced E) pl img) [] (w, l)") auto

lemma FailNode_do:
  assumes "FailNode (traced E) c dc n (w, l) = (r, dc', c', w', l')"
  obtains s' where "client_do (traced E) c dc (fail_fn (traced E) n) () (w, l) = ((r, s'), dc', c', w', l')"
  using assms unfolding FailNode_def
  by (cases "client_do (traced E) c dc (fail_fn (traced E) n) () (w, l)") auto

lemma DevStop_do:
  assumes "DevStop (traced E) c dc pl img (w, l) = (r, dc', c', w', l')"
  obtains s' where "client_do (traced E) c dc (stop_fn (traced E) pl img) () (w, l) = ((r, s'), dc', c', w', l')"
  using assms unfolding DevStop_def
  by (cases "client_do (traced E) c dc (stop_fn (traced E) pl img) () (w, l)") auto

lemma fns_grow:
  "conn_fn (traced E) pl img buf au d s (w, l) = (x, w', l') \<Longrightarrow> grows store_event l l'"
  "disconn_fn (traced E) pl img buf au d s (w, l) = (x, w', l') \<Longrightarrow> grows store_event l l'"
  "status_fn (traced E) pl img buf au d s (w, l) = (x, w', l') \<Longrightarrow> grows store_event l l'"
  "stop_fn (traced E) pl img buf au d u (w, l) = (y, w', l') \<Longrightarrow> grows store_event l l'"
  "fail_fn (traced E) n buf au d u (w, l) = (y, w', l') \<Longrightarrow> grows store_event l l'"
  "peers_fn (traced E) n buf au d ns (w, l) = (z, w', l') \<Longrightarrow> grows store_event l l'"
  by (auto simp: conn_fn_def disconn_fn_def status_fn_def stop_fn_def fail_fn_def peers_fn_def
      request_def env_defs Let_def split: sum.splits prod.splits option.splits)

lemma ops_grow:
  "DoConn (traced E) c dc pl img (w, l) = (r1, dc', c', w', l') \<Longrightarrow> grows store_event l l'"
  "DoDisConn (traced E) c dc pl img (w, l) = (r2, dc', c', w', l') \<Longrightarrow> grows store_event l l'"
  "GetImageStatus (traced E) c dc pl img (w, l) = (r3, dc', c', w', l') \<Longrightarrow> grows store_event l l'"
  "DevStop (traced E) c dc pl img (w, l) = (r4, dc', c', w', l') \<Longrightarrow> grows store_event l l'"
  "FailNode (traced E) c dc n (w, l) = (r5, dc', c', w', l') \<Longrightarrow> grows store_event l l'"
  "GetNode (traced E) c dc n (w, l) = (r6, dc', c', w', l') \<Longrightarrow> grows store_event l l'"
  by (erule DoConn_do DoDisConn_do GetImageStatus_do DevStop_do FailNode_do GetNode_do,
      erule client_do_grows, erule fns_grow)+

text \<open>Connecting an image queries the URL only when it is not known, sends one
  \<open>dev_connect\<close> request for that pool and image, and returns a device exactly when the answer
  decodes to a non-empty device name: the name under \<open>/dev\<close>. Without a configuration it
  fails and calls nothing.\<close>

theorem DoConn_trace:
  assumes "DoConn (traced E) c dc pl img (w, []) = (r, dc', c', w', l)"
  shows "op_trace c dc POST (op_body ''dev_connect'' [(''image'', img), (''pool'', pl)]) (\<exists>e. r = Inl e)
     (\<lambda>a. \<forall>dev. r = Inr dev \<longleftrightarrow>
        (\<exists>resp d. a = Inr resp \<and> ToJSON_field ''alcubierre_dev'' resp [] = (d, None) \<and> d \<noteq> []
           \<and> dev = path_Join [devpath, d] \<and> (plain_seg d \<longrightarrow> dev = ''/dev/'' @ d))) l"
  using assms
proof (rule DoConn_do)
  fix r' s' assume d: "client_do (traced E) c dc (conn_fn (traced E) pl img) [] (w, []) = ((r', s'), dc', c', w', l)"
    and r: "r = (case r' of Some e \<Rightarrow> Inl e
      | None \<Rightarrow> if s' = [] then Inl (Errorf ''not found device on alcubierre_dev'' []) else Inr (path_Join [devpath, s']))"
  show ?thesis
    by (rule op_traceI [OF d]) (auto simp: conn_fn_def request_traced r path_Join_dev
        split: sum.splits prod.splits option.splits if_splits)
qed

text \<open>An image is reported ready exactly when the status request was answered with a body that
  decodes to a status that is absent, empty or \<open>clean\<close>; every failure on the way, also an
  undecodable body, reports it not ready. The HTTP status code plays no role.\<close>

theorem GetImageStatus_trace:
  assumes "GetImageStatus (traced E) c dc pl img (w, []) = (r, dc', c', w', l)"
  shows "op_trace c dc GET (JObj [(''image'', JStr img), (''pool'', JStr pl)]) (\<not> r)
     (\<lambda>a. r \<longleftrightarrow> (\<exists>resp s. a = Inr resp \<and> ToJSON_field ''status'' resp [] = (s, None)
        \<and> (s = [] \<or> s = ''clean''))) l"
  using assms
proof (rule GetImageStatus_do)
  fix r' s' assume d: "client_do (traced E) c dc (status_fn (traced E) pl img) [] (w, []) = ((r', s'), dc', c', w', l)"
    and r: "r \<longleftrightarrow> r' = None \<and> (s' = [] \<or> s' = ''clean'')"
  show ?thesis
    by (rule op_traceI [OF d]) (auto simp: status_fn_def request_traced r
        split: sum.splits prod.splits option.splits if_splits)
qed

text \<open>Disconnecting an image reports success exactly when the request was answered and the
  answer carries no error text; an answer that is not JSON counts as success.\<close>

theorem DoDisConn_trace:
  assumes "DoDisConn (traced E) c dc pl img (w, []) = (r, dc', c', w', l)"
  shows "op_trace c dc POST (op_body ''dev_disconnect'' [(''image'', img), (''pool'', pl)]) (r \<noteq> None)
     (\<lambda>a. r = None \<longleftrightarrow> (\<exists>resp. a = Inr resp \<and> fst (ToJSON_field ''error'' resp []) = [])) l"
  using assms
  by (rule DoDisConn_do) (erule op_traceI; auto simp: disconn_fn_def request_traced Let_def
      split: sum.splits prod.splits option.splits if_splits)

text \<open>Failing a node reports success exactly when the request was answered at all: neither the
  HTTP status code nor the body of the answer is looked at.\<close>

theorem FailNode_trace:
  assumes "FailNode (traced E) c dc node (w, []) = (r, dc', c', w', l)"
  shows "op_trace c dc POST (op_body ''node_fail'' [(''node'', node)]) (r \<noteq> None)
     (\<lambda>a. r = None \<longleftrightarrow> (\<exists>resp. a = Inr resp)) l"
  using assms
  by (rule FailNode_do) (erule op_traceI; auto simp: fail_fn_def request_traced split: sum.splits prod.splits)

section \<open>The interface\<close>

text \<open>What the node service relies on, for calls with the client's own configuration: the calls
  touch nothing but the alcubierre server and its URL attribute, a connection that succeeds ends with
  the answered request and gives the device path the answer names, and a disconnection that succeeds ends
  with a request whose answer reports no error.\<close>

definition names_dev :: "http_resp \<Rightarrow> string \<Rightarrow> bool" where
  "names_dev a dev \<longleftrightarrow> (\<exists>d. ToJSON_field ''alcubierre_dev'' a [] = (d, None) \<and> d \<noteq> [] \<and> dev = path_Join [devpath, d])"

definition reports_no_error :: "http_resp \<Rightarrow> bool" where
  "reports_no_error a \<longleftrightarrow> fst (ToJSON_field ''error'' a []) = []"

locale alcuber =
  fixes conn :: "'c \<Rightarrow> string \<Rightarrow> string \<Rightarrow> 'w \<times> event list \<Rightarrow> (error + string) \<times> 'c \<times> 'w \<times> event list"
    and disconn :: "'c \<Rightarrow> string \<Rightarrow> string \<Rightarrow> 'w \<times> event list \<Rightarrow> error option \<times> 'c \<times> 'w \<times> event list"
    and ready :: "'c \<Rightarrow> string \<Rightarrow> string \<Rightarrow> 'w \<times> event list \<Rightarrow> bool \<times> 'c \<times> 'w \<times> event list"
    and peers :: "'c \<Rightarrow> string \<Rightarrow> 'w \<times> event list \<Rightarrow> (error + string list) \<times> 'c \<times> 'w \<times> event list"
  assumes conn_grows: "conn c p i (w, l) = (r, c', w', l') \<Longrightarrow> grows store_event l l'"
    and disconn_grows: "disconn c p i (w, l) = (e, c', w', l') \<Longrightarrow> grows store_event l l'"
    and ready_grows: "ready c p i (w, l) = (b, c', w', l') \<Longrightarrow> grows store_event l l'"
    and peers_grows: "peers c n (w, l) = (ns, c', w', l') \<Longrightarrow> grows store_event l l'"
    and conn_dev: "conn c p i (w, l) = (Inr dev, c', w', l') \<Longrightarrow> dev \<noteq> []"
    and conn_last: "conn c p i (w, l) = (Inr dev, c', w', l') \<Longrightarrow> \<exists>q a. l' \<noteq> l \<and> last l' = EvHttp q (Inr a)
      \<and> Body q = op_body ''dev_connect'' [(''image'', i), (''pool'', p)] \<and> names_dev a dev"
    and disconn_last: "disconn c p i (w, l) = (None, c', w', l') \<Longrightarrow> \<exists>q a. l' \<noteq> l \<and> last l' = EvHttp q (Inr a)
      \<and> Body q = op_body ''dev_disconnect'' [(''image'', i), (''pool'', p)] \<and> reports_no_error a"
begin

text \<open>Checking the image, asking for the peers and connecting, in this order.\<close>

lemma attach_grows:
  assumes "ready c p i (w, l) = (b, c1, w1, l1)" "peers c1 n (w1, l1) = (ns, c2, w2, l2)"
    "conn c2 p i (w2, l2) = (r, c3, w3, l3)"
  shows "grows store_event l l3"
  using ready_grows [OF assms(1)] peers_grows [OF assms(2)] conn_grows [OF assms(3)]
  by (blast intro: grows_trans)

end

text \<open>The operations with a nil configuration.\<close>

definition nil_conf :: "(DynConf option \<Rightarrow> 'w \<Rightarrow> 'r \<times> DynConf option \<times> client \<times> 'w) \<Rightarrow> 'w \<Rightarrow> 'r \<times> client \<times> 'w" where
  "nil_conf f w = (case f None w of (r, _, c, w1) \<Rightarrow> (r, c, w1))"

lemma request_grows:
  "request (traced E) m buf au b (w, l) = (r, w', l') \<Longrightarrow> grows store_event l l'"
  by (auto simp: request_def env_defs)


lemma nil_conf_cases:
  assumes "nil_conf f w = (r, c, w1)"
  obtains d where "f None w = (r, d, c, w1)"
  using assms by (auto simp: nil_conf_def split: prod.splits)

lemma path_Join_devpath: "path_Join [devpath, d] \<noteq> []"
  by (simp add: path_Join_def path_Clean_def devpath_def Let_def)

lemma conn_ok_last:
  assumes "DoConn (traced E) c dc p i (w, l) = (Inr dev, dc', c', w', l')"
  shows "dev \<noteq> []" "\<exists>q a. l' \<noteq> l \<and> last l' = EvHttp q (Inr a)
      \<and> Body q = op_body ''dev_connect'' [(''image'', i), (''pool'', p)] \<and> names_dev a dev"
proof -
  from assms obtain s' where s: "client_do (traced E) c dc (conn_fn (traced E) p i) [] (w, l) = ((None, s'), dc', c', w', l')"
    and dev: "dev = path_Join [devpath, s']" "s' \<noteq> []"
    by (rule DoConn_do) (auto split: option.splits if_splits)
  show "dev \<noteq> []" by (simp add: dev path_Join_devpath)
  from s show "\<exists>q a. l' \<noteq> l \<and> last l' = EvHttp q (Inr a)
      \<and> Body q = op_body ''dev_connect'' [(''image'', i), (''pool'', p)] \<and> names_dev a dev"
    by (cases rule: client_do_cases)
      (use dev in \<open>auto simp: conn_fn_def request_def env_defs names_dev_def split: sum.splits prod.splits\<close>)
qed

lemma disconn_ok_last:
  assumes "DoDisConn (traced E) c dc p i (w, l) = (None, dc', c', w', l')"
  shows "\<exists>q a. l' \<noteq> l \<and> last l' = EvHttp q (Inr a)
      \<and> Body q = op_body ''dev_disconnect'' [(''image'', i), (''pool'', p)] \<and> reports_no_error a"
  using assms
proof (rule DoDisConn_do)
  fix s' assume "client_do (traced E) c dc (disconn_fn (traced E) p i) [] (w, l) = ((None, s'), dc', c', w', l')"
  then show ?thesis
    by (cases rule: client_do_cases)
      (auto simp: disconn_fn_def request_def env_defs reports_no_error_def Let_def split: sum.splits prod.splits if_splits)
qed

text \<open>A client that has a URL sends a request at once; one that has none asks for it first.\<close>

lemma client_do_known:
  assumes "dynConf c = Some d" "AlucbUrl d \<noteq> []" "url_Parse (AlucbUrl d) = Inr u"
  shows "client_do E c None fn s w = (case fn (dev_url c u) (auth_of c) d s w of (res, w2) \<Rightarrow> (res, None, c, w2))"
proof -
  have "c\<lparr>dynConf := Some d\<rparr> = c" using assms(1) by (cases c) simp
  with assms show ?thesis by (simp add: client_do_def dev_url_def auth_of_def split: prod.splits)
qed

lemma client_do_unknown:
  assumes "dynConf c = Some d" "AlucbUrl d = []"
  shows "client_do E c None fn s w = (case fillAlcubUrl E c d w of
      (Some e, d1, w1) \<Rightarrow> ((Some e, s), None, c\<lparr>dynConf := Some d1\<rparr>, w1)
    | (None, d1, w1) \<Rightarrow> (case url_Parse (AlucbUrl d1) of
        Inl e \<Rightarrow> ((Some e, s), None, c\<lparr>dynConf := Some d1\<rparr>, w1)
      | Inr u \<Rightarrow> (case fn (dev_url c u) (auth_of c) d1 s w1 of (res, w2) \<Rightarrow> (res, None, c\<lparr>dynConf := Some d1\<rparr>, w2))))"
  using assms by (simp add: client_do_def dev_url_def auth_of_def Let_def split: prod.splits option.splits sum.splits)

text \<open>After a connection the client has the URL it connected to, which is empty only if the attribute was
  read as empty.\<close>

lemma conn_ok_url:
  assumes "DoConn (traced E) c None p i (w, l) = (Inr dev, dc', c', w', l')"
  obtains d u a l1 where "dynConf c' = Some d" "url_Parse (AlucbUrl d) = Inr u" "conf c' = conf c"
    "l' = l @ l1 @ [EvHttp (sent c POST (op_body ''dev_connect'' [(''image'', i), (''pool'', p)]) u) (Inr a)]" "names_dev a dev"
    "AlucbUrl d = [] \<Longrightarrow> AlucbPool (conf c) \<noteq> [] \<and> (\<exists>o1. url_query c d o1 \<in> set l1 \<and> cmd_ok o1 \<and> Out o1 = [])"
proof -
  from assms obtain s' where s: "client_do (traced E) c None (conn_fn (traced E) p i) [] (w, l) = ((None, s'), dc', c', w', l')"
    and dev: "dev = path_Join [devpath, s']" "s' \<noteq> []"
    by (rule DoConn_do) (auto split: option.splits if_splits)
  from s show thesis
  proof (cases rule: client_do_cases)
    case (called d d' u w1 l1)
    have "dynConf c' = Some d'" using called(5,7) by (simp add: chosen_def)
    moreover obtain a where "l' = l1 @ [EvHttp (sent c POST (op_body ''dev_connect'' [(''image'', i), (''pool'', p)]) u) (Inr a)]" "names_dev a dev"
      using called(4) dev by (auto simp: conn_fn_def request_traced names_dev_def split: sum.splits prod.splits)
    moreover have "AlucbUrl d' = [] \<Longrightarrow> AlucbPool (conf c) \<noteq> [] \<and> (\<exists>o1. url_query c d' o1 \<in> set (drop (length l) l1) \<and> cmd_ok o1 \<and> Out o1 = [])"
      using called(2) by (auto simp: url_query_def)
    moreover have "l1 = l @ drop (length l) l1" using called(2) by auto
    ultimately show thesis using that [of d' u "drop (length l) l1" a] called(3,6) by (metis append_assoc)
  qed auto
qed

text \<open>A disconnection with that client is sent to the same place.\<close>

lemma disconn_sent:
  assumes "DoDisConn (traced E) c None p i (w, l) = (r, dc', c', w', l')" "dynConf c = Some d" "url_Parse (AlucbUrl d) = Inr u"
  shows "if AlucbUrl d \<noteq> [] then \<exists>an. l' = l @ [EvHttp (sent c POST (op_body ''dev_disconnect'' [(''image'', i), (''pool'', p)]) u) an]
    else AlucbPool (conf c) = [] \<or> (\<exists>o1. l' = l @ [url_query c d o1] \<and> (\<not> cmd_ok o1 \<or> (\<exists>e. url_Parse (Out o1) = Inl e)))
      \<or> (\<exists>o1 u2 an. l' = l @ [url_query c d o1, EvHttp (sent c POST (op_body ''dev_disconnect'' [(''image'', i), (''pool'', p)]) u2) an])"
proof -
  from assms(1) obtain s' where s: "client_do (traced E) c None (disconn_fn (traced E) p i) [] (w, l) = ((r, s'), dc', c', w', l')"
    by (rule DoDisConn_do)
  show ?thesis
  proof (cases "AlucbUrl d = []")
    case False
    with s show ?thesis
      by (auto simp: client_do_known [OF assms(2) _ assms(3)] disconn_fn_def request_traced Let_def split: prod.splits sum.splits)
  next
    case True
    obtain e d1 w1 l1 where f: "fillAlcubUrl (traced E) c d (w, l) = (e, d1, w1, l1)" by (metis prod_cases4)
    from fillAlcubUrl_traced [OF f] s True show ?thesis
      by (auto simp: client_do_unknown [OF assms(2)] f disconn_fn_def request_traced Let_def split: prod.splits sum.splits option.splits)
  qed
qed

interpretation al: alcuber
  "\<lambda>c p i. nil_conf (\<lambda>d. DoConn (traced E) c d p i)" "\<lambda>c p i. nil_conf (\<lambda>d. DoDisConn (traced E) c d p i)"
  "\<lambda>c p i. nil_conf (\<lambda>d. GetImageStatus (traced E) c d p i)" "\<lambda>c n. nil_conf (\<lambda>d. GetNode (traced E) c d n)" for E
  by unfold_locales (erule nil_conf_cases, erule ops_grow conn_ok_last disconn_ok_last)+


section \<open>Witnesses\<close>

definition demo_client :: client where
  "demo_client = \<lparr>conf = \<lparr>AlucbPool = ''vols'', ApiUrl = ''api'', User = [], Password = []\<rparr>,
     dynConf = Some \<lparr>AlucbUrl = ''http://10.0.0.1'', Nodename = ''node-1''\<rparr>\<rparr>"

lemma demo_url: "url_Parse ''http://10.0.0.1'' = Inr \<lparr>Scheme = ''http'', Host = ''10.0.0.1''\<rparr>"
  by (simp add: url_Parse_def url_parse_def ctl_byte_def cut_at_def parseAuthority_def parseHost_def
      unescape_host_def unescape_any_def digit_val_def last_index_def validOptionalPort_def host_plain_def is_alpha_def is_digit_def
      lower_char_def is_upper_def ToLower_def Let_def char_of_def bit_0)

lemmas demo_store = demo_client_def client_do_def demo_url request_def op_body_def defaultHeader_def
  env_defs demo_defs ToJSON_field_def field_step_def ToLower_def lower_char_def is_upper_def
  path_Join_def path_Clean_def devpath_def resource_def

lemma op_trace_cached:
  "op_trace c dc m b failed ans l \<Longrightarrow> chosen c dc = Some d \<Longrightarrow> AlucbUrl d \<noteq> [] \<Longrightarrow> \<not> failed \<Longrightarrow>
     \<exists>u a. l = [EvHttp (sent c m b u) a]"
  by (auto simp: op_trace_def split: if_splits)

lemma demo_chosen: "chosen demo_client None = Some \<lparr>AlucbUrl = ''http://10.0.0.1'', Nodename = ''node-1''\<rparr>"
  by (simp add: chosen_def demo_client_def)

lemma demo_DoConn:
  "fst (DoConn (traced demo_env) demo_client None ''rbd'' ''pvc-1'' (demo0, [])) = Inr ''/dev/rbd0''"
  by (simp add: DoConn_def conn_fn_def demo_store)


lemma demo_GetImageStatus:
  "fst (GetImageStatus (traced demo_env) demo_client None ''rbd'' ''pvc-1'' (demo0, []))"
  by (simp add: GetImageStatus_def status_fn_def demo_store)

lemma demo_DoDisConn:
  "fst (DoDisConn (traced demo_env) demo_client None ''rbd'' ''pvc-1'' (demo0, [])) = None"
  by (simp add: DoDisConn_def disconn_fn_def demo_store)

lemma demo_FailNode:
  "fst (FailNode (traced demo_env) demo_client None ''node-2'' (demo0, [])) = None"
  by (simp add: FailNode_def fail_fn_def demo_store)

theorem DoConn_trace_witness:
  "let x = DoConn (traced demo_env) demo_client None ''rbd'' ''pvc-1'' (demo0, []) in
     fst x = Inr ''/dev/rbd0'' \<and> (\<exists>u a. snd (snd (snd (snd x))) = [EvHttp (sent demo_client POST (op_body ''dev_connect'' [(''image'', ''pvc-1''), (''pool'', ''rbd'')]) u) a])"
  using op_trace_cached [OF DoConn_trace [OF pair5 [of "DoConn (traced demo_env) demo_client None ''rbd'' ''pvc-1'' (demo0, [])"]] demo_chosen] demo_DoConn
  by (simp add: Let_def)

theorem GetImageStatus_trace_witness:
  "let x = GetImageStatus (traced demo_env) demo_client None ''rbd'' ''pvc-1'' (demo0, []) in
     fst x \<and> (\<exists>u a. snd (snd (snd (snd x))) = [EvHttp (sent demo_client GET (JObj [(''image'', JStr ''pvc-1''), (''pool'', JStr ''rbd'')]) u) a])"
  using op_trace_cached [OF GetImageStatus_trace [OF pair5 [of "GetImageStatus (traced demo_env) demo_client None ''rbd'' ''pvc-1'' (demo0, [])"]] demo_chosen] demo_GetImageStatus
  by (simp add: Let_def)

theorem DoDisConn_trace_witness:
  "let x = DoDisConn (traced demo_env) demo_client None ''rbd'' ''pvc-1'' (demo0, []) in
     fst x = None \<and> (\<exists>u a. snd (snd (snd (snd x))) = [EvHttp (sent demo_client POST (op_body ''dev_disconnect'' [(''image'', ''pvc-1''), (''pool'', ''rbd'')]) u) a])"
  using op_trace_cached [OF DoDisConn_trace [OF pair5 [of "DoDisConn (traced demo_env) demo_client None ''rbd'' ''pvc-1'' (demo0, [])"]] demo_chosen] demo_DoDisConn
  by (simp add: Let_def)

theorem FailNode_trace_witness:
  "let x = FailNode (traced demo_env) demo_client None ''node-2'' (demo0, []) in
     fst x = None \<and> (\<exists>u a. snd (snd (snd (snd x))) = [EvHttp (sent demo_client POST (op_body ''node_fail'' [(''node'', ''node-2'')]) u) a])"
  using op_trace_cached [OF FailNode_trace [OF pair5 [of "FailNode (traced demo_env) demo_client None ''node-2'' (demo0, [])"]] demo_chosen] demo_FailNode
  by (simp add: Let_def)

end
