(* ===== verification/Controller.thy ===== *)
theory Controller
  imports Store
begin

text \<open>
  \<open>pkg/controlrpc/controller.go\<close>: the controller's own state and the actions its RPC handlers
  and the node reconciler call. \<open>Controller\<close> holds the store client, the resource manager, the
  image provisioner, the node manager's configuration and the dynamic configuration the notifications
  share; every action returns the state it leaves. Pointers to the node manager and back are the
  option field \<open>c_node\<close> and an argument.

  The facts (stated for the handlers in \<open>ControllerRpc\<close>): a volume whose resource cannot be created is rolled back; a resource is deleted only
  after its image is gone; notifying the alcubierre server about a node never succeeds, since the
  node information it reads is empty.
\<close>

section \<open>State\<close>

text \<open>The configuration of \<open>Node\<close> in \<open>nodeManage.go\<close>.\<close>

record NodeMgr =
  csilabel :: gomap
  halabel :: gomap
  filterKey :: string
  filtervalue :: string

datatype ctrl_cap = CREATE_DELETE_VOLUME | PUBLISH_UNPUBLISH_VOLUME

record Controller =
  c_store :: client
  c_alcub :: AlcubCon
  c_rbd :: Rbd
  c_node :: "NodeMgr option"
  c_caps :: "ctrl_cap list"
  c_dyn :: DynConf
  c_nodeID :: string

definition scParam :: string where
  "scParam = ''scname''"

definition getControllerServiceCapabilities :: "ctrl_cap list \<Rightarrow> ctrl_cap list" where
  "getControllerServiceCapabilities cl = fold (\<lambda>cs csc. csc @ [cs]) cl []"

definition NewController :: "string \<Rightarrow> client \<Rightarrow> AlcubCon \<Rightarrow> Rbd \<Rightarrow> Controller" where
  "NewController nodeid st al r =
     \<lparr>c_store = st, c_alcub = al, c_rbd = r, c_node = None,
      c_caps = getControllerServiceCapabilities [CREATE_DELETE_VOLUME, PUBLISH_UNPUBLISH_VOLUME],
      c_dyn = \<lparr>AlucbUrl = [], Nodename = []\<rparr>, c_nodeID = nodeid\<rparr>"

definition SetupNode :: "NodeMgr option \<Rightarrow> Controller \<Rightarrow> error + Controller" where
  "SetupNode nm c = (case nm of
     None \<Rightarrow> Inl (GoPanic ''node manager is nil'') | Some n \<Rightarrow> Inr (c\<lparr>c_node := Some n\<rparr>))"

section \<open>Notifying the alcubierre server\<close>

text \<open>The callback given to \<open>ForEach\<close>: failures are only logged.\<close>

definition stop_device :: "'w env \<Rightarrow> CsiAlcub \<Rightarrow> Controller \<times> 'w \<Rightarrow> Controller \<times> 'w" where
  "stop_device E a = (\<lambda>(c, w).
     if Pool (Spec a) = [] \<or> Image (Spec a) = [] then (c, w)
     else (case DevStop E (c_store c) (Some (c_dyn c)) (Pool (Spec a)) (Image (Spec a)) w of
         (_, dc, st, w1) \<Rightarrow> (c\<lparr>c_dyn := (case dc of Some d \<Rightarrow> d | None \<Rightarrow> c_dyn c), c_store := st\<rparr>, w1)))"

definition actionfn :: "'w env \<Rightarrow> string \<Rightarrow> bool \<Rightarrow> string \<Rightarrow> Controller \<Rightarrow> 'w \<Rightarrow> error option \<times> Controller \<times> 'w" where
  "actionfn E nodename fail url c w =
     (let c1 = c\<lparr>c_dyn := (c_dyn c)\<lparr>AlucbUrl := url\<rparr>\<rparr> in
      if fail then
        (case FailNode E (c_store c1) (Some (c_dyn c1)) nodename w of
           (err, dc, st, w1) \<Rightarrow>
             (err, c1\<lparr>c_dyn := (case dc of Some d \<Rightarrow> d | None \<Rightarrow> c_dyn c1), c_store := st\<rparr>, w1))
      else if str_index url nodename = None then (None, c1, w)
      else AlcubCon_ForEach E (stop_device E) c1 w)"

text \<open>The loop over the zones; the first component is \<open>success\<close>. The collected error texts
  are only logged.\<close>

fun zones_loop :: "'w env \<Rightarrow> string \<Rightarrow> bool \<Rightarrow> string list \<Rightarrow> Controller \<Rightarrow> 'w \<Rightarrow> bool \<times> Controller \<times> 'w" where
  "zones_loop E nodename fail [] c w = (False, c, w)"
| "zones_loop E nodename fail (v # vs) c w =
     (if v = [] then zones_loop E nodename fail vs c w
      else (case actionfn E nodename fail v c w of
          (Some err, c1, w1) \<Rightarrow> zones_loop E nodename fail vs c1 w1
        | (None, c1, w1) \<Rightarrow> (True, c1, w1)))"

definition notidyAlcub ::
    "'w env \<Rightarrow> string \<Rightarrow> Nodeinfo \<Rightarrow> bool \<Rightarrow> Controller \<Rightarrow> 'w \<Rightarrow> error option \<times> Controller \<times> 'w" where
  "notidyAlcub E nodename zone fail c w =
     (let c1 = c\<lparr>c_dyn := (c_dyn c)\<lparr>Nodename := nodename\<rparr>\<rparr> in
      case zones_loop E nodename fail (Zones zone) c1 w of
        (success, c2, w1) \<Rightarrow>
          (if \<not> success then Some (Errorf ''notify alcub server failed!'' []) else None, c2, w1))"

text \<open>The blacklist calls are commented out in the source; the flags remain without effect.\<close>

definition StopNode :: "'w env \<Rightarrow> string \<Rightarrow> bool \<Rightarrow> Controller \<Rightarrow> 'w \<Rightarrow> error option \<times> Controller \<times> 'w" where
  "StopNode E nodename addblack c w = (case GetNodeInfo nodename (c_alcub c) of
     None \<Rightarrow> (Some (Errorf ''not found'' []), c, w)
   | Some node \<Rightarrow> notidyAlcub E nodename node True c w)"

definition StartNode :: "'w env \<Rightarrow> string \<Rightarrow> bool \<Rightarrow> Controller \<Rightarrow> 'w \<Rightarrow> error option \<times> Controller \<times> 'w" where
  "StartNode E nodename rmblack c w = (case GetNodeInfo nodename (c_alcub c) of
     None \<Rightarrow> (Some (Errorf ''not found'' []), c, w)
   | Some node \<Rightarrow> notidyAlcub E nodename node False c w)"

section \<open>Volumes\<close>

definition deleteVolume :: "'w env \<Rightarrow> CsiAlcub \<Rightarrow> Controller \<Rightarrow> 'w \<Rightarrow> error option \<times> Controller \<times> 'w" where
  "deleteVolume E alcub c w =
     (case Rbd_DeleteImage E (c_rbd c) (RbdSc (Spec alcub)) (Image (Spec alcub)) w of
        (Some err, r1, w1) \<Rightarrow> (Some err, c\<lparr>c_rbd := r1\<rparr>, w1)
      | (None, r1, w1) \<Rightarrow>
          (case AlcubCon_Delete E (Name (Meta alcub)) w1 of (err, w2) \<Rightarrow> (err, c\<lparr>c_rbd := r1\<rparr>, w2)))"

text \<open>The deferred removal of the image runs when the resource could not be created; its outcome is
  ignored.\<close>

definition createVolume ::
    "'w env \<Rightarrow> gomap \<Rightarrow> string \<Rightarrow> string \<Rightarrow> int64 \<Rightarrow> Controller \<Rightarrow> 'w
      \<Rightarrow> (CsiAlcubSpec option \<times> error option) \<times> Controller \<times> 'w" where
  "createVolume E params name uuid bytesize c w =
     (if params = None then ((None, Some (Errorf ''params is nil'' [])), c, w)
      else (case gm_get params scParam of
          None \<Rightarrow> ((None, Some (Errorf ''not found %s in params'' [AStr scParam])), c, w)
        | Some v \<Rightarrow>
            (case Rbd_CreateImage E (c_rbd c) v name bytesize w of
               (Inl err, r1, w1) \<Rightarrow> ((None, Some err), c\<lparr>c_rbd := r1\<rparr>, w1)
             | (Inr volume, r1, w1) \<Rightarrow>
                 (let spec = \<lparr>Uuid = uuid, Capacity = bytesize, RbdSc = v, Pool = vol_Pool volume,
                              Image = vol_Image volume\<rparr>
                  in case AlcubCon_Create E name (Some spec) (c_alcub c) w1 of
                       (None, al1, w2) \<Rightarrow> ((Some spec, None), c\<lparr>c_rbd := r1, c_alcub := al1\<rparr>, w2)
                     | (Some err, al1, w2) \<Rightarrow>
                         (case Rbd_DeleteImage E r1 v name w2 of
                            (_, r2, w3) \<Rightarrow> ((Some spec, Some err), c\<lparr>c_rbd := r2, c_alcub := al1\<rparr>, w3))))))"

section \<open>Deleting\<close>

lemma Delete_log:
  assumes "AlcubCon_Delete (traced E) n (w, l) = (r, w', l')"
  shows "\<exists>g rs. (case g of Inl e \<Rightarrow> rs = [] \<and> r = Some e | Inr a \<Rightarrow> rs \<noteq> [] \<and> length rs \<le> 5)
    \<and> l' = l @ EvGet n g # map (case g of Inr a \<Rightarrow> EvDelete a) rs"
proof -
  obtain g w1 where g: "kube_get E n w = (g, w1)" by (cases "kube_get E n w")
  show ?thesis
  proof (cases g)
    case (Inl e)
    with assms g show ?thesis by (auto simp: AlcubCon_Delete_def env_defs intro!: exI [of _ g])
  next
    case (Inr a)
    have "RetryOnConflict DefaultRetry (logged (EvDelete a) (kube_delete E a)) (w1, l @ [EvGet n (Inr a)]) = (r, w', l')"
      using assms g Inr by (simp add: AlcubCon_Delete_def env_defs)
    then obtain rs where "l' = (l @ [EvGet n (Inr a)]) @ map (EvDelete a) rs" "rs \<noteq> []" "length rs \<le> 5"
      by (rule retry_update_log)
    then show ?thesis by (intro exI [of _ "Inr a"] exI [of _ rs]) auto
  qed
qed

lemma deleteVolume_log:
  assumes "deleteVolume (traced E) a c (w, l0) = (r, c', w', l)"
  shows "(r \<noteq> None \<and> grows image_event l0 l) \<or>
    (\<exists>lc cs g ds. l = l0 @ lc @ cs @ EvGet (Name (Meta a)) g # ds \<and> list_all class_event lc
       \<and> removed (Image (Spec a)) cs \<and> length ds \<le> 5
       \<and> (\<forall>e \<in> set ds. \<exists>b res. g = Inr b \<and> e = EvDelete b res))"
proof -
  obtain x r1 w1 l1 where d: "Rbd_DeleteImage (traced E) (c_rbd c) (RbdSc (Spec a)) (Image (Spec a)) (w, l0) = (x, r1, w1, l1)"
    by (metis prod_cases4)
  obtain lc cs where lc: "l1 = l0 @ lc @ cs" "list_all class_event lc" "list_all image_event cs"
    "x = None \<longrightarrow> removed (Image (Spec a)) cs"
    using Rbd_DeleteImage_log [OF d] by auto
  show ?thesis
  proof (cases x)
    case (Some e)
    have "list_all image_event lc" using lc(2) by (auto simp: list_all_iff)
    with assms d lc Some show ?thesis by (auto simp: deleteVolume_def)
  next
    case None
    then have "AlcubCon_Delete (traced E) (Name (Meta a)) (w1, l1) = (r, w', l)"
      using assms d by (auto simp: deleteVolume_def split: prod.splits)
    from Delete_log [OF this] obtain g rs where
      g: "case g of Inl e \<Rightarrow> rs = [] \<and> r = Some e | Inr a \<Rightarrow> rs \<noteq> [] \<and> length rs \<le> 5"
      "l = l1 @ EvGet (Name (Meta a)) g # map (case g of Inr a \<Rightarrow> EvDelete a) rs" by blast
    have "length rs \<le> 5 \<and> (\<forall>e \<in> set (map (case g of Inr a \<Rightarrow> EvDelete a) rs). \<exists>b res. g = Inr b \<and> e = EvDelete b res)"
      using g(1) by (cases g) auto
    with lc None g show ?thesis
      by (intro disjI2 exI [of _ lc] exI [of _ cs] exI [of _ g] exI) auto
  qed
qed

section \<open>Creating\<close>

lemma createVolume_cases:
  assumes "createVolume (traced E) params n u b c (w, l0) = ((sp, r), c', w', l')"
  obtains (early) l where "r \<noteq> None" "l' = l0 @ l" "\<not> created n l"
  | (made) v lc opts z o1 spec w1 r1 w2 l2 where "gm_get params scParam = Some v" "list_all class_event lc"
      "cmd_ok o1" "0 < z" "sint b \<le> z * 2^20"
      "spec = \<lparr>Uuid = u, Capacity = b, RbdSc = v, Pool = opt_pool opts, Image = n\<rparr>" "sp = Some spec"
      "AlcubCon_Create (traced E) n (Some spec) (c_alcub c)
         (w1, l0 @ lc @ [EvCmd ''rbd'' (create_args opts n (itoa (nat z))) o1]) = (r, c_alcub c', w2, l2)"
      "if r = None then (w', l') = (w2, l2) else \<exists>y r2. Rbd_DeleteImage (traced E) r1 v n (w2, l2) = (y, r2, w', l')"
      "rbd_client r1"
proof (cases "gm_get params scParam")
  case None
  with assms early [of "[]"] show thesis by (auto simp: createVolume_def created_def split: if_splits)
next
  case (Some v)
  then have p: "params \<noteq> None" by (auto simp: gm_get_def gm_items_def split: option.splits)
  obtain x r1 w1 l1 where i: "Rbd_CreateImage (traced E) (c_rbd c) v n b (w, l0) = (x, r1, w1, l1)"
    by (metis prod_cases4)
  from Rbd_CreateImage_log [OF i] obtain lc cs where lc: "l1 = l0 @ lc @ cs" "list_all class_event lc"
    and x: "case x of Inl _ \<Rightarrow> list_all image_event cs \<and> \<not> created n cs
       | Inr vl \<Rightarrow> \<exists>opts z o1. cs = [EvCmd ''rbd'' (create_args opts n (itoa (nat z))) o1] \<and> cmd_ok o1
           \<and> 0 < z \<and> sint b \<le> z * 2^20 \<and> (z - 1) * 2^20 < sint b
           \<and> vl = \<lparr>vol_Pool = opt_pool opts, vol_Image = n\<rparr>" by blast
  show thesis
  proof (cases x)
    case (Inl e)
    with assms Some p i lc x early [of "lc @ cs"] show thesis by (auto simp: createVolume_def)
  next
    case (Inr vl)
    then obtain opts z o1 where cs: "cs = [EvCmd ''rbd'' (create_args opts n (itoa (nat z))) o1]" "cmd_ok o1"
      "0 < z" "sint b \<le> z * 2^20" "vl = \<lparr>vol_Pool = opt_pool opts, vol_Image = n\<rparr>" using x by auto
    define spec where "spec = \<lparr>Uuid = u, Capacity = b, RbdSc = v, Pool = opt_pool opts, Image = n\<rparr>"
    obtain e al1 w2 l2 where cr: "AlcubCon_Create (traced E) n (Some spec) (c_alcub c) (w1, l1) = (e, al1, w2, l2)"
      by (metis prod_cases4)
    obtain y r2 w3 l3 where dl: "Rbd_DeleteImage (traced E) r1 v n (w2, l2) = (y, r2, w3, l3)" by (metis prod_cases4)
    have "sp = Some spec" "r = e" "c_alcub c' = al1"
      "if r = None then (w', l') = (w2, l2) else (w', l') = (w3, l3)"
      using assms Some p i Inr cs(5) cr dl
      by (auto simp: createVolume_def spec_def [symmetric] split: option.splits)
    moreover have "rbd_client r1" using CreateImage_client [of "traced E"] i Inr by blast
    ultimately show thesis using dl cr made [OF Some lc(2) cs(2-4) spec_def, of w1 w2 l2 r1]
      unfolding lc(1) cs(1) by (auto split: if_splits)
  qed
qed

text \<open>The calls of a creation that failed although the image was made: the creation of the image, the
  resource that was refused unless its identifier was taken, and then the removal of that image of the
  class the volume was asked for in.\<close>

definition undone :: "'w env \<Rightarrow> string \<Rightarrow> string \<Rightarrow> event list \<Rightarrow> event list \<Rightarrow> bool" where
  "undone E v n l0 l \<longleftrightarrow> (\<exists>lc opts sz o1 cr ds. list_all class_event lc \<and> cmd_ok o1
     \<and> (cr = [] \<or> (\<exists>spec e. cr = [EvCreate (newobj n spec) (Some e)]))
     \<and> l = lc @ EvCmd ''rbd'' (create_args opts n sz) o1 # cr @ ds
     \<and> removal_tried E v n (l0 @ lc @ EvCmd ''rbd'' (create_args opts n sz) o1 # cr) ds)"

lemma Create_refused_log:
  assumes "AlcubCon_Create (traced E) n (Some spec) al (w, l) = (Some e, al', w', l')"
  shows "\<exists>cr. l' = l @ cr \<and> (cr = [] \<or> (\<exists>e. cr = [EvCreate (newobj n spec) (Some e)]))"
  using assms by (auto simp: AlcubCon_Create_def env_defs split: option.splits prod.splits if_splits)

lemma createVolume_log:
  assumes "createVolume (traced E) params n u b c (w, l0) = ((sp, r), c', w', l')" "n \<noteq> []"
  shows "\<exists>l. l' = l0 @ l \<and> (case r of
     None \<Rightarrow> (\<exists>lc opts z o1 v. gm_get params scParam = Some v \<and> list_all class_event lc
         \<and> sp = Some \<lparr>Uuid = u, Capacity = b, RbdSc = v, Pool = opt_pool opts, Image = n\<rparr>
         \<and> l = lc @ [EvCmd ''rbd'' (create_args opts n (itoa (nat z))) o1, EvCreate (newobj n (the sp)) None]
         \<and> cmd_ok o1 \<and> 0 < z \<and> sint b \<le> z * 2^20)
       \<and> getNameByuuid u (c_alcub c') = n
   | Some e \<Rightarrow> created n l \<longrightarrow> (\<exists>v. gm_get params scParam = Some v \<and> undone E v n l0 l) \<and> getNameByuuid u (c_alcub c') \<noteq> n)"
  using assms(1)
proof (cases rule: createVolume_cases)
  case (early l)
  then show ?thesis by auto
next
  case (made v lc opts z o1 spec w1 r1 w2 l2)
  let ?cs = "[EvCmd ''rbd'' (create_args opts n (itoa (nat z))) o1]"
  show ?thesis
  proof (cases r)
    case None
    from made(8) have "getNameByuuid u (c_alcub c') = n" "l2 = l0 @ lc @ ?cs @ [EvCreate (newobj n spec) None]"
      by (rule Create_cases; use None made(6) in \<open>simp add: env_defs\<close>)+
    then show ?thesis unfolding None option.case
      by (intro conjI exI [of _ lc] exI [of _ opts] exI [of _ z] exI [of _ o1] exI [of _ v]
          exI [of _ "lc @ ?cs @ [EvCreate (newobj n spec) None]"]) (use None made in \<open>simp_all\<close>)
  next
    case (Some e)
    from made(8) have nn: "getNameByuuid u (c_alcub c') \<noteq> n"
      by (rule Create_cases) (use Some made(6) assms(2) in simp_all)
    obtain cr where cr: "l2 = l0 @ lc @ ?cs @ cr" "cr = [] \<or> (\<exists>e. cr = [EvCreate (newobj n spec) (Some e)])"
      using Create_refused_log [OF made(8) [unfolded Some]] by auto
    obtain y r2 where dl: "Rbd_DeleteImage (traced E) r1 v n (w2, l2) = (y, r2, w', l')" using made(9) Some by auto
    from Rbd_DeleteImage_tried [OF dl made(10)] obtain ds where ds: "l' = l2 @ ds" "removal_tried E v n l2 ds" by blast
    have "undone E v n l0 (lc @ ?cs @ cr @ ds)"
      unfolding undone_def using made(2,3) cr ds(2)
      by (intro exI [of _ lc] exI [of _ opts] exI [of _ "itoa (nat z)"] exI [of _ o1] exI [of _ cr] exI [of _ ds]) auto
    with ds(1) cr(1) nn Some made(1) show ?thesis by simp
  qed
qed

section \<open>Notifications\<close>

lemma StopNode_fails: "\<exists>e c'. StopNode E n b c w = (Some e, c', w)"
  by (auto simp: StopNode_def notidyAlcub_def GetNodeInfo_def Nodeinfo_DeepCopy_def Let_def split: option.splits)

lemma StartNode_fails: "\<exists>e c'. StartNode E n b c w = (Some e, c', w)"
  by (auto simp: StartNode_def notidyAlcub_def GetNodeInfo_def Nodeinfo_DeepCopy_def Let_def split: option.splits)

text \<open>C33: Stopping and starting a node always fail and never call anything: the node information
  they work on has no zones, so no alcubierre server is ever notified.\<close>

theorem notify_never_succeeds:
  "\<exists>e c1. StopNode E n b c w = (Some e, c1, w) \<and> (\<exists>e' c2. StartNode E n b' c w = (Some e', c2, w))"
  using StopNode_fails [of E n b c w] StartNode_fails [of E n b' c w] by blast

section \<open>Witnesses\<close>

definition demo_ctl :: Controller where
  "demo_ctl = (NewController ''node-1'' demo_client demo_al NewRbd)\<lparr>c_node := Some \<lparr>
     csilabel = Some [(''csi-alcub'', ''enable'')], halabel = None,
     filterKey = ''alcubierre-manager-%N'', filtervalue = ''enabled''\<rparr>\<rparr>"

lemma demo_monitor: "SplitHostPort ''10.0.0.9:6789'' = (''10.0.0.9'', ''6789'')" "ParseIP ''10.0.0.9'' \<noteq> None"
  "JoinHostPort ''10.0.0.9'' ''6789'' = ''10.0.0.9:6789''"
  by (simp_all add: SplitHostPort_def net_SplitHostPort_def last_colon_def JoinHostPort_def net_JoinHostPort_def
      ParseIP_def parseIPv4_def dtoi_def digit_val_def str_Contains_def Let_def)

lemma demo_class:
  "class_options (traced demo_env) NewRbd sc (w, l) =
     (Inr (demo_opts\<lparr>opt_userID := ''admin''\<rparr>), NewRbd\<lparr>dnsip := ''10.96.0.10''\<rparr>, w,
      l @ [EvSc sc (Inr (Some [(''monitors'', ''10.0.0.9:6789''), (''adminSecretName'', ''ceph'')])),
           EvDns ''10.96.0.10'', EvSecret ''default'' ''ceph'' (Inr (Some [(''key'', ''s3cret'')]))])"
  using demo_monitor
  by (simp add: class_options_def NewRbd_def env_defs demo_env_def parseParameters_def gm_items_def
      parse_init_def param_step_def param_monitors_def parse_finish_def parsePVSecret_def demo_opts_def
      ToLower_def lower_char_def is_upper_def char_of_def bit_0 rbd_consts Let_def)

definition demo_params_sc :: gomap where
  "demo_params_sc = Some [(''scname'', ''general'')]"

end
