(* ===== verification/NodeManage.thy ===== *)
theory NodeManage
  imports Controller
begin

text \<open>
  \<open>pkg/controlrpc/nodeManage.go\<close>: the reconciler of Kubernetes nodes. \<open>NodeMgr\<close> (in
  \<open>Controller\<close>) is its configuration. An \<open>updateNodeFn\<close> is a function on node objects that
  may panic, since assigning into a nil label or annotation map does; a panic of the deferred update
  is the panic of \<open>Reconcile\<close>.

  The facts: the label controller reaches in one update a state it leaves alone, with exactly the
  labels the filter asks for; an update always sends an object read for that very attempt; the
  deprecated not-ready controller never changes a node.
\<close>

section \<open>Definitions\<close>

type_synonym updateNodeFn = "kNode \<Rightarrow> error + kNode"

definition UnreachableTaintTemplate :: Taint where
  "UnreachableTaintTemplate = \<lparr>Key = ''node.kubernetes.io/unreachable'', Effect = ''NoSchedule''\<rparr>"

definition csiBlackKv :: gomap where
  "csiBlackKv = Some [(''csi-alcub.io/maintain'', ''true'')]"

definition tempNodeKey :: string where
  "tempNodeKey = ''%N''"

fun inMaps_loop :: "gomap \<Rightarrow> (string \<times> string) list \<Rightarrow> bool" where
  "inMaps_loop src [] = True"
| "inMaps_loop src ((k, v) # kvs) = (case gm_get src k of
     Some v0 \<Rightarrow> if v0 = v then inMaps_loop src kvs else False
   | None \<Rightarrow> False)"

definition inMaps :: "gomap \<Rightarrow> gomap \<Rightarrow> bool" where
  "inMaps src kv = (if kv = None then True else if src = None then False else inMaps_loop src (gm_items kv))"

definition tempReplace :: "string \<Rightarrow> (string \<times> string) list \<Rightarrow> string" where
  "tempReplace src replaces = fold (\<lambda>(k, v) tmp. ReplaceAll tmp k v) replaces src"

definition NodeMgr_New :: "string \<Rightarrow> string \<Rightarrow> gomap \<Rightarrow> gomap \<Rightarrow> error + NodeMgr" where
  "NodeMgr_New fkey fvalue ha csi =
     (if csi = None then Inl (Errorf ''label must not be nil!'' [])
      else Inr \<lparr>csilabel = csi, halabel = ha, filterKey = fkey, filtervalue = fvalue\<rparr>)"

fun labels_loop :: "NodeMgr \<Rightarrow> string \<Rightarrow> string \<Rightarrow> (string \<times> string) list \<Rightarrow> bool \<times> bool \<Rightarrow> bool \<times> bool" where
  "labels_loop n key val [] acc = acc"
| "labels_loop n key val ((k, v) # kvs) (alcubExist, nodeLabelExist) =
     labels_loop n key val kvs
       (alcubExist \<or> (key = k \<and> val = v), nodeLabelExist \<or> gm_get (csilabel n) k \<noteq> None)"

definition labelController :: "NodeMgr \<Rightarrow> gomap \<Rightarrow> string \<Rightarrow> updateNodeFn option" where
  "labelController n labels nodename =
     (if labels = None then None
      else
        (let tmpmap = [(tempNodeKey, nodename)];
             key = tempReplace (filterKey n) tmpmap;
             val = tempReplace (filtervalue n) tmpmap;
             (alcubExist, nodeLabelExist) = labels_loop n key val (gm_items labels) (False, False)
         in if \<not> alcubExist then
              (if \<not> nodeLabelExist then None
               else Some (\<lambda>node. Inr (node\<lparr>nLabels :=
                      del_all gm_delete (map fst (gm_items (csilabel n))) (nLabels node)\<rparr>)))
            else if nodeLabelExist then None
            else Some (\<lambda>node. case put_all gm_set (gm_items (csilabel n)) (nLabels node) of
                   Inl e \<Rightarrow> Inl e | Inr m \<Rightarrow> Inr (node\<lparr>nLabels := m\<rparr>))))"

definition notreadyController ::
    "'w env \<Rightarrow> NodeMgr \<Rightarrow> kNode \<Rightarrow> Controller \<Rightarrow> 'w \<Rightarrow> updateNodeFn option \<times> Controller \<times> 'w" where
  "notreadyController E n node c w =
     (let notready = Unschedulable node;
          hamaintain = inMaps (nLabels node) (halabel n);
          csiblack = inMaps (nAnnotations node) csiBlackKv
      in if notready \<and> hamaintain then
           (if csiblack then (None, c, w)
            else (case StopNode E (nName node) (\<not> inMaps (nLabels node) (halabel n)) c w of
                (Some err, c1, w1) \<Rightarrow> (None, c1, w1)
              | (None, c1, w1) \<Rightarrow>
                  (Some (\<lambda>node. case put_all gm_set (gm_items csiBlackKv) (nAnnotations node) of
                     Inl e \<Rightarrow> Inl e | Inr m \<Rightarrow> Inr (node\<lparr>nAnnotations := m\<rparr>)), c1, w1)))
         else if csiblack then
           (let isrecover = (\<not> (notready \<or> hamaintain)
                \<and> \<not> list_ex (\<lambda>taint. MatchTaint taint UnreachableTaintTemplate) (Taints node))
            in if isrecover then
                 (case StartNode E (nName node) (\<not> inMaps (nLabels node) (halabel n)) c w of
                    (Some err, c1, w1) \<Rightarrow> (None, c1, w1)
                  | (None, c1, w1) \<Rightarrow>
                      (Some (\<lambda>node. Inr (node\<lparr>nAnnotations :=
                         del_all gm_delete (map fst (gm_items csiBlackKv)) (nAnnotations node)\<rparr>)), c1, w1))
               else (None, c, w))
         else (None, c, w))"

fun apply_fns :: "updateNodeFn list \<Rightarrow> kNode \<Rightarrow> error + kNode" where
  "apply_fns [] node = Inr node"
| "apply_fns (f # fs) node = (case f node of Inl e \<Rightarrow> Inl e | Inr node1 \<Rightarrow> apply_fns fs node1)"

definition update_once :: "'w env \<Rightarrow> string \<Rightarrow> updateNodeFn list \<Rightarrow> 'w \<Rightarrow> error option \<times> 'w" where
  "update_once E name fns w = (case node_get E name w of
     (Inl err, w1) \<Rightarrow> (Some err, w1)
   | (Inr original, w1) \<Rightarrow> (case apply_fns fns original of
       Inl e \<Rightarrow> (Some e, w1)
     | Inr node \<Rightarrow> node_update E node w1))"

definition updateNode :: "'w env \<Rightarrow> string \<Rightarrow> updateNodeFn list \<Rightarrow> 'w \<Rightarrow> error option \<times> 'w" where
  "updateNode E name fns w = RetryOnConflict DefaultRetry (update_once E name fns) w"

text \<open>The body of \<open>Reconcile\<close> without its deferred call: the result and the updates.\<close>

definition reconcile_fns :: "NodeMgr \<Rightarrow> error + kNode \<Rightarrow> error option \<times> updateNodeFn list" where
  "reconcile_fns n g =
     (let err = (case g of Inl e \<Rightarrow> Some e | Inr _ \<Rightarrow> None);
          node = (case g of Inl _ \<Rightarrow> zero_node | Inr x \<Rightarrow> x)
      in if (case err of Some e \<Rightarrow> IsNotFound e | None \<Rightarrow> False) then (None, [])
         else if nDeletionTimestamp node \<noteq> None then (None, [])
         else (err, case labelController n (nLabels node) (nName node) of None \<Rightarrow> [] | Some fn \<Rightarrow> [fn]))"

definition Node_Reconcile :: "'w env \<Rightarrow> NodeMgr \<Rightarrow> string \<Rightarrow> 'w \<Rightarrow> error option \<times> 'w" where
  "Node_Reconcile E n name w = (case node_get E name w of
     (g, w1) \<Rightarrow>
       (let (res, fns) = reconcile_fns n g in
        case updateNode E name fns w1 of
          (Some (GoPanic m), w2) \<Rightarrow> (Some (GoPanic m), w2)
        | (_, w2) \<Rightarrow> (res, w2)))"

definition NotReadyNodes :: "'w env \<Rightarrow> 'w \<Rightarrow> string list \<times> 'w" where
  "NotReadyNodes E w = (case node_list E w of
     (Inl _, w1) \<Rightarrow> ([], w1)
   | (Inr items, w1) \<Rightarrow>
       (fold (\<lambda>node ret. fold (\<lambda>taint ret.
           if MatchTaint taint UnreachableTaintTemplate then ret @ [nName node] else ret) (Taints node) ret)
         items [], w1))"

definition LabledNodes :: "'w env \<Rightarrow> NodeMgr \<Rightarrow> 'w \<Rightarrow> string list \<times> 'w" where
  "LabledNodes E n w = (case node_list E w of
     (Inl _, w1) \<Rightarrow> ([], w1)
   | (Inr items, w1) \<Rightarrow>
       (fold (\<lambda>node ret. if inMaps (nLabels node) (csilabel n) then ret @ [nName node] else ret) items [], w1))"

section \<open>Labels\<close>

lemma inMaps_loop_iff: "inMaps_loop src kvs \<longleftrightarrow> (\<forall>(k, v) \<in> set kvs. gm_get src k = Some v)"
  by (induction kvs) (auto split: option.splits if_splits)

lemma inMaps_iff: "inMaps src kv \<longleftrightarrow> kv = None \<or> (src \<noteq> None \<and> (\<forall>(k, v) \<in> set (gm_items kv). gm_get src k = Some v))"
  by (auto simp: inMaps_def inMaps_loop_iff)

lemma labels_loop_eq:
  "labels_loop n key val kvs (a, b) =
     (a \<or> (key, val) \<in> set kvs, b \<or> (\<exists>(k, v) \<in> set kvs. gm_get (csilabel n) k \<noteq> None))"
  by (induction kvs arbitrary: a b) auto

text \<open>What the filter asks of a node's labels.\<close>

definition filter_key :: "NodeMgr \<Rightarrow> string \<Rightarrow> string" where
  "filter_key n name = tempReplace (filterKey n) [(tempNodeKey, name)]"

definition wanted :: "NodeMgr \<Rightarrow> gomap \<Rightarrow> string \<Rightarrow> bool" where
  "wanted n labels name \<longleftrightarrow>
     gm_get labels (filter_key n name) = Some (tempReplace (filtervalue n) [(tempNodeKey, name)])"

definition has_csi_key :: "NodeMgr \<Rightarrow> gomap \<Rightarrow> bool" where
  "has_csi_key n labels \<longleftrightarrow> (\<exists>k. gm_get labels k \<noteq> None \<and> gm_get (csilabel n) k \<noteq> None)"

lemma ex_key: "gm_wf m \<Longrightarrow> (\<exists>(k, v) \<in> set (gm_items m). P k) \<longleftrightarrow> (\<exists>k. gm_get m k \<noteq> None \<and> P k)"
  by (auto simp: gm_items_get split: prod.splits) (metis gm_items_get case_prodI)

lemma labelController_eq:
  assumes "gm_wf labels"
  shows "labelController n labels name =
    (if labels = None \<or> wanted n labels name = has_csi_key n labels then None
     else if wanted n labels name
     then Some (\<lambda>node. case put_all gm_set (gm_items (csilabel n)) (nLabels node) of
                   Inl e \<Rightarrow> Inl e | Inr m \<Rightarrow> Inr (node\<lparr>nLabels := m\<rparr>))
     else Some (\<lambda>node. Inr (node\<lparr>nLabels :=
                      del_all gm_delete (map fst (gm_items (csilabel n))) (nLabels node)\<rparr>)))"
proof -
  have "labels_loop n (filter_key n name) (tempReplace (filtervalue n) [(tempNodeKey, name)]) (gm_items labels)
      (False, False) = (wanted n labels name, has_csi_key n labels)"
    using ex_key [OF assms, of "\<lambda>k. gm_get (csilabel n) k \<noteq> None"]
    by (simp only: labels_loop_eq wanted_def has_csi_key_def gm_items_get [OF assms] simp_thms)
  then show ?thesis by (auto simp: labelController_def Let_def filter_key_def)
qed

lemma label_step:
  assumes "labelController n (nLabels node) (nName node) = Some f"
    and "gm_wf (nLabels node)" "gm_wf (csilabel n)" "gm_items (csilabel n) \<noteq> []"
  shows "\<exists>node'. f node = Inr node' \<and> nName node' = nName node
    \<and> labelController n (nLabels node') (nName node') = None
    \<and> (\<forall>k. gm_get (nLabels node') k =
        (case gm_get (csilabel n) k of None \<Rightarrow> gm_get (nLabels node) k
         | Some v \<Rightarrow> if wanted n (nLabels node) (nName node) then Some v else None))"
proof -
  let ?L = "nLabels node" and ?N = "nName node"
  from assms(1,2) have nn: "?L \<noteq> None" and diff: "wanted n ?L ?N \<noteq> has_csi_key n ?L"
    by (auto simp: labelController_eq split: if_splits)
  have dk: "distinct (map fst (gm_items (csilabel n)))" using assms(3) by (simp add: gm_wf_def)
  have ck: "k \<in> set (map fst (gm_items (csilabel n))) \<longleftrightarrow> gm_get (csilabel n) k \<noteq> None" for k
    by (simp add: gm_get_def map_of_eq_None_iff)
  obtain k0 where k0: "gm_get (csilabel n) k0 \<noteq> None"
    using assms(4) ck by (metis list.set_intros(1) list.simps(9) neq_Nil_conv)
  show ?thesis
  proof (cases "wanted n ?L ?N")
    case True
    obtain kvs where "?L = Some kvs" using nn by auto
    then obtain m where m: "put_all gm_set (gm_items (csilabel n)) ?L = Inr m" "m \<noteq> None"
      using put_all_gm_set_Some [of "gm_items (csilabel n)" kvs] by auto
    have get: "gm_get m k = (case gm_get (csilabel n) k of None \<Rightarrow> gm_get ?L k | Some v \<Rightarrow> Some v)" for k
      using gm.get_put_all [OF m(1) dk, of k] by (simp add: gm_get_def)
    have wf: "gm_wf m" by (rule gm_wf_put_all [OF assms(2) m(1)])
    have "gm_get (csilabel n) (filter_key n ?N) = None"
      using True diff unfolding wanted_def has_csi_key_def by (metis option.distinct(1))
    then have "wanted n m ?N" using True by (simp add: wanted_def get)
    moreover have "has_csi_key n m" unfolding has_csi_key_def get using k0 by (intro exI [of _ k0]) auto
    ultimately have 1: "labelController n m ?N = None" by (simp add: labelController_eq [OF wf])
    have "f = (\<lambda>node. case put_all gm_set (gm_items (csilabel n)) (nLabels node) of
        Inl e \<Rightarrow> Inl e | Inr m \<Rightarrow> Inr (node\<lparr>nLabels := m\<rparr>))"
      using assms(1) True diff nn by (simp add: labelController_eq [OF assms(2)])
    then have "f node = Inr (node\<lparr>nLabels := m\<rparr>)" by (simp add: m(1))
    with 1 show ?thesis by (intro exI [of _ "node\<lparr>nLabels := m\<rparr>"]) (simp add: get True split: option.split)
  next
    case False
    let ?m = "del_all gm_delete (map fst (gm_items (csilabel n))) ?L"
    have get: "gm_get ?m k = (if gm_get (csilabel n) k = None then gm_get ?L k else None)" for k
      using gm.get_del_all [of "map fst (gm_items (csilabel n))" ?L k] ck [of k] by simp
    have wf: "gm_wf ?m" by (rule gm_wf_del_all [OF assms(2)])
    have "\<not> wanted n ?m ?N" using False by (auto simp: wanted_def get)
    moreover have "\<not> has_csi_key n ?m" by (auto simp: has_csi_key_def get)
    ultimately have 1: "labelController n ?m ?N = None" by (simp add: labelController_eq [OF wf])
    have "f = (\<lambda>node. Inr (node\<lparr>nLabels := del_all gm_delete (map fst (gm_items (csilabel n))) (nLabels node)\<rparr>))"
      using assms(1) False diff nn by (simp add: labelController_eq [OF assms(2)])
    then have "f node = Inr (node\<lparr>nLabels := ?m\<rparr>)" by simp
    with 1 show ?thesis by (intro exI [of _ "node\<lparr>nLabels := ?m\<rparr>"]) (simp add: get False split: option.split)
  qed
qed

text \<open>When the label controller asks for an update of a node, applying the update to that node
  succeeds and gives it exactly the labels the filter asks for, the configured labels when the filter
  matches and none of them otherwise, leaving every other label alone; on the result the controller
  asks for nothing more.\<close>

theorem label_convergence:
  assumes "labelController n (nLabels node) (nName node) = Some f"
    and "gm_wf (nLabels node)" "gm_wf (csilabel n)" "gm_items (csilabel n) \<noteq> []"
  shows "\<exists>node'. f node = Inr node' \<and> nName node' = nName node
    \<and> labelController n (nLabels node') (nName node') = None
    \<and> (\<forall>k. gm_get (nLabels node') k =
        (case gm_get (csilabel n) k of None \<Rightarrow> gm_get (nLabels node) k
         | Some v \<Rightarrow> if wanted n (nLabels node) (nName node) then Some v else None))"
  by (rule label_step [OF assms])

text \<open>A configured label that is present with another value is never repaired: for a node the
  filter matches the label controller asks for no update, and yet the node is not among the nodes that
  may attach volumes.\<close>

theorem label_wrong_value:
  assumes "wanted n (nLabels node) (nName node)" "gm_wf (nLabels node)" "gm_wf (csilabel n)"
    and "gm_get (csilabel n) k = Some v" "gm_get (nLabels node) k = Some v'" "v' \<noteq> v"
  shows "labelController n (nLabels node) (nName node) = None \<and> \<not> inMaps (nLabels node) (csilabel n)"
proof
  have "has_csi_key n (nLabels node)" using assms by (auto simp: has_csi_key_def)
  with assms show "labelController n (nLabels node) (nName node) = None" by (simp add: labelController_eq)
  have "(k, v) \<in> set (gm_items (csilabel n))"
    using assms gm_items_get [of "csilabel n" k v] by simp
  moreover have "csilabel n \<noteq> None" using assms(4) by (cases "csilabel n") auto
  ultimately show "\<not> inMaps (nLabels node) (csilabel n)" using assms(5,6) unfolding inMaps_iff by fastforce
qed

section \<open>Lists of nodes\<close>

lemma fold_filter: "fold (\<lambda>x r. if P x then r @ [f x] else r) xs acc = acc @ map f (filter P xs)"
  by (induction xs arbitrary: acc) auto

lemma fold_concat: "(\<And>x r. g x r = r @ h x) \<Longrightarrow> fold g xs acc = acc @ concat (map h xs)"
  by (induction xs arbitrary: acc) auto

text \<open>The labelled nodes are, in the order of the listing, the nodes that carry every configured
  label with its value; the not-ready nodes are those with an unreachable no-schedule taint, once per
  such taint; a listing that fails counts as no nodes.\<close>

theorem node_lists:
  "fst (LabledNodes E n w) = (case fst (node_list E w) of Inl _ \<Rightarrow> []
     | Inr items \<Rightarrow> map nName (filter (\<lambda>x. inMaps (nLabels x) (csilabel n)) items))
   \<and> fst (NotReadyNodes E w) = (case fst (node_list E w) of Inl _ \<Rightarrow> []
     | Inr items \<Rightarrow> concat (map (\<lambda>x. replicate (length (filter (\<lambda>t. MatchTaint t UnreachableTaintTemplate) (Taints x)))
         (nName x)) items))"
proof -
  have "fold (\<lambda>node ret. fold (\<lambda>taint ret.
           if MatchTaint taint UnreachableTaintTemplate then ret @ [nName node] else ret) (Taints node) ret) items []
     = [] @ concat (map (\<lambda>x. replicate (length (filter (\<lambda>t. MatchTaint t UnreachableTaintTemplate) (Taints x)))
         (nName x)) items)" for items
    by (rule fold_concat) (simp add: fold_filter map_replicate_const)
  then have 1: "fst (NotReadyNodes E w) = (case fst (node_list E w) of Inl _ \<Rightarrow> []
     | Inr items \<Rightarrow> concat (map (\<lambda>x. replicate (length (filter (\<lambda>t. MatchTaint t UnreachableTaintTemplate) (Taints x)))
         (nName x)) items))"
    unfolding NotReadyNodes_def
    by (cases "node_list E w"; cases "fst (node_list E w)") (simp_all only: fst_conv prod.case sum.case append_Nil)
  show ?thesis unfolding 1
    by (simp add: LabledNodes_def fold_filter split: prod.splits sum.splits)
qed

section \<open>Updating a node\<close>

text \<open>The not-ready controller never asks for an update of a node and calls nothing, whatever
  the node's state: no node ever gets or loses the maintenance annotation.\<close>

theorem notready_never_updates:
  "\<exists>c'. notreadyController E n node c w = (None, c', w)"
  using StopNode_fails [of E "nName node" "\<not> inMaps (nLabels node) (halabel n)" c w]
    StartNode_fails [of E "nName node" "\<not> inMaps (nLabels node) (halabel n)" c w]
  by (auto simp: notreadyController_def Let_def)

text \<open>One attempt: a read, and an update of what was read unless the read or an update function
  failed.\<close>

definition attempt :: "string \<Rightarrow> updateNodeFn list \<Rightarrow> error option \<Rightarrow> event list \<Rightarrow> bool" where
  "attempt name fns r b \<longleftrightarrow>
     (\<exists>e. b = [EvNodeGet name (Inl e)] \<and> r = Some e)
   \<or> (\<exists>x e. b = [EvNodeGet name (Inr x)] \<and> apply_fns fns x = Inl e \<and> r = Some e)
   \<or> (\<exists>x y. b = [EvNodeGet name (Inr x), EvNodeUpdate y r] \<and> apply_fns fns x = Inr y)"

lemma update_once_attempt:
  assumes "update_once (traced E) name fns (w, l) = (r, w', l')"
  shows "\<exists>b. l' = l @ b \<and> attempt name fns r b"
  using assms by (auto simp: update_once_def env_defs attempt_def split: sum.splits)

lemma attempts_blocks:
  assumes "attempts n lst (update_once (traced E) name fns) (w, l) = (r, w', l')"
  shows "\<exists>bs. l' = l @ concat bs \<and> length bs \<le> n
    \<and> (\<forall>b \<in> set bs. \<exists>r'. attempt name fns r' b)
    \<and> (\<forall>b \<in> set (butlast bs). \<exists>e. attempt name fns (Some e) b \<and> IsConflict e)"
  using assms
proof (induction n arbitrary: w l lst)
  case 0
  then show ?case by simp
next
  case (Suc n)
  obtain r1 w1 l1 where o: "update_once (traced E) name fns (w, l) = (r1, w1, l1)" by (metis prod_cases3)
  from update_once_attempt [OF o] obtain b where b: "l1 = l @ b" "attempt name fns r1 b" by auto
  show ?case
  proof (cases "\<exists>e. r1 = Some e \<and> IsConflict e \<and> n \<noteq> 0")
    case True
    then obtain e where e: "r1 = Some e" "IsConflict e" "n \<noteq> 0" by blast
    then have "attempts n (Some e) (update_once (traced E) name fns) (w1, l1) = (r, w', l')"
      using Suc.prems o by simp
    from Suc.IH [OF this] obtain bs where bs: "l' = l1 @ concat bs" "length bs \<le> n"
      "\<forall>b \<in> set bs. \<exists>r'. attempt name fns r' b"
      "\<forall>b \<in> set (butlast bs). \<exists>e. attempt name fns (Some e) b \<and> IsConflict e" by blast
    have 1: "\<forall>x \<in> set (b # bs). \<exists>r'. attempt name fns r' x" using bs(3) b(2) by auto
    have 2: "\<forall>x \<in> set (butlast (b # bs)). \<exists>e. attempt name fns (Some e) x \<and> IsConflict e"
      using bs(4) b(2) e by (cases bs) (simp_all, blast)
    show ?thesis by (rule exI [of _ "b # bs"]) (simp add: 1 [simplified] 2 [simplified] bs(1,2) b(1))
  next
    case False
    with Suc.prems o have "l' = l1" by (auto split: option.splits if_splits)
    with b show ?thesis by (intro exI [of _ "[b]"]) auto
  qed
qed

text \<open>Updating a node makes at most five attempts, each of which reads the node anew and sends
  the object it read with all update functions applied; another attempt is made only after a
  conflict.\<close>

theorem updateNode_fresh:
  assumes "updateNode (traced E) name fns (w, []) = (r, w', l)"
  shows "\<exists>bs. l = concat bs \<and> length bs \<le> 5 \<and> (\<forall>b \<in> set bs. \<exists>r'. attempt name fns r' b)
    \<and> (\<forall>b \<in> set (butlast bs). \<exists>e. attempt name fns (Some e) b \<and> IsConflict e)"
  using attempts_blocks [of 5 None E name fns w "[]" r w' l] assms
  by (auto simp: updateNode_def RetryOnConflict_attempts DefaultRetry_def)

text \<open>The labels a reconciliation should give a node, by key: the configured ones with their values if the
  filter matches the node, none of them otherwise, and all others as they were. A node the filter matches
  and that has some configured key already is left as it is, whatever the values.\<close>

definition labels_after :: "NodeMgr \<Rightarrow> gomap \<Rightarrow> string \<Rightarrow> string \<Rightarrow> string option" where
  "labels_after n labels name k = (case gm_get (csilabel n) k of
     None \<Rightarrow> gm_get labels k
   | Some v \<Rightarrow> if \<not> wanted n labels name then None else if has_csi_key n labels then gm_get labels k else Some v)"

lemma label_reconciled:
  assumes "nDeletionTimestamp node = None" "gm_wf (nLabels node)" "gm_wf (csilabel n)" "gm_items (csilabel n) \<noteq> []"
  obtains fns x where "reconcile_fns n (Inr node) = (None, fns)" "apply_fns fns node = Inr x"
    "labelController n (nLabels x) (nName x) = None" "nName x = nName node"
    "\<And>k. gm_get (nLabels x) k = labels_after n (nLabels node) (nName node) k"
proof (cases "labelController n (nLabels node) (nName node)")
  case None
  then have "nLabels node = None \<or> wanted n (nLabels node) (nName node) = has_csi_key n (nLabels node)"
    by (simp add: labelController_eq [OF assms(2)] split: if_splits)
  then have eq: "wanted n (nLabels node) (nName node) = has_csi_key n (nLabels node)"
    by (auto simp: wanted_def has_csi_key_def gm_get_def gm_items_def)
  have "gm_get (nLabels node) k = None" if "\<not> has_csi_key n (nLabels node)" "gm_get (csilabel n) k = Some v" for k v
    using that unfolding has_csi_key_def by auto
  then have "gm_get (nLabels node) k = labels_after n (nLabels node) (nName node) k" for k
    by (cases "has_csi_key n (nLabels node)") (auto simp: labels_after_def eq split: option.splits)
  with None show thesis using that [of "[]" node] assms(1) by (simp add: reconcile_fns_def)
next
  case (Some f)
  from label_step [OF Some assms(2-4)] obtain node' where node': "f node = Inr node'" "nName node' = nName node"
    "labelController n (nLabels node') (nName node') = None"
    "\<forall>k. gm_get (nLabels node') k = (case gm_get (csilabel n) k of None \<Rightarrow> gm_get (nLabels node) k
         | Some v \<Rightarrow> if wanted n (nLabels node) (nName node) then Some v else None)" by blast
  have "wanted n (nLabels node) (nName node) \<noteq> has_csi_key n (nLabels node)"
    using Some by (auto simp: labelController_eq [OF assms(2)] split: if_splits)
  then have "gm_get (nLabels node') k = labels_after n (nLabels node) (nName node) k" for k
    using node'(4) by (auto simp: labels_after_def split: option.splits)
  with node' Some assms(1) show thesis using that [of "[f]" node'] by (simp add: reconcile_fns_def)
qed

text \<open>C27: When nobody else changes the node meanwhile and the API server stores what it is sent, one
  reconciliation gives the node these labels: a node the filter matches and that has none of the configured
  keys gets all configured labels with their values, a node the filter does not match loses every
  configured key, and no other label is touched; a node the filter matches and that has some configured key
  keeps its labels. A second reconciliation has nothing left to do.\<close>

theorem Reconcile_converges:
  assumes get: "node_get E name w = (Inr node, w)" and live: "nDeletionTimestamp node = None"
    and upd: "\<And>x. nName x = nName node \<Longrightarrow> \<exists>w' x'. node_update E x w = (None, w') \<and> node_get E name w' = (Inr x', w')
      \<and> nLabels x' = nLabels x \<and> nName x' = nName x"
    and wf: "gm_wf (nLabels node)" "gm_wf (csilabel n)" "gm_items (csilabel n) \<noteq> []"
  shows "\<exists>w' node'. Node_Reconcile E n name w = (None, w') \<and> node_get E name w' = (Inr node', w')
    \<and> (\<forall>k. gm_get (nLabels node') k = (case gm_get (csilabel n) k of
          None \<Rightarrow> gm_get (nLabels node) k
        | Some v \<Rightarrow> if \<not> wanted n (nLabels node) (nName node) then None
            else if has_csi_key n (nLabels node) then gm_get (nLabels node) k else Some v))
    \<and> labelController n (nLabels node') (nName node') = None"
proof -
  obtain fns x where fns: "reconcile_fns n (Inr node) = (None, fns)" "apply_fns fns node = Inr x"
    "labelController n (nLabels x) (nName x) = None" "nName x = nName node"
    and after: "\<And>k. gm_get (nLabels x) k = labels_after n (nLabels node) (nName node) k"
    using label_reconciled [OF live wf] by blast
  obtain w' x' where w': "node_update E x w = (None, w')" "node_get E name w' = (Inr x', w')"
    "nLabels x' = nLabels x" "nName x' = nName x" using upd [OF fns(4)] by blast
  have "updateNode E name fns w = (None, w')"
    unfolding updateNode_def by (rule roc.retry_ok) (simp_all add: update_once_def get fns w' DefaultRetry_def)
  then have "Node_Reconcile E n name w = (None, w')" by (simp add: Node_Reconcile_def get fns)
  with w' fns after show ?thesis unfolding labels_after_def by auto
qed

section \<open>Witnesses\<close>

definition demo_mgr :: NodeMgr where
  "demo_mgr = \<lparr>csilabel = Some [(''csi-alcub'', ''enable'')], halabel = None,
     filterKey = ''alcubierre-manager-%N'', filtervalue = ''enabled''\<rparr>"

definition demo_fresh :: kNode where
  "demo_fresh = demo_node\<lparr>nLabels := Some [(''alcubierre-manager-node-1'', ''enabled'')]\<rparr>"

lemma demo_wanted: "gm_get l ''alcubierre-manager-node-1'' = Some ''enabled'' \<Longrightarrow> wanted demo_mgr l ''node-1''"
  by (simp add: wanted_def filter_key_def tempReplace_def demo_mgr_def tempNodeKey_def ReplaceAll.simps)

lemma demo_fresh_label:
  "labelController demo_mgr (nLabels demo_fresh) (nName demo_fresh) = Some (\<lambda>node.
     case put_all gm_set [(''csi-alcub'', ''enable'')] (nLabels node) of
       Inl e \<Rightarrow> Inl e | Inr m \<Rightarrow> Inr (node\<lparr>nLabels := m\<rparr>))"
  using demo_wanted [of "nLabels demo_fresh"]
  by (subst labelController_eq)
    (simp_all add: demo_fresh_def gm_wf_def has_csi_key_def demo_node_def demo_mgr_def)

theorem label_convergence_witness:
  "\<exists>f node'. labelController demo_mgr (nLabels demo_fresh) (nName demo_fresh) = Some f \<and> f demo_fresh = Inr node'
     \<and> labelController demo_mgr (nLabels node') (nName node') = None"
  using label_convergence [OF demo_fresh_label] demo_fresh_label
  by (simp add: gm_wf_def demo_fresh_def demo_mgr_def)

theorem label_wrong_value_witness:
  "labelController demo_mgr (Some [(''alcubierre-manager-node-1'', ''enabled''), (''csi-alcub'', ''no'')]) ''node-1'' = None"
  using label_wrong_value [of demo_mgr "demo_node\<lparr>nLabels := Some [(''alcubierre-manager-node-1'', ''enabled''),
      (''csi-alcub'', ''no'')]\<rparr>" "''csi-alcub''" "''enable''" "''no''"] demo_wanted
  by (simp add: gm_wf_def demo_mgr_def demo_node_def)

theorem updateNode_fresh_witness:
  "let x = updateNode (traced demo_env) ''node-1'' [] (demo0, []) in
     fst x = None \<and> (\<exists>bs. snd (snd x) = concat bs \<and> length bs \<le> 5)"
  using updateNode_fresh [OF pair3 [of "updateNode (traced demo_env) ''node-1'' [] (demo0, [])"]]
  by (auto simp: Let_def updateNode_def update_once_def env_defs demo_sel demo_data RetryOnConflict_attempts
      DefaultRetry_def numeral_eq_Suc)

theorem Reconcile_converges_witness:
  "\<exists>w' node'. Node_Reconcile demo_env demo_mgr ''node-1'' (demo0\<lparr>d_node := demo_fresh\<rparr>) = (None, w')
     \<and> node_get demo_env ''node-1'' w' = (Inr node', w')
     \<and> gm_get (nLabels node') ''csi-alcub'' = Some ''enable'' \<and> gm_get (nLabels node') ''alcubierre-manager-node-1'' = Some ''enabled''"
proof -
  let ?w = "demo0\<lparr>d_node := demo_fresh\<rparr>"
  have "node_get demo_env ''node-1'' ?w = (Inr demo_fresh, ?w)" by (simp add: demo_sel demo_fresh_def demo_node_def)
  from Reconcile_converges [OF this, of demo_mgr] obtain w' node' where
    r: "Node_Reconcile demo_env demo_mgr ''node-1'' ?w = (None, w')" "node_get demo_env ''node-1'' w' = (Inr node', w')"
    and k: "\<forall>k. gm_get (nLabels node') k = (case gm_get (csilabel demo_mgr) k of
          None \<Rightarrow> gm_get (nLabels demo_fresh) k
        | Some v \<Rightarrow> if \<not> wanted demo_mgr (nLabels demo_fresh) (nName demo_fresh) then None
            else if has_csi_key demo_mgr (nLabels demo_fresh) then gm_get (nLabels demo_fresh) k else Some v)"
    by (auto simp: demo_sel demo_fresh_def demo_node_def gm_wf_def demo_mgr_def)
  have "wanted demo_mgr (nLabels demo_fresh) (nName demo_fresh)" "\<not> has_csi_key demo_mgr (nLabels demo_fresh)"
    using demo_wanted [of "nLabels demo_fresh"] by (simp_all add: demo_fresh_def demo_node_def has_csi_key_def demo_mgr_def)
  with r k show ?thesis by (simp add: demo_mgr_def demo_fresh_def)
qed

end
