(* ===== verification/ControllerRpc.thy ===== *)
theory ControllerRpc
  imports NodeManage
begin

text \<open>
  \<open>pkg/controlrpc/rpc.go\<close>: the controller service of the CSI interface. Requests and responses
  keep the fields the handlers read or write; a nil pointer, slice or map is \<open>None\<close>, and the
  generated getters of a nil message give the zero value. A handler answers with a status error on the
  left or a response on the right.

  The facts: an invalid request calls nothing; an existing volume is answered from its resource
  without creating anything; a new volume is created with a registered UUID, a large enough image and a
  resource, and only when a labelled node exists; deletion removes the image before the resource and
  accepts volumes it does not know.
\<close>

section \<open>Requests and responses\<close>

record mount_cap =
  FsType :: string
  MountFlags :: "string list"

record VolumeCapability =
  cap_Mount :: "mount_cap option"

type_synonym topology = gomap

record TopologyRequirement =
  Requisite :: "topology list option"
  Preferred :: "topology list option"

record CreateVolumeRequest =
  req_Name :: string
  VolumeCapabilities :: "VolumeCapability list option"
  VolumeContentSource :: "string option"
  CapacityRange :: "int64 option"
  Parameters :: gomap
  AccessibilityRequirements :: "TopologyRequirement option"

record csi_Volume =
  VolumeId :: string
  CapacityBytes :: int64
  VolumeContext :: gomap
  ContentSource :: "string option"
  AccessibleTopology :: "topology list option"

definition GetRequiredBytes :: "int64 option \<Rightarrow> int64" where
  "GetRequiredBytes cr = (case cr of None \<Rightarrow> 0 | Some b \<Rightarrow> b)"

section \<open>Handlers\<close>

definition ControllerGetCapabilities :: "Controller \<Rightarrow> ctrl_cap list" where
  "ControllerGetCapabilities c = c_caps c"

fun caps_loop :: "VolumeCapability list \<Rightarrow> bool \<Rightarrow> bool" where
  "caps_loop [] accessTypeMount = accessTypeMount"
| "caps_loop (ca # cas) accessTypeMount =
     caps_loop cas (if cap_Mount ca \<noteq> None then True else accessTypeMount)"

text \<open>The checks before anything is called.\<close>

definition create_check :: "CreateVolumeRequest \<Rightarrow> error option" where
  "create_check req =
     (if length (req_Name req) = 0 then Some (status_Error InvalidArgument ''Name missing in request'' [])
      else (case VolumeCapabilities req of
          None \<Rightarrow> Some (status_Error InvalidArgument ''Volume Capabilities missing in request'' [])
        | Some caps \<Rightarrow>
            if \<not> caps_loop caps False then Some (status_Error InvalidArgument ''cannot support non mount access type'' [])
            else if VolumeContentSource req \<noteq> None
            then Some (status_Error InvalidArgument ''not support create volume from source'' [])
            else None))"

definition req_topologies :: "CreateVolumeRequest \<Rightarrow> topology list option" where
  "req_topologies req = (case AccessibilityRequirements req of
     None \<Rightarrow> None
   | Some accessReq \<Rightarrow>
       if Requisite accessReq \<noteq> None then Requisite accessReq
       else if Preferred accessReq \<noteq> None then Preferred accessReq else None)"

text \<open>Creating a volume that has no resource yet.\<close>

definition create_new ::
    "'w env \<Rightarrow> CreateVolumeRequest \<Rightarrow> int64 \<Rightarrow> Controller \<Rightarrow> 'w \<Rightarrow> (error + csi_Volume) \<times> Controller \<times> 'w" where
  "create_new E req capacity c w = (case c_node c of
     None \<Rightarrow> (Inl (GoPanic ''nil pointer dereference''), c, w)
   | Some nm \<Rightarrow> (case LabledNodes E nm w of
       (labled, w1) \<Rightarrow>
         if length labled = 0
         then (Inl (status_Error Unavailable ''There are not any node can attach volume'' []), c, w1)
         else (case new_uuid E w1 of
             (volumeID, w2) \<Rightarrow>
               (case createVolume E (Parameters req) (req_Name req) volumeID capacity c w2 of
                  ((_, Some err), c1, w3) \<Rightarrow>
                    (Inl (status_Error Internal ''failed to create volume %v, %v'' [AStr volumeID, AErr err]), c1, w3)
                | ((_, None), c1, w3) \<Rightarrow>
                    (Inr \<lparr>VolumeId = volumeID, CapacityBytes = GetRequiredBytes (CapacityRange req),
                          VolumeContext = Parameters req, ContentSource = VolumeContentSource req,
                          AccessibleTopology = req_topologies req\<rparr>, c1, w3)))))"

definition CreateVolume ::
    "'w env \<Rightarrow> CreateVolumeRequest \<Rightarrow> Controller \<Rightarrow> 'w \<Rightarrow> (error + csi_Volume) \<times> Controller \<times> 'w" where
  "CreateVolume E req c w = (case create_check req of
     Some err \<Rightarrow> (Inl err, c, w)
   | None \<Rightarrow>
       (let capacity = GetRequiredBytes (CapacityRange req) in
        case AlcubCon_GetByName E (req_Name req) w of
          (Some alcub, w1) \<Rightarrow>
            if i64_less (Capacity (Spec alcub)) capacity
            then (Inl (status_Error AlreadyExists ''Volume with the same name: %s but with different size already exist''
                    [AStr (req_Name req)]), c, w1)
            else (Inr \<lparr>VolumeId = Uuid (Spec alcub), CapacityBytes = Capacity (Spec alcub),
                       VolumeContext = Parameters req, ContentSource = VolumeContentSource req,
                       AccessibleTopology = None\<rparr>, c, w1)
        | (None, w1) \<Rightarrow> create_new E req capacity c w1))"

definition DeleteVolume :: "'w env \<Rightarrow> string \<Rightarrow> Controller \<Rightarrow> 'w \<Rightarrow> error option \<times> Controller \<times> 'w" where
  "DeleteVolume E volid c w = (case AlcubCon_GetByUuid E volid (c_alcub c) w of
     (None, w1) \<Rightarrow> (None, c, w1)
   | (Some alcub, w1) \<Rightarrow> (case deleteVolume E alcub c w1 of
       (Some err, c1, w2) \<Rightarrow>
         (Some (status_Error Internal ''failed to delete volume %v: %v'' [AStr volid, AErr err]), c1, w2)
     | (None, c1, w2) \<Rightarrow> (None, c1, w2)))"

text \<open>Attaching is left to the node service: the two controller calls answer with an empty response.
  The remaining calls are not implemented.\<close>

definition ControllerPublishVolume :: "error option" where
  "ControllerPublishVolume = None"

definition ControllerUnpublishVolume :: "error option" where
  "ControllerUnpublishVolume = None"

datatype ctrl_rpc = ValidateVolumeCapabilities | ListVolumes | GetCapacity | CreateSnapshot | DeleteSnapshot
  | ListSnapshots | ControllerExpandVolume | ControllerGetVolume

definition ctrl_unimplemented :: "ctrl_rpc \<Rightarrow> error option" where
  "ctrl_unimplemented rpc = Some (status_Error Unimplemented '''' [])"

section \<open>Creating a volume\<close>

lemma caps_loop_iff: "caps_loop caps b \<longleftrightarrow> b \<or> (\<exists>ca \<in> set caps. cap_Mount ca \<noteq> None)"
  by (induction caps arbitrary: b) auto

text \<open>What a request must be like.\<close>

definition valid_request :: "CreateVolumeRequest \<Rightarrow> bool" where
  "valid_request req \<longleftrightarrow> req_Name req \<noteq> [] \<and> VolumeContentSource req = None
     \<and> (\<exists>caps. VolumeCapabilities req = Some caps \<and> (\<exists>ca \<in> set caps. cap_Mount ca \<noteq> None))"

lemma create_check_iff: "create_check req = None \<longleftrightarrow> valid_request req"
  by (auto simp: create_check_def valid_request_def caps_loop_iff split: option.splits)

lemma create_check_code: "create_check req = Some e \<Longrightarrow> \<exists>m. e = status_Error InvalidArgument m []"
  by (auto simp: create_check_def split: option.splits if_splits)

text \<open>C30: A request without a name, without capabilities, without a mount capability or with a content
  source is refused with an invalid-argument status, before anything is called and without a change of
  state; a request that has all of this is never refused that way.\<close>

theorem CreateVolume_validates:
  "(\<not> valid_request req \<longrightarrow> (\<exists>m. CreateVolume E req c w = (Inl (status_Error InvalidArgument m []), c, w)))
   \<and> (valid_request req \<longrightarrow> (\<forall>m as. fst (CreateVolume E req c w) \<noteq> Inl (status_Error InvalidArgument m as)))"
proof
  show "\<not> valid_request req \<longrightarrow> (\<exists>m. CreateVolume E req c w = (Inl (status_Error InvalidArgument m []), c, w))"
    using create_check_iff [of req] create_check_code [of req]
    by (cases "create_check req") (auto simp: CreateVolume_def)
  show "valid_request req \<longrightarrow> (\<forall>m as. fst (CreateVolume E req c w) \<noteq> Inl (status_Error InvalidArgument m as))"
    using create_check_iff [of req]
    by (auto simp: CreateVolume_def create_new_def Let_def split: option.splits prod.splits if_splits)
qed

text \<open>For a volume whose resource exists the handler reads the resource and calls nothing else: it
  answers with the resource's UUID and capacity when the capacity suffices, and with an already-exists
  status otherwise; asking again gives the same volume.\<close>

theorem CreateVolume_existing:
  assumes "valid_request req" "kube_get E (req_Name req) w = (Inr a, w1)"
  shows "CreateVolume (traced E) req c (w, []) =
    (if sint (Capacity (Spec a)) < sint (GetRequiredBytes (CapacityRange req))
     then Inl (status_Error AlreadyExists ''Volume with the same name: %s but with different size already exist''
            [AStr (req_Name req)])
     else Inr \<lparr>VolumeId = Uuid (Spec a), CapacityBytes = Capacity (Spec a), VolumeContext = Parameters req,
            ContentSource = None, AccessibleTopology = None\<rparr>,
     c, w1, [EvGet (req_Name req) (Inr a)])"
  using assms create_check_iff [of req]
  by (simp add: CreateVolume_def AlcubCon_GetByName_def env_defs Let_def i64_less_def valid_request_def)

text \<open>The calls of a creation: looking for the resource, listing the nodes, drawing a UUID.\<close>

lemma CreateVolume_new:
  assumes "CreateVolume (traced E) req c (w, []) = (r, c', w', l)" "valid_request req"
    and "\<not> (\<exists>a. fst (kube_get E (req_Name req) w) = Inr a)"
  obtains (nonode) g rest where "l = EvGet (req_Name req) g # rest" "list_all (\<lambda>e. \<exists>ns. e = EvNodeList ns) rest"
      "\<exists>e. r = Inl e" "c' = c"
  | (made) g items nm u w3 sp er where "c_node c = Some nm"
      "map nName (filter (\<lambda>x. inMaps (nLabels x) (csilabel nm)) items) \<noteq> []"
      "createVolume (traced E) (Parameters req) (req_Name req) u (GetRequiredBytes (CapacityRange req)) c
         (w3, [EvGet (req_Name req) g, EvNodeList (Inr items), EvUuid u]) = ((sp, er), c', w', l)"
      "r = (case er of
         Some e \<Rightarrow> Inl (status_Error Internal ''failed to create volume %v, %v'' [AStr u, AErr e])
       | None \<Rightarrow> Inr \<lparr>VolumeId = u, CapacityBytes = GetRequiredBytes (CapacityRange req),
           VolumeContext = Parameters req, ContentSource = VolumeContentSource req,
           AccessibleTopology = req_topologies req\<rparr>)"
proof -
  obtain g w1 where g: "kube_get E (req_Name req) w = (Inl g, w1)"
    using assms(3) by (metis fst_conv obj_sumE prod.collapse)
  obtain ns w2 where ns: "node_list E w1 = (ns, w2)" by (cases "node_list E w1")
  obtain u w3 where u: "new_uuid E w2 = (u, w3)" by (cases "new_uuid E w2")
  have new: "create_new (traced E) req (GetRequiredBytes (CapacityRange req)) c
      (w1, [EvGet (req_Name req) (Inl g)]) = (r, c', w', l)"
    using assms(1,2) create_check_iff [of req] g
    by (simp add: CreateVolume_def AlcubCon_GetByName_def env_defs Let_def)
  show thesis
  proof (cases "\<exists>nm items. c_node c = Some nm \<and> ns = Inr items \<and> filter (\<lambda>x. inMaps (nLabels x) (csilabel nm)) items \<noteq> []")
    case False
    with new ns have "\<exists>rest. l = EvGet (req_Name req) (Inl g) # rest \<and> list_all (\<lambda>e. \<exists>ns. e = EvNodeList ns) rest
        \<and> (\<exists>e. r = Inl e) \<and> c' = c"
      by (auto simp: create_new_def LabledNodes_def fold_filter env_defs
          split: option.splits sum.splits if_splits)
    with nonode show thesis by blast
  next
    case True
    then obtain nm items where nm: "c_node c = Some nm" "ns = Inr items"
      "map nName (filter (\<lambda>x. inMaps (nLabels x) (csilabel nm)) items) \<noteq> []" by auto
    obtain sp er c1 w4 l4 where cv: "createVolume (traced E) (Parameters req) (req_Name req) u
        (GetRequiredBytes (CapacityRange req)) c
        (w3, [EvGet (req_Name req) (Inl g), EvNodeList (Inr items), EvUuid u]) = ((sp, er), c1, w4, l4)"
      by (metis prod.collapse)
    have "(c', w', l) = (c1, w4, l4)" "r = (case er of
         Some e \<Rightarrow> Inl (status_Error Internal ''failed to create volume %v, %v'' [AStr u, AErr e])
       | None \<Rightarrow> Inr \<lparr>VolumeId = u, CapacityBytes = GetRequiredBytes (CapacityRange req),
           VolumeContext = Parameters req, ContentSource = VolumeContentSource req,
           AccessibleTopology = req_topologies req\<rparr>)"
      using new nm ns u cv
      by (auto simp: create_new_def LabledNodes_def fold_filter env_defs split: option.splits)
    with made [OF nm(1,3)] cv show thesis by blast
  qed
qed

text \<open>C1: A volume that is newly created and answered to the caller has a resource with the answered
  UUID, its name and the requested capacity, and an image of that pool and at least that size; its UUID
  is registered; and some node carried the configured labels. The calls are, in this order: look for the
  resource, list the nodes, draw the UUID, read the storage class, create the image, create the
  resource.\<close>

theorem CreateVolume_creates:
  assumes "CreateVolume (traced E) req c (w, []) = (Inr vol, c', w', l)" "valid_request req"
    and "\<not> (\<exists>a. fst (kube_get E (req_Name req) w) = Inr a)"
  shows "\<exists>g items nm lc opts z o1 spec. let u = VolumeId vol in
      l = [EvGet (req_Name req) g, EvNodeList (Inr items), EvUuid u] @ lc
        @ [EvCmd ''rbd'' (create_args opts (req_Name req) (itoa (nat z))) o1, EvCreate (newobj (req_Name req) spec) None]
      \<and> list_all class_event lc \<and> cmd_ok o1 \<and> sint (CapacityBytes vol) \<le> z * 2^20
      \<and> CapacityBytes vol = GetRequiredBytes (CapacityRange req)
      \<and> Uuid spec = u \<and> Capacity spec = CapacityBytes vol \<and> Image spec = req_Name req \<and> Pool spec = opt_pool opts
      \<and> getNameByuuid u (c_alcub c') = req_Name req
      \<and> c_node c = Some nm \<and> (\<exists>x \<in> set items. inMaps (nLabels x) (csilabel nm))"
  using assms
proof (cases rule: CreateVolume_new)
  case (made g items nm u w3 sp er)
  then have er: "er = None" and vol: "VolumeId vol = u" "CapacityBytes vol = GetRequiredBytes (CapacityRange req)"
    by (auto split: option.splits)
  have n: "req_Name req \<noteq> []" using assms(2) by (simp add: valid_request_def)
  obtain x where x: "x \<in> set items" "inMaps (nLabels x) (csilabel nm)" using made(2) by (auto simp: filter_empty_conv)
  from createVolume_log [OF made(3) n, unfolded er option.case] obtain lc opts z o1 v where
    "l = [EvGet (req_Name req) g, EvNodeList (Inr items), EvUuid u] @ lc
        @ [EvCmd ''rbd'' (create_args opts (req_Name req) (itoa (nat z))) o1, EvCreate (newobj (req_Name req) (the sp)) None]"
    "sp = Some \<lparr>Uuid = u, Capacity = GetRequiredBytes (CapacityRange req), RbdSc = v, Pool = opt_pool opts,
       Image = req_Name req\<rparr>"
    "list_all class_event lc" "cmd_ok o1" "sint (GetRequiredBytes (CapacityRange req)) \<le> z * 2^20"
    "getNameByuuid u (c_alcub c') = req_Name req" by auto
  with vol made(1) x show ?thesis
    by (intro exI [of _ g] exI [of _ items] exI [of _ nm] exI [of _ lc] exI [of _ opts] exI [of _ z] exI [of _ o1]
        exI [of _ "the sp"]) (auto simp: Let_def)
qed auto

text \<open>C2: When creating a volume fails although its image was created, the handler ends with trying to remove
  that image again: after the creation of the image at most the refused creation of the resource follows,
  and then the storage class of the request is read again and, unless it cannot be read or its parameters
  are refused, the status of that image is asked for with the options of the class, and the image removed
  exactly when the status shows no watcher.\<close>

theorem CreateVolume_undo:
  assumes "CreateVolume (traced E) req c (w, []) = (Inl e, c', w', l)" "valid_request req"
    and "created (req_Name req) l"
  shows "\<exists>v g ns u l1. gm_get (Parameters req) scParam = Some v \<and> l = [EvGet (req_Name req) g, EvNodeList ns, EvUuid u] @ l1
    \<and> undone E v (req_Name req) [EvGet (req_Name req) g, EvNodeList ns, EvUuid u] l1"
proof (cases "\<exists>a. fst (kube_get E (req_Name req) w) = Inr a")
  case True
  then have "l = [EvGet (req_Name req) (fst (kube_get E (req_Name req) w))]"
    using assms(1,2) create_check_iff [of req]
    by (auto simp: CreateVolume_def AlcubCon_GetByName_def env_defs Let_def split: if_splits)
  with assms(3) show ?thesis by (simp add: created_def)
next
  case False
  from assms(1,2) False show ?thesis
  proof (cases rule: CreateVolume_new)
    case (nonode g rest)
    with assms(3) show ?thesis by (auto simp: created_def list_all_iff)
  next
    case (made g items nm u w3 sp er)
    then obtain e' where er: "er = Some e'" by (auto split: option.splits)
    let ?p = "[EvGet (req_Name req) g, EvNodeList (Inr items), EvUuid u]"
    have n: "req_Name req \<noteq> []" using assms(2) by (simp add: valid_request_def)
    from createVolume_log [OF made(3) n, unfolded er option.case] obtain l2 where
      l2: "l = ?p @ l2" and undo: "created (req_Name req) l2 \<longrightarrow> (\<exists>v. gm_get (Parameters req) scParam = Some v
        \<and> undone E v (req_Name req) ?p l2)" by blast
    have "created (req_Name req) l2" using assms(3) l2 by (auto simp: created_def)
    with undo l2 show ?thesis by blast
  qed
qed

section \<open>Deleting a volume\<close>

text \<open>C5: Deleting an unknown volume succeeds and calls nothing. Deleting a known one reads its resource
  and, if it is still there, either fails after calls about the image only, or removes the image and
  only then reads the resource again and asks for its deletion; a resource that cannot be read counts as
  deleted.\<close>

theorem DeleteVolume_order:
  assumes "DeleteVolume (traced E) vid c (w, []) = (r, c', w', l)"
  shows "if vid = [] \<or> getNameByuuid vid (c_alcub c) = [] then r = None \<and> l = [] \<and> c' = c \<and> w' = w
    else (\<exists>g. (l = [EvGet (getNameByuuid vid (c_alcub c)) (Inl g)] \<and> r = None)) \<or>
      (\<exists>a. ((\<exists>ls. l = EvGet (getNameByuuid vid (c_alcub c)) (Inr a) # ls \<and> r \<noteq> None \<and> list_all image_event ls) \<or>
        (\<exists>lc cs g ds. l = EvGet (getNameByuuid vid (c_alcub c)) (Inr a) # lc @ cs @ EvGet (Name (Meta a)) g # ds
           \<and> list_all class_event lc \<and> removed (Image (Spec a)) cs \<and> length ds \<le> 5
           \<and> (\<forall>e \<in> set ds. \<exists>b res. g = Inr b \<and> e = EvDelete b res))))"
proof (cases "vid = [] \<or> getNameByuuid vid (c_alcub c) = []")
  case True
  then have "AlcubCon_GetByUuid (traced E) vid (c_alcub c) (w, []) = (None, w, [])"
    by (auto simp: AlcubCon_GetByUuid_def)
  with assms True show ?thesis by (simp add: DeleteVolume_def)
next
  case False
  let ?n = "getNameByuuid vid (c_alcub c)"
  obtain g w1 where g: "kube_get E ?n w = (g, w1)" by (cases "kube_get E ?n w")
  show ?thesis
  proof (cases g)
    case (Inl e)
    with assms False g show ?thesis
      by (auto simp: DeleteVolume_def AlcubCon_GetByUuid_def AlcubCon_GetByName_def env_defs Let_def)
  next
    case (Inr a)
    obtain r1 c1 w2 l2 where d: "deleteVolume (traced E) a c (w1, [EvGet ?n (Inr a)]) = (r1, c1, w2, l2)"
      by (metis prod_cases4)
    have r: "l = l2" "r = None \<longleftrightarrow> r1 = None"
      using assms False g Inr d
      by (auto simp: DeleteVolume_def AlcubCon_GetByUuid_def AlcubCon_GetByName_def env_defs Let_def
          split: option.splits)
    from deleteVolume_log [OF d] False show ?thesis unfolding r(1)
      by (simp add: r(2) grows_def) blast
  qed
qed

section \<open>Witnesses\<close>

definition demo_req :: CreateVolumeRequest where
  "demo_req = \<lparr>req_Name = ''pvc-1'',
     VolumeCapabilities = Some [\<lparr>cap_Mount = Some \<lparr>FsType = ''ext4'', MountFlags = []\<rparr>\<rparr>],
     VolumeContentSource = None, CapacityRange = Some 1048577, Parameters = demo_params_sc,
     AccessibilityRequirements = None\<rparr>"

lemma demo_req_valid: "valid_request demo_req"
  by (simp add: valid_request_def demo_req_def)

theorem CreateVolume_validates_witness:
  "\<exists>m. CreateVolume demo_env (demo_req\<lparr>req_Name := []\<rparr>) demo_ctl demo0 =
     (Inl (status_Error InvalidArgument m []), demo_ctl, demo0)"
  using CreateVolume_validates [of "demo_req\<lparr>req_Name := []\<rparr>" demo_env demo_ctl demo0]
  by (simp add: valid_request_def)

theorem CreateVolume_existing_witness:
  "fst (CreateVolume (traced demo_env) demo_req demo_ctl (demo1, [])) =
     Inr \<lparr>VolumeId = ''u1'', CapacityBytes = 1073741824, VolumeContext = demo_params_sc,
       ContentSource = None, AccessibleTopology = None\<rparr>"
proof -
  have "kube_get demo_env (req_Name demo_req) demo1 = (Inr demo_obj, demo1)"
    by (simp add: demo_sel demo_req_def demo1_def)
  from CreateVolume_existing [OF demo_req_valid this] show ?thesis
    by (simp add: demo_obj_def demo_spec_def demo_req_def GetRequiredBytes_def)
qed

definition demo_ctl0 :: Controller where
  "demo_ctl0 = demo_ctl\<lparr>c_alcub := NewAlcubCon\<rparr>"

lemmas demo_create = CreateVolume_def create_check_def req_topologies_def AlcubCon_GetByName_def create_new_def
  LabledNodes_def fold_filter inMaps_iff createVolume_def gm_get_def gm_items_def scParam_def demo_ctl0_def demo_ctl_def
  NewController_def Rbd_CreateImage_def demo_class RBDUtil_CreateImage_def RoundUpSize_def MiB_def
  i64_div_def execCommand_def env_defs demo_sel demo_data AlcubCon_Create_def reverseUuid_def
  NewAlcubCon_def newobj_def Let_def GetRequiredBytes_def

theorem CreateVolume_creates_witness:
  "let x = CreateVolume (traced demo_env) demo_req demo_ctl0 (demo0, []) in
     \<exists>vol. fst x = Inr vol \<and> VolumeId vol = ''u1'' \<and> getNameByuuid ''u1'' (c_alcub (fst (snd x))) = ''pvc-1''"
proof -
  let ?x = "CreateVolume (traced demo_env) demo_req demo_ctl0 (demo0, [])"
  define vol where "vol = \<lparr>VolumeId = ''u1'', CapacityBytes = 1048577, VolumeContext = demo_params_sc,
     ContentSource = None, AccessibleTopology = None\<rparr>"
  have v: "fst ?x = Inr vol" "VolumeId vol = ''u1''"
    by (simp_all add: demo_create demo_req_def demo_params_sc_def vol_def)
  have e: "?x = (Inr vol, fst (snd ?x), fst (snd (snd ?x)), snd (snd (snd ?x)))" using v by (metis prod.collapse)
  have "\<not> (\<exists>a. fst (kube_get demo_env (req_Name demo_req) demo0) = Inr a)"
    by (simp add: demo_sel demo0_def)
  from CreateVolume_creates [OF e demo_req_valid this] v show ?thesis
    by (auto simp: Let_def demo_req_def)
qed

lemma demo_class2:
  "class_options (traced demo_env) (NewRbd\<lparr>dnsip := ''10.96.0.10''\<rparr>) sc (w, l) =
     (Inr (demo_opts\<lparr>opt_userID := ''admin''\<rparr>), NewRbd\<lparr>dnsip := ''10.96.0.10''\<rparr>, w,
      l @ [EvSc sc (Inr (Some [(''monitors'', ''10.0.0.9:6789''), (''adminSecretName'', ''ceph'')])),
           EvSecret ''default'' ''ceph'' (Inr (Some [(''key'', ''s3cret'')]))])"
  using demo_monitor
  by (simp add: class_options_def NewRbd_def env_defs demo_env_def parseParameters_def gm_items_def
      parse_init_def param_step_def param_monitors_def parse_finish_def parsePVSecret_def demo_opts_def
      ToLower_def lower_char_def is_upper_def char_of_def bit_0 rbd_consts Let_def)

theorem CreateVolume_undo_witness:
  "let x = CreateVolume (traced demo_env) (demo_req\<lparr>req_Name := ''pvc-2''\<rparr>) demo_ctl (demo0, []) in
     \<exists>v l0 l1. snd (snd (snd x)) = l0 @ l1 \<and> undone demo_env v ''pvc-2'' l0 l1
       \<and> (\<exists>o1. EvCmd ''rbd'' (rm_args (demo_opts\<lparr>opt_userID := ''admin''\<rparr>) ''pvc-2'') o1 \<in> set (snd (snd (snd x))))"
proof -
  let ?q = "demo_req\<lparr>req_Name := ''pvc-2''\<rparr>"
  let ?x = "CreateVolume (traced demo_env) ?q demo_ctl (demo0, [])"
  let ?o = "\<lparr>Out = ''Watchers: none'', Deadline = False, CmdErr = None\<rparr>"
  note ev = demo_create demo_req_def demo_params_sc_def demo_al_def Rbd_DeleteImage_def demo_class2
    RBDUtil_DeleteImage_def rbdStatus_def str_Contains_def rbd_consts
  have 1: "\<exists>e. fst ?x = Inl e" by (simp add: ev)
  have "EvCmd ''rbd'' (create_args (demo_opts\<lparr>opt_userID := ''admin''\<rparr>) ''pvc-2'' (itoa 2)) ?o \<in> set (snd (snd (snd ?x)))"
    by (simp add: ev)
  then have 2: "created ''pvc-2'' (snd (snd (snd ?x)))" unfolding created_def
    by (intro exI conjI) (simp add: cmd_ok_def)+
  from 1 obtain e where e: "?x = (Inl e, fst (snd ?x), fst (snd (snd ?x)), snd (snd (snd ?x)))" by (metis prod.collapse)
  have v: "valid_request ?q" by (simp add: valid_request_def demo_req_def)
  have 3: "\<exists>o1. EvCmd ''rbd'' (rm_args (demo_opts\<lparr>opt_userID := ''admin''\<rparr>) ''pvc-2'') o1 \<in> set (snd (snd (snd ?x)))"
    by (rule exI [of _ ?o]) (simp add: ev)
  have n: "req_Name ?q = ''pvc-2''" by simp
  from CreateVolume_undo [OF e v, unfolded n, OF 2] 3 show ?thesis unfolding Let_def by blast
qed

theorem DeleteVolume_order_witness:
  "let x = DeleteVolume (traced demo_env) ''u1'' demo_ctl (demo1, []) in
     fst x = None \<and> (\<exists>rest. snd (snd (snd x)) = EvGet ''pvc-1'' (Inr demo_obj) # rest \<and> rest \<noteq> [])"
proof -
  let ?x = "DeleteVolume (traced demo_env) ''u1'' demo_ctl (demo1, [])"
  have n: "getNameByuuid ''u1'' (c_alcub demo_ctl) = ''pvc-1''"
    by (simp add: demo_ctl_def NewController_def demo_al_def getNameByuuid_def)
  have "fst ?x = None" "\<exists>rest. snd (snd (snd ?x)) = EvGet ''pvc-1'' (Inr demo_obj) # rest"
    using n by (simp_all add: DeleteVolume_def AlcubCon_GetByUuid_def AlcubCon_GetByName_def deleteVolume_def
        demo_ctl_def NewController_def Rbd_DeleteImage_def demo_class RBDUtil_DeleteImage_def rbdStatus_def
        execCommand_def env_defs demo_sel demo_data rbd_consts str_Contains_def AlcubCon_Delete_def
        RetryOnConflict_attempts DefaultRetry_def numeral_eq_Suc Let_def)
  with DeleteVolume_order [OF pair4 [of ?x]] n show ?thesis by (auto simp: Let_def removed_def)
qed

end
