(* ===== verification/NodeRpc.thy ===== *)
theory NodeRpc
  imports ControllerRpc
begin

text \<open>
  \<open>pkg/noderpc/node.go\<close> and \<open>pkg/noderpc/rpc.go\<close>: the node service. \<open>NodeSrv\<close> is
  the state \<open>Node\<close>; the store client is the part of it that changes, since its URL may be filled.
  The closures \<open>preMountValid\<close> and \<open>preUnmountValid\<close> return are the definitions
  \<open>mount_failed\<close>, \<open>mount_success\<close> and \<open>unmount_success\<close>; the deferred functions
  of the two handlers are the last step of \<open>NodePublishVolume\<close> and \<open>NodeUnpublishVolume\<close>:
  they replace the status error by the raw one.

  The facts: a volume that could not be mounted is detached again and its status is not touched; a
  mounted volume's status names this node; a device is detached only after the mount point is gone;
  a volume attached to another node is attached here all the same.
\<close>

section \<open>State\<close>

definition TopologyKeyNode :: string where
  "TopologyKeyNode = ''topology.alcub.csi/node''"

record NodeSrv =
  n_store :: client
  n_alcub :: AlcubCon
  n_rbd :: Rbd
  maxVolumesPerNode :: int64
  nodeID :: string
  n_nodename :: string
  storeip :: string

text \<open>The callback remembers the first address of the named interface and stops there.\<close>

definition getStoraIfIp :: "error + (string \<times> (error + ifaddr list)) list \<Rightarrow> string \<Rightarrow> string" where
  "getStoraIfIp ifaces storeifname =
     (case LookupAddresses ifaces
         (\<lambda>name ip ipmask ipaddr. if name = storeifname then (False, IP_String ip) else (True, ipaddr)) [] of
        (Some err, ipaddr) \<Rightarrow> []
      | (None, ipaddr) \<Rightarrow> if ipaddr = [] then [] else ipaddr)"

definition NodeSrv_New ::
    "error + (string \<times> (error + ifaddr list)) list \<Rightarrow> client \<Rightarrow> AlcubCon \<Rightarrow> Rbd \<Rightarrow> string \<Rightarrow> string \<Rightarrow> error + NodeSrv" where
  "NodeSrv_New ifaces st al r nodename storeifname =
     (let node = \<lparr>n_store = st, n_alcub = al, n_rbd = r, maxVolumesPerNode = 0, nodeID = nodename,
                  n_nodename = nodename, storeip = getStoraIfIp ifaces storeifname\<rparr>
      in if storeip node = [] then Inl (GoPanic ''not found storage ip'') else Inr node)"

section \<open>Devices\<close>

definition detachDevice :: "'w env \<Rightarrow> CsiAlcub \<Rightarrow> NodeSrv \<Rightarrow> 'w \<Rightarrow> error option \<times> NodeSrv \<times> 'w" where
  "detachDevice E alcub c w =
     (case nil_conf (\<lambda>d. DoDisConn E (n_store c) d (Pool (Spec alcub)) (Image (Spec alcub))) w of
        (err, st, w1) \<Rightarrow> (err, c\<lparr>n_store := st\<rparr>, w1))"

definition attachDevice :: "'w env \<Rightarrow> CsiAlcub \<Rightarrow> NodeSrv \<Rightarrow> 'w \<Rightarrow> (error + string) \<times> NodeSrv \<times> 'w" where
  "attachDevice E alcub c w =
     (case nil_conf (\<lambda>d. DoConn E (n_store c) d (Pool (Spec alcub)) (Image (Spec alcub))) w of
        (Inl err, st, w1) \<Rightarrow> (Inl err, c\<lparr>n_store := st\<rparr>, w1)
      | (Inr dev, st, w1) \<Rightarrow>
          if dev = [] then (Inl (Errorf ''device path is null'' []), c\<lparr>n_store := st\<rparr>, w1)
          else (Inr dev, c\<lparr>n_store := st\<rparr>, w1))"

text \<open>\<open>preMountValid\<close>: the device and the nodes the success closure captures. Whether the volume
  is attached elsewhere (\<open>okAttach\<close>) is only logged.\<close>

definition preMountValid ::
    "'w env \<Rightarrow> CsiAlcub \<Rightarrow> NodeSrv \<Rightarrow> 'w \<Rightarrow> (error + string \<times> string list) \<times> NodeSrv \<times> 'w" where
  "preMountValid E alcub c w =
     (if Image (Spec alcub) = [] \<or> Pool (Spec alcub) = [] then (Inl (Errorf ''image or pool is null'' []), c, w)
      else (case nil_conf (\<lambda>d. GetImageStatus E (n_store c) d (Pool (Spec alcub)) (Image (Spec alcub))) w of
          (ready, st1, w1) \<Rightarrow>
            if \<not> ready then
              (Inl (Errorf ''image(%s) status is not ready, wait clear'' [AStr (Image (Spec alcub))]), c\<lparr>n_store := st1\<rparr>, w1)
            else (case nil_conf (\<lambda>d. GetNode E st1 d (n_nodename c)) w1 of
                (Inl err, st2, w2) \<Rightarrow> (Inl err, c\<lparr>n_store := st2\<rparr>, w2)
              | (Inr ns, st2, w2) \<Rightarrow>
                  (case attachDevice E alcub (c\<lparr>n_store := st2\<rparr>) w2 of
                     (Inl err, c3, w3) \<Rightarrow> (Inl err, c3, w3)
                   | (Inr dev, c3, w3) \<Rightarrow> (Inr (dev, ns), c3, w3)))))"

definition mount_failed :: "'w env \<Rightarrow> CsiAlcub \<Rightarrow> NodeSrv \<Rightarrow> 'w \<Rightarrow> NodeSrv \<times> 'w" where
  "mount_failed E alcub c w = snd (detachDevice E alcub c w)"

definition mount_status :: "NodeSrv \<Rightarrow> string \<Rightarrow> string list \<Rightarrow> CsiAlcubStatus \<Rightarrow> CsiAlcubStatus" where
  "mount_status c dev ns st =
     (let st1 = (if Node st \<noteq> [] then (if Prenode st = [] then st\<lparr>Prenode := Node st\<rparr> else st) else st)
      in st1\<lparr>Node := n_nodename c, AllNodes := ns, VolInfo := \<lparr>Devpath = dev, StorageIp = storeip c\<rparr>\<rparr>)"

definition mount_success :: "'w env \<Rightarrow> CsiAlcub \<Rightarrow> string \<Rightarrow> string list \<Rightarrow> NodeSrv \<Rightarrow> 'w \<Rightarrow> error option \<times> NodeSrv \<times> 'w" where
  "mount_success E alcub dev ns c w =
     (case AlcubCon_Update E (Name (Meta alcub)) None (Some (mount_status c dev ns (Status alcub))) w of
        (err, w1) \<Rightarrow> (err, c, w1))"

definition preUnmountValid :: "CsiAlcub \<Rightarrow> NodeSrv \<Rightarrow> error option" where
  "preUnmountValid alcub c =
     (if Node (Status alcub) \<noteq> n_nodename c
      then Some (Errorf ''node excepte:%v, but here is %v'' [AStr (Node (Status alcub)), AStr (n_nodename c)])
      else None)"

definition unmount_success :: "'w env \<Rightarrow> CsiAlcub \<Rightarrow> NodeSrv \<Rightarrow> 'w \<Rightarrow> error option \<times> NodeSrv \<times> 'w" where
  "unmount_success E alcub c w =
     (case detachDevice E alcub c w of
        (Some err, c1, w1) \<Rightarrow> (Some err, c1, w1)
      | (None, c1, w1) \<Rightarrow>
          (case AlcubCon_Update E (Name (Meta alcub)) None (Some ((Status alcub)\<lparr>Node := []\<rparr>)) w1 of
             (err, w2) \<Rightarrow> (err, c1, w2)))"

section \<open>Publishing\<close>

record NodePublishVolumeRequest =
  np_VolumeId :: string
  np_TargetPath :: string
  np_VolumeCapability :: "VolumeCapability option"
  np_Readonly :: bool

definition publish_check :: "NodePublishVolumeRequest \<Rightarrow> error option" where
  "publish_check req = (case np_VolumeCapability req of
     None \<Rightarrow> Some (status_Error InvalidArgument ''Volume capability missing in request'' [])
   | Some ca \<Rightarrow>
       if length (np_VolumeId req) = 0 then Some (status_Error InvalidArgument ''Volume ID missing in request'' [])
       else if length (np_TargetPath req) = 0 then Some (status_Error InvalidArgument ''Target path missing in request'' [])
       else if cap_Mount ca = None then Some (status_Error InvalidArgument ''only support mount access type'' [])
       else None)"

definition req_fsType :: "NodePublishVolumeRequest \<Rightarrow> string" where
  "req_fsType req = (case np_VolumeCapability req of
     None \<Rightarrow> [] | Some ca \<Rightarrow> (case cap_Mount ca of None \<Rightarrow> [] | Some m \<Rightarrow> FsType m))"

text \<open>The body between the preparation and the deferred function: the value \<open>reterr\<close> it leaves
  for the latter.\<close>

definition mount_body :: "'w env \<Rightarrow> NodePublishVolumeRequest \<Rightarrow> string \<Rightarrow> 'w \<Rightarrow> error option \<times> 'w" where
  "mount_body E req dev w =
     (let targetPath = np_TargetPath req;
          mnt = (\<lambda>notMnt w. if \<not> notMnt then (None, w)
            else format_mount E dev targetPath (req_fsType req) (if np_Readonly req then [''ro''] else []) w)
      in case likely_not_mnt E targetPath w of
           ((notMnt, None), w1) \<Rightarrow> mnt notMnt w1
         | ((notMnt, Some e), w1) \<Rightarrow>
             if os_IsNotExist e then
               (case mkdir_all E targetPath w1 of
                  (Some e', w2) \<Rightarrow> (Some e', w2)
                | (None, w2) \<Rightarrow> mnt True w2)
             else (Some e, w1))"

definition NodePublishVolume :: "'w env \<Rightarrow> NodePublishVolumeRequest \<Rightarrow> NodeSrv \<Rightarrow> 'w \<Rightarrow> error option \<times> NodeSrv \<times> 'w" where
  "NodePublishVolume E req c w = (case publish_check req of
     Some err \<Rightarrow> (Some err, c, w)
   | None \<Rightarrow> (case AlcubCon_GetByUuid E (np_VolumeId req) (n_alcub c) w of
       (None, w1) \<Rightarrow> (Some (status_Error NotFound ''not found resource by uuid %v'' [AStr (np_VolumeId req)]), c, w1)
     | (Some alcub, w1) \<Rightarrow> (case preMountValid E alcub c w1 of
         (Inl err, c1, w2) \<Rightarrow> (Some (status_Error Internal ''%v'' [AErr err]), c1, w2)
       | (Inr (dev, ns), c1, w2) \<Rightarrow> (case mount_body E req dev w2 of
           (Some reterr, w3) \<Rightarrow> (case mount_failed E alcub c1 w3 of (c2, w4) \<Rightarrow> (Some reterr, c2, w4))
         | (None, w3) \<Rightarrow> mount_success E alcub dev ns c1 w3))))"

section \<open>Unpublishing\<close>

record NodeUnpublishVolumeRequest =
  nu_VolumeId :: string
  nu_TargetPath :: string

definition unpublish_check :: "NodeUnpublishVolumeRequest \<Rightarrow> error option" where
  "unpublish_check req =
     (if length (nu_VolumeId req) = 0 then Some (status_Error InvalidArgument ''Volume ID missing in request'' [])
      else if length (nu_TargetPath req) = 0 then Some (status_Error InvalidArgument ''Target path missing in request'' [])
      else None)"

definition unmount_body :: "'w env \<Rightarrow> string \<Rightarrow> 'w \<Rightarrow> error option \<times> 'w" where
  "unmount_body E targetPath w = (case not_mnt E targetPath w of
     ((notMnt, err), w1) \<Rightarrow>
       if err \<noteq> None \<and> \<not> (case err of Some e \<Rightarrow> os_IsNotExist e | None \<Rightarrow> False) then (err, w1)
       else if \<not> notMnt then
         (case umount E targetPath w1 of
            (Some e, w2) \<Rightarrow> (Some e, w2)
          | (None, w2) \<Rightarrow> remove_all E targetPath w2)
       else remove_all E targetPath w1)"

text \<open>There is no failure closure: a failed unmount only returns the error.\<close>

definition NodeUnpublishVolume :: "'w env \<Rightarrow> NodeUnpublishVolumeRequest \<Rightarrow> NodeSrv \<Rightarrow> 'w \<Rightarrow> error option \<times> NodeSrv \<times> 'w" where
  "NodeUnpublishVolume E req c w = (case unpublish_check req of
     Some err \<Rightarrow> (Some err, c, w)
   | None \<Rightarrow> (case AlcubCon_GetByUuid E (nu_VolumeId req) (n_alcub c) w of
       (None, w1) \<Rightarrow> (Some (status_Error NotFound ''not found resource by uuid %v'' [AStr (nu_VolumeId req)]), c, w1)
     | (Some alcub, w1) \<Rightarrow> (case preUnmountValid alcub c of
         Some err \<Rightarrow> (Some (status_Error Internal ''%v'' [AErr err]), c, w1)
       | None \<Rightarrow> (case unmount_body E (nu_TargetPath req) w1 of
           (Some err, w2) \<Rightarrow> (Some err, c, w2)
         | (None, w2) \<Rightarrow> unmount_success E alcub c w2))))"

section \<open>The other calls\<close>

definition NodeStageVolume :: "string \<Rightarrow> string \<Rightarrow> VolumeCapability option \<Rightarrow> error option" where
  "NodeStageVolume volid staging ca =
     (if length volid = 0 then Some (status_Error InvalidArgument ''Volume ID missing in request'' [])
      else if length staging = 0 then Some (status_Error InvalidArgument ''Target path missing in request'' [])
      else if ca = None then Some (status_Error InvalidArgument ''Volume Capability missing in request'' [])
      else None)"

definition NodeUnstageVolume :: "string \<Rightarrow> string \<Rightarrow> error option" where
  "NodeUnstageVolume volid staging =
     (if length volid = 0 then Some (status_Error InvalidArgument ''Volume ID missing in request'' [])
      else if length staging = 0 then Some (status_Error InvalidArgument ''Target path missing in request'' [])
      else None)"

record NodeGetInfoResponse =
  NodeId :: string
  MaxVolumesPerNode :: int64
  ni_Topology :: gomap

definition NodeGetInfo :: "NodeSrv \<Rightarrow> NodeGetInfoResponse" where
  "NodeGetInfo c = \<lparr>NodeId = nodeID c, MaxVolumesPerNode = maxVolumesPerNode c,
     ni_Topology = Some [(TopologyKeyNode, nodeID c)]\<rparr>"

text \<open>One capability whose RPC type is the zero value \<open>UNKNOWN\<close>.\<close>

datatype node_cap = UNKNOWN

definition NodeGetCapabilities :: "node_cap list" where
  "NodeGetCapabilities = [UNKNOWN]"

definition NodeGetVolumeStats :: "error option" where
  "NodeGetVolumeStats = Some (status_Error Unimplemented '''' [])"

definition NodeExpandVolume :: "error option" where
  "NodeExpandVolume = Some (status_Error Unimplemented ''Not impl'' [])"

section \<open>The calls of the steps\<close>

definition mount_event :: "event \<Rightarrow> bool" where
  "mount_event e \<longleftrightarrow> (\<exists>p x. e = EvLikely p x) \<or> (\<exists>p x. e = EvNotMnt p x) \<or> (\<exists>p x. e = EvMkdir p x)
     \<or> (\<exists>d t f os x. e = EvMount d t f os x) \<or> (\<exists>p x. e = EvUmount p x) \<or> (\<exists>p x. e = EvRemove p x)"

lemma mount_event_simps [simp]: "mount_event (EvLikely p x1)" "mount_event (EvNotMnt p x1)" "mount_event (EvMkdir p x2)"
  "mount_event (EvMount d t f os x2)" "mount_event (EvUmount p x2)" "mount_event (EvRemove p x2)"
  by (auto simp: mount_event_def)

text \<open>A mount that worked: the target was a mount point already, or the device was mounted last.\<close>

definition mounted :: "NodePublishVolumeRequest \<Rightarrow> string \<Rightarrow> event list \<Rightarrow> bool" where
  "mounted req dev ms \<longleftrightarrow> ms = [EvLikely (np_TargetPath req) (False, None)] \<or>
     (\<exists>pre. ms = pre @ [EvMount dev (np_TargetPath req) (req_fsType req) (if np_Readonly req then [''ro''] else []) None])"

text \<open>A mount that failed: the last call of the mount library returned the error.\<close>

definition mount_error :: "NodePublishVolumeRequest \<Rightarrow> string \<Rightarrow> error \<Rightarrow> event list \<Rightarrow> bool" where
  "mount_error req dev e ms \<longleftrightarrow> ms \<noteq> [] \<and>
     (last ms = EvLikely (np_TargetPath req) (True, Some e) \<or> last ms = EvLikely (np_TargetPath req) (False, Some e)
      \<or> last ms = EvMkdir (np_TargetPath req) (Some e)
      \<or> last ms = EvMount dev (np_TargetPath req) (req_fsType req) (if np_Readonly req then [''ro''] else []) (Some e))"

lemma mount_body_log:
  assumes "mount_body (traced E) req dev (w, l) = (r, w', l')"
  shows "\<exists>ms. l' = l @ ms \<and> list_all mount_event ms
    \<and> (case r of None \<Rightarrow> mounted req dev ms | Some e \<Rightarrow> mount_error req dev e ms)"
proof -
  let ?t = "np_TargetPath req"
  let ?m = "format_mount E dev ?t (req_fsType req) (if np_Readonly req then [''ro''] else [])"
  obtain b e w1 where lk: "likely_not_mnt E ?t w = ((b, e), w1)" by (metis prod.collapse)
  obtain me w2 where mk: "mkdir_all E ?t w1 = (me, w2)" by (cases "mkdir_all E ?t w1")
  obtain f1 v1 where f1: "?m w1 = (f1, v1)" by (cases "?m w1")
  obtain f2 v2 where f2: "?m w2 = (f2, v2)" by (cases "?m w2")
  show ?thesis
    using assms lk mk f1 f2
    by (cases e; cases b; cases me; cases "os_IsNotExist (the e)"; cases f1; cases f2)
      (auto simp: mount_body_def env_defs Let_def mounted_def mount_error_def)
qed

text \<open>The client of a node that has connected: it knows where it sent the request \<open>qc\<close>, and its URL is
  empty only if one of the calls \<open>pre\<close> before it read the attribute as empty.\<close>

definition connected_to :: "client \<Rightarrow> http_req \<Rightarrow> event list \<Rightarrow> bool" where
  "connected_to st qc pre \<longleftrightarrow> (\<exists>d u b. dynConf st = Some d \<and> url_Parse (AlucbUrl d) = Inr u \<and> qc = sent st POST b u
     \<and> (AlucbUrl d = [] \<longrightarrow> AlucbPool (conf st) \<noteq> [] \<and> (\<exists>o1. url_query st d o1 \<in> set pre \<and> Out o1 = [])))"

lemma sent_conf: "conf c' = conf c \<Longrightarrow> sent c' = sent c" "conf c' = conf c \<Longrightarrow> url_query c' = url_query c"
  by (auto simp: sent_def dev_url_def auth_of_def url_query_def fun_eq_iff)

lemma attach_log:
  assumes "attachDevice (traced E) a c (w, l) = (Inr dev, c', w', l')"
  shows "\<exists>pre qc an. l' = l @ pre @ [EvHttp qc (Inr an)] \<and> Body qc = op_body ''dev_connect'' [(''image'', Image (Spec a)), (''pool'', Pool (Spec a))]
    \<and> names_dev an dev \<and> connected_to (n_store c') qc pre"
proof -
  let ?p = "Pool (Spec a)" and ?i = "Image (Spec a)"
  obtain st where s: "nil_conf (\<lambda>d. DoConn (traced E) (n_store c) d ?p ?i) (w, l) = (Inr dev, st, w', l')" "c' = c\<lparr>n_store := st\<rparr>"
    using assms by (auto simp: attachDevice_def split: prod.splits sum.splits if_splits)
  from s(1) obtain dc where d: "DoConn (traced E) (n_store c) None ?p ?i (w, l) = (Inr dev, dc, st, w', l')"
    by (rule nil_conf_cases)
  from d obtain d u an pre where c: "dynConf st = Some d" "url_Parse (AlucbUrl d) = Inr u" "conf st = conf (n_store c)"
    "l' = l @ pre @ [EvHttp (sent (n_store c) POST (op_body ''dev_connect'' [(''image'', ?i), (''pool'', ?p)]) u) (Inr an)]" "names_dev an dev"
    "AlucbUrl d = [] \<Longrightarrow> AlucbPool (conf (n_store c)) \<noteq> [] \<and> (\<exists>o1. url_query (n_store c) d o1 \<in> set pre \<and> cmd_ok o1 \<and> Out o1 = [])"
    by (rule conn_ok_url) blast
  let ?q = "sent (n_store c) POST (op_body ''dev_connect'' [(''image'', ?i), (''pool'', ?p)]) u"
  have "connected_to st ?q pre" unfolding connected_to_def using c sent_conf [OF c(3)] by auto
  moreover have "Body ?q = op_body ''dev_connect'' [(''image'', ?i), (''pool'', ?p)]" by (simp add: sent_def)
  ultimately show ?thesis using s(2) c(4,5) by auto
qed

lemma preMount_log:
  assumes "preMountValid (traced E) a c (w, l) = (r, c', w', l')"
  shows "grows store_event l l' \<and> n_nodename c' = n_nodename c \<and> storeip c' = storeip c
    \<and> (\<forall>dev ns. r = Inr (dev, ns) \<longrightarrow> dev \<noteq> [] \<and> (\<exists>pre qc an. l' = l @ pre @ [EvHttp qc (Inr an)]
        \<and> Body qc = op_body ''dev_connect'' [(''image'', Image (Spec a)), (''pool'', Pool (Spec a))]
        \<and> names_dev an dev \<and> connected_to (n_store c') qc pre))"
proof (cases "Image (Spec a) = [] \<or> Pool (Spec a) = []")
  case True
  with assms show ?thesis by (auto simp: preMountValid_def)
next
  case False
  let ?p = "Pool (Spec a)" and ?i = "Image (Spec a)"
  obtain b st1 w1 l1 where s: "nil_conf (\<lambda>d. GetImageStatus (traced E) (n_store c) d ?p ?i) (w, l) = (b, st1, w1, l1)"
    by (metis prod_cases4)
  obtain ns st2 w2 l2 where n: "nil_conf (\<lambda>d. GetNode (traced E) st1 d (n_nodename c)) (w1, l1) = (ns, st2, w2, l2)"
    by (metis prod_cases4)
  obtain dv c3 w3 l3 where d: "attachDevice (traced E) a (c\<lparr>n_store := st2\<rparr>) (w2, l2) = (dv, c3, w3, l3)"
    by (metis prod_cases4)
  from d obtain x st3 where x: "nil_conf (\<lambda>d. DoConn (traced E) st2 d ?p ?i) (w2, l2) = (x, st3, w3, l3)" "c3 = c\<lparr>n_store := st3\<rparr>"
    by (auto simp: attachDevice_def split: prod.splits sum.splits if_splits)
  note g = al.ready_grows [OF s] al.peers_grows [OF n] al.conn_grows [OF x(1)]
  have g2: "grows store_event l l2" using g(1,2) by (rule grows_trans)
  have g3: "grows store_event l l3" using g2 g(3) by (rule grows_trans)
  show ?thesis
  proof (cases "b \<and> (\<exists>x. ns = Inr x) \<and> (\<exists>x. dv = Inr x)")
    case True
    then obtain m dev where y: "b" "ns = Inr m" "dv = Inr dev" by blast
    have r: "r = Inr (dev, m)" "c' = c3" "w' = w3" "l' = l3"
      using assms False s n d y by (auto simp: preMountValid_def)
    have "dev \<noteq> []" using d y(3) by (auto simp: attachDevice_def split: prod.splits sum.splits if_splits)
    moreover obtain pre qc an where at: "l3 = l2 @ pre @ [EvHttp qc (Inr an)]"
      "Body qc = op_body ''dev_connect'' [(''image'', ?i), (''pool'', ?p)]" "names_dev an dev" "connected_to (n_store c3) qc pre"
      using attach_log [OF d [unfolded y(3)]] by blast
    moreover obtain l0 where "l2 = l @ l0" using g2 by (auto simp: grows_def)
    moreover have "connected_to (n_store c3) qc (l0 @ pre)" using at(4) by (auto simp: connected_to_def)
    ultimately show ?thesis using r x(2) g3 by (auto intro!: exI [of _ "l0 @ pre"])
  next
    case no: False
    with assms False s n d x(2) g(1) g2 g3 show ?thesis
      by (cases b; cases ns; cases dv) (auto simp: preMountValid_def)
  qed
qed

lemma detach_log:
  assumes "detachDevice (traced E) a c (w, l) = (r, c', w', l')"
  shows "grows store_event l l' \<and> (r = None \<longrightarrow> (\<exists>q an. l' \<noteq> l \<and> last l' = EvHttp q (Inr an)
    \<and> Body q = op_body ''dev_disconnect'' [(''image'', Image (Spec a)), (''pool'', Pool (Spec a))] \<and> reports_no_error an))"
proof -
  from assms obtain st where s:
    "nil_conf (\<lambda>d. DoDisConn (traced E) (n_store c) d (Pool (Spec a)) (Image (Spec a))) (w, l) = (r, st, w', l')"
    by (auto simp: detachDevice_def split: prod.splits)
  show ?thesis using al.disconn_grows [OF s] al.disconn_last [of E "n_store c" "Pool (Spec a)" "Image (Spec a)" w l st w' l'] s
    by auto
qed

text \<open>What is sent to disconnect a device that was connected by the request \<open>qc\<close>: one request to the same
  URL. Only when the URL of the server had been read as empty before (by one of the calls \<open>pre\<close>) it is
  asked for again first, and the request is not sent if that fails or gives no URL.\<close>

definition disconnect_sent :: "CsiAlcub \<Rightarrow> http_req \<Rightarrow> event list \<Rightarrow> event list \<Rightarrow> bool" where
  "disconnect_sent a qc pre ds \<longleftrightarrow>
     (let is_req = (\<lambda>q. Method q = POST \<and> Body q = op_body ''dev_disconnect'' [(''image'', Image (Spec a)), (''pool'', Pool (Spec a))])
      in (\<exists>q an. ds = [EvHttp q an] \<and> is_req q \<and> Url q = Url qc)
       \<or> (\<exists>as o1 o2. EvCmd ''rados'' as o1 \<in> set pre \<and> Out o1 = []
            \<and> ((ds = [EvCmd ''rados'' as o2] \<and> (\<not> cmd_ok o2 \<or> (\<exists>e. url_Parse (Out o2) = Inl e)))
             \<or> (\<exists>q an. ds = [EvCmd ''rados'' as o2, EvHttp q an] \<and> is_req q))))"

lemma detach_sent:
  assumes "detachDevice (traced E) a c (w, l) = (r, c', w', l')" "connected_to (n_store c) qc pre"
  shows "\<exists>ds. l' = l @ ds \<and> disconnect_sent a qc pre ds"
proof -
  let ?b = "op_body ''dev_disconnect'' [(''image'', Image (Spec a)), (''pool'', Pool (Spec a))]"
  from assms(1) obtain st where s:
    "nil_conf (\<lambda>d. DoDisConn (traced E) (n_store c) d (Pool (Spec a)) (Image (Spec a))) (w, l) = (r, st, w', l')"
    by (auto simp: detachDevice_def split: prod.splits)
  then obtain dc where d: "DoDisConn (traced E) (n_store c) None (Pool (Spec a)) (Image (Spec a)) (w, l) = (r, dc, st, w', l')"
    by (rule nil_conf_cases)
  from assms(2) obtain d u b where c: "dynConf (n_store c) = Some d" "url_Parse (AlucbUrl d) = Inr u" "qc = sent (n_store c) POST b u"
    "AlucbUrl d = [] \<longrightarrow> AlucbPool (conf (n_store c)) \<noteq> [] \<and> (\<exists>o1. url_query (n_store c) d o1 \<in> set pre \<and> Out o1 = [])"
    by (auto simp: connected_to_def)
  have q: "Method (sent (n_store c) POST ?b v) = POST" "Body (sent (n_store c) POST ?b v) = ?b" "Url (sent (n_store c) POST ?b u) = Url qc" for v
    by (simp_all add: sent_def c(3))
  show ?thesis
  proof (cases "AlucbUrl d = []")
    case False
    with disconn_sent [OF d c(1,2)] obtain an where "l' = l @ [EvHttp (sent (n_store c) POST ?b u) an]" by auto
    then show ?thesis using q by (auto simp: disconnect_sent_def)
  next
    case True
    with c(4) obtain o1 where "AlucbPool (conf (n_store c)) \<noteq> []" "url_query (n_store c) d o1 \<in> set pre" "Out o1 = []" by blast
    with disconn_sent [OF d c(1,2)] True q show ?thesis unfolding disconnect_sent_def url_query_def by (auto simp: Let_def)
  qed
qed

text \<open>The calls of a status update: a read and at most five updates of what was read.\<close>

definition status_update :: "string \<Rightarrow> CsiAlcubStatus \<Rightarrow> error option \<Rightarrow> event list \<Rightarrow> bool" where
  "status_update n st r us \<longleftrightarrow> (\<exists>e. us = [EvGet n (Inl e)] \<and> r = Some e) \<or>
     (\<exists>a rs. us = EvGet n (Inr a) # map (EvUpdate (a\<lparr>Status := st\<rparr>)) rs \<and> rs \<noteq> [] \<and> length rs \<le> 5)"

lemma Update_log:
  assumes "AlcubCon_Update (traced E) n None (Some st) (w, l) = (r, w', l')"
  shows "\<exists>us. l' = l @ us \<and> status_update n st r us"
proof -
  obtain g w1 where g: "kube_get E n w = (g, w1)" by (cases "kube_get E n w")
  show ?thesis
  proof (cases g)
    case (Inl e)
    with assms g show ?thesis by (auto simp: AlcubCon_Update_def env_defs status_update_def)
  next
    case (Inr a)
    let ?b = "a\<lparr>Status := st\<rparr>"
    have "RetryOnConflict DefaultRetry (logged (EvUpdate ?b) (kube_update E ?b)) (w1, l @ [EvGet n (Inr a)]) = (r, w', l')"
      using assms g Inr by (simp add: AlcubCon_Update_def env_defs Let_def)
    then obtain rs where "l' = (l @ [EvGet n (Inr a)]) @ map (EvUpdate ?b) rs" "rs \<noteq> []" "length rs \<le> 5"
      by (rule retry_update_log)
    then show ?thesis by (auto simp: status_update_def)
  qed
qed

section \<open>Publishing a volume\<close>

text \<open>Looking a volume up reads at most its resource.\<close>

lemma GetByUuid_log:
  assumes "AlcubCon_GetByUuid (traced E) v al (w, []) = (x, w1, l1)"
  shows "list_all (\<lambda>e. \<exists>n g. e = EvGet n g) l1 \<and> (\<forall>a. x = Some a \<longrightarrow> l1 = [EvGet (getNameByuuid v al) (Inr a)])"
  using assms by (auto simp: AlcubCon_GetByUuid_def AlcubCon_GetByName_def env_defs Let_def split: if_splits sum.splits)

text \<open>What follows the calls of the mount library.\<close>

lemma publish_ends:
  assumes "case e of None \<Rightarrow> mount_success (traced E) a dev ns c (w, l) = (r, c', w', l')
      | Some x \<Rightarrow> r = Some x \<and> mount_failed (traced E) a c (w, l) = (c', w', l')"
    and "case e of None \<Rightarrow> mounted req dev ms | Some x \<Rightarrow> mount_error req dev x ms" "connected_to (n_store c) qc pre"
  shows "(\<exists>x ds. r = Some x \<and> mount_error req dev x ms \<and> l' = l @ ds \<and> disconnect_sent a qc pre ds)
    \<or> (\<exists>us. mounted req dev ms \<and> l' = l @ us \<and> status_update (Name (Meta a)) (mount_status c dev ns (Status a)) r us)"
proof (cases e)
  case None
  then have "AlcubCon_Update (traced E) (Name (Meta a)) None (Some (mount_status c dev ns (Status a))) (w, l) = (r, w', l')"
    using assms(1) by (auto simp: mount_success_def split: prod.splits)
  from Update_log [OF this] None assms(2) show ?thesis by auto
next
  case (Some x)
  obtain y c1 w1 l1 where "detachDevice (traced E) a c (w, l) = (y, c1, w1, l1)" by (metis prod_cases4)
  with assms(1) Some have "detachDevice (traced E) a c (w, l) = (y, c', w', l')" by (simp add: mount_failed_def)
  from detach_sent [OF this assms(3)] Some assms(1,2) show ?thesis by auto
qed

text \<open>C3: The calls of publishing a volume. Either it fails before anything is mounted, after calls to
  the API server and the alcubierre server only. Or the resource was read, a device was connected whose
  name the answer gives, and calls of the mount library follow. If the last of these failed, its error is
  returned, the resource is not updated, and the last action is to send the request that disconnects the
  device to the server that connected it; only if the URL of that server was answered as empty, it is asked
  for again before, and nothing is sent when that fails. If the device is mounted, the resource is read again and sent with
  a status that names this node, its storage address and the device.\<close>

theorem NodePublish_order:
  assumes "NodePublishVolume (traced E) req c (w, []) = (r, c', w', l)"
  shows "(r \<noteq> None \<and> list_all (\<lambda>e. store_event e \<or> (\<exists>n g. e = EvGet n g)) l)
   \<or> (\<exists>a pre qc an ms dev ns l1.
       l1 = EvGet (getNameByuuid (np_VolumeId req) (n_alcub c)) (Inr a) # pre @ EvHttp qc (Inr an) # ms
       \<and> list_all store_event pre \<and> list_all mount_event ms \<and> dev \<noteq> []
       \<and> Body qc = op_body ''dev_connect'' [(''image'', Image (Spec a)), (''pool'', Pool (Spec a))] \<and> names_dev an dev
       \<and> ((\<exists>e ds. r = Some e \<and> mount_error req dev e ms \<and> l = l1 @ ds \<and> disconnect_sent a qc pre ds)
        \<or> (\<exists>us. mounted req dev ms \<and> l = l1 @ us \<and> status_update (Name (Meta a)) (mount_status c dev ns (Status a)) r us)))"
proof (cases "publish_check req")
  case (Some e)
  with assms have "r = Some e" "l = []" by (simp_all add: NodePublishVolume_def)
  then show ?thesis by simp
next
  case ok: None
  let ?n = "getNameByuuid (np_VolumeId req) (n_alcub c)"
  obtain g w1 l1 where g: "AlcubCon_GetByUuid (traced E) (np_VolumeId req) (n_alcub c) (w, []) = (g, w1, l1)" by (metis prod.collapse)
  have gets: "list_all (\<lambda>e. store_event e \<or> (\<exists>n g. e = EvGet n g)) l1" using GetByUuid_log [OF g] by (auto simp: list_all_iff)
  show ?thesis
  proof (cases g)
    case None
    with assms ok g gets show ?thesis by (intro disjI1) (auto simp: NodePublishVolume_def)
  next
    case (Some a)
    then have l1: "l1 = [EvGet ?n (Inr a)]" using GetByUuid_log [OF g] by simp
    obtain x c1 w2 l2 where p: "preMountValid (traced E) a c (w1, l1) = (x, c1, w2, l2)" by (metis prod_cases4)
    note pl = preMount_log [OF p]
    then have pre: "list_all (\<lambda>e. store_event e \<or> (\<exists>n g. e = EvGet n g)) l2" using gets by (auto simp: grows_def list_all_iff)
    show ?thesis
    proof (cases x)
      case (Inl e)
      with assms ok g Some p pre show ?thesis by (intro disjI1) (auto simp: NodePublishVolume_def)
    next
      case (Inr y)
      obtain dev ns where y: "x = Inr (dev, ns)" using Inr by (cases y) auto
      with pl obtain ps qc an where con: "dev \<noteq> []" "l2 = EvGet ?n (Inr a) # ps @ [EvHttp qc (Inr an)]"
        "Body qc = op_body ''dev_connect'' [(''image'', Image (Spec a)), (''pool'', Pool (Spec a))]" "names_dev an dev"
        "connected_to (n_store c1) qc ps" unfolding l1 by auto
      have ps: "list_all store_event ps" using pl con(2) unfolding l1 by (auto simp: grows_def)
      obtain e w3 l3 where m: "mount_body (traced E) req dev (w2, l2) = (e, w3, l3)" by (metis prod_cases3)
      from mount_body_log [OF m] con(2) obtain ms where ms: "l3 = EvGet ?n (Inr a) # ps @ EvHttp qc (Inr an) # ms" "list_all mount_event ms"
        "case e of None \<Rightarrow> mounted req dev ms | Some e \<Rightarrow> mount_error req dev e ms" by auto
      have st: "mount_status c1 dev ns (Status a) = mount_status c dev ns (Status a)" using pl by (simp add: mount_status_def)
      have "case e of None \<Rightarrow> mount_success (traced E) a dev ns c1 (w3, l3) = (r, c', w', l)
          | Some x \<Rightarrow> r = Some x \<and> mount_failed (traced E) a c1 (w3, l3) = (c', w', l)"
        using assms ok g Some p y m by (auto simp: NodePublishVolume_def split: option.splits prod.splits)
      from publish_ends [OF this ms(3) con(5)] con ms ps st show ?thesis
        by (intro disjI2 exI [of _ a] exI [of _ ps] exI [of _ qc] exI [of _ an] exI [of _ ms] exI [of _ dev] exI [of _ ns]
            exI [of _ l3]) auto
    qed
  qed
qed

text \<open>Whether a volume is attached to another node makes no difference to attaching it here: the
  preparation ignores the status, and the status it is given afterwards names this node, remembering
  the first other node.\<close>

theorem preMount_ignores_status:
  "preMountValid E (a\<lparr>Status := st\<rparr>) c w = preMountValid E a c w
   \<and> Node (mount_status c dev ns st) = n_nodename c
   \<and> Prenode (mount_status c dev ns st) = (if Node st \<noteq> [] \<and> Prenode st = [] then Node st else Prenode st)"
proof -
  have s: "Spec (a\<lparr>Status := st\<rparr>) = Spec a" by simp
  have "preMountValid E (a\<lparr>Status := st\<rparr>) c w = preMountValid E a c w"
    unfolding preMountValid_def attachDevice_def s by (rule refl)
  then show ?thesis by (simp add: mount_status_def Let_def)
qed

section \<open>Unpublishing a volume\<close>

text \<open>The mount point is gone: unmounted if it was a mount point, and removed.\<close>

definition unmounted :: "string \<Rightarrow> event list \<Rightarrow> bool" where
  "unmounted t ms \<longleftrightarrow> (\<exists>err.
     ms = [EvNotMnt t (True, err), EvRemove t None] \<or> ms = [EvNotMnt t (False, err), EvUmount t None, EvRemove t None])"

lemma unmount_body_log:
  assumes "unmount_body (traced E) t (w, l) = (r, w', l')"
  shows "\<exists>ms. l' = l @ ms \<and> list_all mount_event ms \<and> (r = None \<longrightarrow> unmounted t ms)"
proof -
  obtain b e w1 where nm: "not_mnt E t w = ((b, e), w1)" by (metis prod.collapse)
  obtain u w2 where u: "umount E t w1 = (u, w2)" by (cases "umount E t w1")
  obtain x1 v1 where x1: "remove_all E t w1 = (x1, v1)" by (cases "remove_all E t w1")
  obtain x2 v2 where x2: "remove_all E t w2 = (x2, v2)" by (cases "remove_all E t w2")
  show ?thesis using assms nm u x1 x2
    by (cases b; cases u) (auto simp: unmount_body_def env_defs unmounted_def split: if_splits option.splits)
qed

text \<open>What follows the removal of the mount point.\<close>

lemma unpublish_ends:
  assumes "unmount_success (traced E) a c (w, l) = (r, c', w', l')"
  shows "\<exists>ds us. l' = l @ ds @ us \<and> list_all store_event ds
    \<and> (if us = [] then r \<noteq> None
       else status_update (Name (Meta a)) ((Status a)\<lparr>Node := []\<rparr>) r us
         \<and> (\<exists>q an. last ds = EvHttp q (Inr an)
             \<and> Body q = op_body ''dev_disconnect'' [(''image'', Image (Spec a)), (''pool'', Pool (Spec a))] \<and> reports_no_error an))"
proof -
  obtain d c1 w3 l3 where d: "detachDevice (traced E) a c (w, l) = (d, c1, w3, l3)" by (metis prod_cases4)
  from detach_log [OF d] obtain ds where ds: "l3 = l @ ds" "list_all store_event ds" by (auto simp: grows_def)
  show ?thesis
  proof (cases d)
    case (Some e)
    with assms d ds show ?thesis by (intro exI [of _ ds] exI [of _ "[]"]) (auto simp: unmount_success_def)
  next
    case None
    then have "AlcubCon_Update (traced E) (Name (Meta a)) None (Some ((Status a)\<lparr>Node := []\<rparr>)) (w3, l3) = (r, w', l')"
      using assms d by (auto simp: unmount_success_def split: prod.splits)
    from Update_log [OF this] obtain us where us: "l' = l3 @ us" "status_update (Name (Meta a)) ((Status a)\<lparr>Node := []\<rparr>) r us" by blast
    have "us \<noteq> []" using us(2) by (auto simp: status_update_def)
    moreover have "\<exists>q an. last ds = EvHttp q (Inr an)
        \<and> Body q = op_body ''dev_disconnect'' [(''image'', Image (Spec a)), (''pool'', Pool (Spec a))] \<and> reports_no_error an"
      using detach_log [OF d] None ds(1) by (cases "ds = []") auto
    ultimately show ?thesis using us ds by (intro exI [of _ ds] exI [of _ us]) simp
  qed
qed

text \<open>C4: A device is detached only after its mount point is gone, and a volume's status is cleared only
  after the device was detached. Unpublishing either fails after reading the resource, also when the
  volume is not attached to this node; or fails after calls of the mount library only; or the mount
  point was removed, and then come the disconnection and, only if that request was answered and the answer
  carries no error text, the update of the status with no node.\<close>

theorem NodeUnpublish_order:
  assumes "NodeUnpublishVolume (traced E) req c (w, []) = (r, c', w', l)"
  shows "(r \<noteq> None \<and> list_all (\<lambda>e. \<exists>n g. e = EvGet n g) l)
   \<or> (\<exists>a ms. Node (Status a) = n_nodename c
       \<and> ((r \<noteq> None \<and> list_all mount_event ms \<and> l = EvGet (getNameByuuid (nu_VolumeId req) (n_alcub c)) (Inr a) # ms)
        \<or> (\<exists>ds us. unmounted (nu_TargetPath req) ms
             \<and> l = EvGet (getNameByuuid (nu_VolumeId req) (n_alcub c)) (Inr a) # ms @ ds @ us
             \<and> list_all store_event ds
             \<and> (if us = [] then r \<noteq> None
                else status_update (Name (Meta a)) ((Status a)\<lparr>Node := []\<rparr>) r us
                  \<and> (\<exists>q an. last ds = EvHttp q (Inr an)
                      \<and> Body q = op_body ''dev_disconnect'' [(''image'', Image (Spec a)), (''pool'', Pool (Spec a))]
                      \<and> reports_no_error an)))))"
proof (cases "unpublish_check req")
  case (Some e)
  with assms have "r = Some e" "l = []" by (simp_all add: NodeUnpublishVolume_def)
  then show ?thesis by simp
next
  case ok: None
  let ?n = "getNameByuuid (nu_VolumeId req) (n_alcub c)"
  obtain g w1 l1 where g: "AlcubCon_GetByUuid (traced E) (nu_VolumeId req) (n_alcub c) (w, []) = (g, w1, l1)" by (metis prod.collapse)
  note gets = GetByUuid_log [OF g]
  show ?thesis
  proof (cases "\<exists>a. g = Some a \<and> preUnmountValid a c = None")
    case False
    with assms ok g gets show ?thesis by (intro disjI1) (auto simp: NodeUnpublishVolume_def split: option.splits)
  next
    case True
    then obtain a where a: "g = Some a" "preUnmountValid a c = None" by blast
    then have l1: "l1 = [EvGet ?n (Inr a)]" and node: "Node (Status a) = n_nodename c"
      using gets by (auto simp: preUnmountValid_def split: if_splits)
    obtain e w2 l2 where u: "unmount_body (traced E) (nu_TargetPath req) (w1, l1) = (e, w2, l2)" by (metis prod_cases3)
    from unmount_body_log [OF u] obtain ms where ms: "l2 = EvGet ?n (Inr a) # ms" "list_all mount_event ms"
      "e = None \<longrightarrow> unmounted (nu_TargetPath req) ms" unfolding l1 by auto
    show ?thesis
    proof (cases e)
      case (Some e')
      with assms ok g a u ms node show ?thesis
        by (intro disjI2 exI [of _ a] exI [of _ ms]) (auto simp: NodeUnpublishVolume_def)
    next
      case None
      then have "unmount_success (traced E) a c (w2, l2) = (r, c', w', l)"
        using assms ok g a u by (simp add: NodeUnpublishVolume_def)
      from unpublish_ends [OF this] obtain ds us where "l = l2 @ ds @ us" "list_all store_event ds" "if us = [] then r \<noteq> None
          else status_update (Name (Meta a)) ((Status a)\<lparr>Node := []\<rparr>) r us \<and> (\<exists>q an. last ds = EvHttp q (Inr an)
            \<and> Body q = op_body ''dev_disconnect'' [(''image'', Image (Spec a)), (''pool'', Pool (Spec a))] \<and> reports_no_error an)" by blast
      with ms None node show ?thesis
        by (intro disjI2 exI [of _ a] exI [of _ ms] conjI disjI2 exI [of _ ds] exI [of _ us]) auto
    qed
  qed
qed

section \<open>The storage address\<close>

text \<open>The IP addresses of the interfaces with a name, in the order of the listing.\<close>

fun addr_ips :: "ifaddr list \<Rightarrow> IP list" where
  "addr_ips [] = []"
| "addr_ips (IPAddr ip # as) = ip # addr_ips as"
| "addr_ips (IPNet ip ipmask # as) = ip # addr_ips as"
| "addr_ips (OtherAddr # as) = addr_ips as"

fun iface_ips :: "string \<Rightarrow> (string \<times> ifaddr list) list \<Rightarrow> IP list" where
  "iface_ips ifname [] = []"
| "iface_ips ifname ((n, as) # is) = (if n = ifname then addr_ips as else []) @ iface_ips ifname is"

abbreviation remember :: "string \<Rightarrow> string \<Rightarrow> IP \<Rightarrow> IP \<Rightarrow> string \<Rightarrow> bool \<times> string" where
  "remember ifname \<equiv> (\<lambda>name ip ipmask ipaddr. if name = ifname then (False, IP_String ip) else (True, ipaddr))"

lemma addrs_loop_find:
  "addrs_loop (remember ifname) name as s =
     (if name = ifname \<and> addr_ips as \<noteq> [] then (IP_String (hd (addr_ips as)), True) else (s, False))"
  by (induction as rule: addr_ips.induct) auto

lemma ifaces_loop_find:
  "ifaces_loop (remember ifname) (map (\<lambda>(n, as). (n, Inr as)) is) s =
     (None, if iface_ips ifname is = [] then s else IP_String (hd (iface_ips ifname is)))"
  by (induction ifname "is" rule: iface_ips.induct) (auto simp: addrs_loop_find)

text \<open>When every interface's addresses can be listed, the storage address is the text of the first IP
  address of the named interface, in the order of the listing; without one the node service does not
  start.\<close>

theorem storage_address:
  "NodeSrv_New (Inr (map (\<lambda>(n, as). (n, Inr as)) is)) st al r nodename ifname =
     (case iface_ips ifname is of
        [] \<Rightarrow> Inl (GoPanic ''not found storage ip'')
      | ip # _ \<Rightarrow>
          if IP_String ip = [] then Inl (GoPanic ''not found storage ip'')
          else Inr \<lparr>n_store = st, n_alcub = al, n_rbd = r, maxVolumesPerNode = 0, nodeID = nodename,
             n_nodename = nodename, storeip = IP_String ip\<rparr>)"
  by (cases "iface_ips ifname is")
    (simp_all add: NodeSrv_New_def getStoraIfIp_def LookupAddresses_def ifaces_loop_find Let_def)

section \<open>Witnesses\<close>

definition demo_srv :: NodeSrv where
  "demo_srv = \<lparr>n_store = demo_client, n_alcub = demo_al, n_rbd = NewRbd, maxVolumesPerNode = 0,
     nodeID = ''node-1'', n_nodename = ''node-1'', storeip = ''10.0.0.5''\<rparr>"

definition demo_publish :: NodePublishVolumeRequest where
  "demo_publish = \<lparr>np_VolumeId = ''u1'', np_TargetPath = ''/mnt/a'',
     np_VolumeCapability = Some \<lparr>cap_Mount = Some \<lparr>FsType = ''ext4'', MountFlags = []\<rparr>\<rparr>, np_Readonly = False\<rparr>"

definition demo_u :: URL where
  "demo_u = \<lparr>Scheme = ''http'', Host = ''10.0.0.1''\<rparr>"

definition demo_dyn :: DynConf where
  "demo_dyn = \<lparr>AlucbUrl = ''http://10.0.0.1'', Nodename = ''node-1''\<rparr>"

lemma demo_do:
  "client_do E demo_client None fn s w =
     (let (res, w2) = fn (dev_url demo_client demo_u) (auth_of demo_client) demo_dyn s w in (res, None, demo_client, w2))"
  by (simp add: client_do_def demo_client_def demo_url demo_u_def demo_dyn_def dev_url_def auth_of_def)

lemma demo_ops:
  "nil_conf (\<lambda>d. GetImageStatus (traced demo_env) demo_client d ''rbd'' ''pvc-1'') (w, l) =
     (True, demo_client, w, l @ [EvHttp (sent demo_client GET (JObj [(''image'', JStr ''pvc-1''), (''pool'', JStr ''rbd'')]) demo_u)
        (Inr \<lparr>StatusCode = 200, RespBody = Inr (JObj [(''status'', JStr ''clean'')])\<rparr>)])"
  "nil_conf (\<lambda>d. GetNode (traced demo_env) demo_client d ''node-1'') (w, l) =
     (Inr [''http://10.0.0.2'', ''http://10.0.0.1''], demo_client, w,
      l @ [EvHttp (sent demo_client POST (op_body ''get_secondary_urls'' [(''node'', ''node-1'')]) demo_u)
        (Inr \<lparr>StatusCode = 200, RespBody = Inr (JArr [JStr ''http://10.0.0.2''])\<rparr>)])"
  "nil_conf (\<lambda>d. DoConn (traced demo_env) demo_client d ''rbd'' ''pvc-1'') (w, l) =
     (Inr ''/dev/rbd0'', demo_client, w,
      l @ [EvHttp (sent demo_client POST (op_body ''dev_connect'' [(''image'', ''pvc-1''), (''pool'', ''rbd'')]) demo_u)
        (Inr \<lparr>StatusCode = 200, RespBody = Inr (JObj [(''alcubierre_dev'', JStr ''rbd0'')])\<rparr>)])"
  "nil_conf (\<lambda>d. DoDisConn (traced demo_env) demo_client d ''rbd'' ''pvc-1'') (w, l) =
     (None, demo_client, w,
      l @ [EvHttp (sent demo_client POST (op_body ''dev_disconnect'' [(''image'', ''pvc-1''), (''pool'', ''rbd'')]) demo_u)
        (Inr \<lparr>StatusCode = 200, RespBody = Inr (JObj [])\<rparr>)])"
  by (simp_all add: nil_conf_def GetImageStatus_def status_fn_def GetNode_def peers_fn_def DoConn_def conn_fn_def
      DoDisConn_def disconn_fn_def demo_do request_traced demo_sel demo_http_def sent_def op_body_def ToJSON_field_def
      field_step_def ToJSON_strings_def elem_step_def demo_dyn_def demo_url ToLower_def lower_char_def is_upper_def
      path_Join_def path_Clean_def devpath_def Let_def)

lemma demo_mnt:
  "likely_not_mnt demo_env p demo1 = ((True, Some (OsErr ErrNotExist p)), demo1)"
  "mkdir_all demo_env p w = (None, w\<lparr>d_dirs := p # d_dirs w\<rparr>)"
  "format_mount demo_env d t f os w = (None, w\<lparr>d_mounts := t # d_mounts w\<rparr>)"
  "not_mnt demo_env p demo1 = ((True, Some (OsErr ErrNotExist p)), demo1)"
  "remove_all demo_env p w = (None, w\<lparr>d_dirs := removeAll p (d_dirs w)\<rparr>)"
  by (simp_all add: demo_env_def demo1_def demo0_def)

lemma demo_get: "kube_get demo_env ''pvc-1'' demo1 = (Inr demo_obj, demo1)"
  by (simp add: demo_sel demo1_def)

lemmas demo_node_eval = AlcubCon_GetByUuid_def AlcubCon_GetByName_def demo_ops demo_get demo_mnt env_defs
  AlcubCon_Update_def RetryOnConflict_attempts DefaultRetry_def numeral_eq_Suc demo_sel

lemma demo_obj_sel: "Spec demo_obj = demo_spec" "Status demo_obj = zero_status" "Name (Meta demo_obj) = ''pvc-1''"
  "Pool demo_spec = ''rbd''" "Image demo_spec = ''pvc-1''"
  by (simp_all add: demo_obj_def demo_spec_def)

lemma demo1_objs: "d_objs demo1 ''pvc-1'' = Some demo_obj"
  by (simp add: demo1_def)

lemma demo_name: "getNameByuuid ''u1'' demo_al = ''pvc-1''"
  by (simp add: demo_al_def getNameByuuid_def)

theorem NodePublish_order_witness:
  "let x = NodePublishVolume (traced demo_env) demo_publish demo_srv (demo1, []) in fst x = None \<and>
     (\<exists>a pre qc an ms dev ns us. mounted demo_publish dev ms \<and> names_dev an dev
        \<and> snd (snd (snd x)) = EvGet ''pvc-1'' (Inr a) # pre @ EvHttp qc (Inr an) # ms @ us
        \<and> status_update (Name (Meta a)) (mount_status demo_srv dev ns (Status a)) None us)"
proof -
  let ?x = "NodePublishVolume (traced demo_env) demo_publish demo_srv (demo1, [])"
  have r: "fst ?x = None"
    by (simp add: NodePublishVolume_def demo_publish_def publish_check_def demo_srv_def demo_name demo_node_eval
        preMountValid_def attachDevice_def demo_obj_sel mount_body_def mount_success_def demo1_objs Let_def)
  have "getNameByuuid (np_VolumeId demo_publish) (n_alcub demo_srv) = ''pvc-1''"
    by (simp add: demo_publish_def demo_srv_def demo_name)
  with NodePublish_order [OF pair4 [of ?x], unfolded r] obtain a pre qc an ms dev ns us where "mounted demo_publish dev ms" "names_dev an dev"
    "snd (snd (snd ?x)) = EvGet ''pvc-1'' (Inr a) # pre @ EvHttp qc (Inr an) # ms @ us"
    "status_update (Name (Meta a)) (mount_status demo_srv dev ns (Status a)) None us" by auto
  with r show ?thesis unfolding Let_def by blast
qed

definition demo_unpublish :: NodeUnpublishVolumeRequest where
  "demo_unpublish = \<lparr>nu_VolumeId = ''u1'', nu_TargetPath = ''/mnt/a''\<rparr>"

definition demo_here :: NodeSrv where
  "demo_here = demo_srv\<lparr>n_nodename := []\<rparr>"

theorem NodeUnpublish_order_witness:
  "let x = NodeUnpublishVolume (traced demo_env) demo_unpublish demo_here (demo1, []) in fst x = None \<and>
     (\<exists>a ms ds us. unmounted ''/mnt/a'' ms \<and> snd (snd (snd x)) = EvGet ''pvc-1'' (Inr a) # ms @ ds @ us)"
proof -
  let ?x = "NodeUnpublishVolume (traced demo_env) demo_unpublish demo_here (demo1, [])"
  have r: "fst ?x = None"
    by (simp add: NodeUnpublishVolume_def demo_unpublish_def unpublish_check_def demo_srv_def demo_here_def demo_name
        demo_node_eval preUnmountValid_def detachDevice_def demo_obj_sel unmount_body_def unmount_success_def
        demo1_objs zero_status_def Let_def)
  have "getNameByuuid (nu_VolumeId demo_unpublish) (n_alcub demo_here) = ''pvc-1''" "nu_TargetPath demo_unpublish = ''/mnt/a''"
    by (simp_all add: demo_unpublish_def demo_here_def demo_srv_def demo_name)
  with NodeUnpublish_order [OF pair4 [of ?x], unfolded r] obtain a ms ds us where "unmounted ''/mnt/a'' ms"
    "snd (snd (snd ?x)) = EvGet ''pvc-1'' (Inr a) # ms @ ds @ us" by auto
  with r show ?thesis unfolding Let_def by blast
qed

end
