(* ===== verification/Scheme.thy ===== *)
theory Scheme
  imports GoText
begin

text \<open>
  The registration of the resource types (\<open>groupversion_info.go\<close>, \<open>csi_alcub.go\<close>,
  \<open>init\<close> of \<open>cmd/commands/config.go\<close>) with the vendored scheme: which Go type stands for
  which group, version and kind. A Go type is its package path and its name. Conversions, defaulting
  functions and the order of the observed versions are left out.

  The types of Kubernetes itself are registered by \<open>client-go\<close>; its function is an argument, and
  \<open>k8s_registers\<close> says what the program relies on: nodes are known, and nothing is registered that
  stands in the way of the program's own group.
\<close>

section \<open>The scheme\<close>

record GroupVersionKind =
  Group :: string
  Version :: string
  Kind :: string

type_synonym gotype = "string \<times> string"

record Scheme =
  gvkToType :: "GroupVersionKind \<rightharpoonup> gotype"
  typeToGVK :: "gotype \<Rightarrow> GroupVersionKind list"
  unversionedTypes :: "gotype \<rightharpoonup> GroupVersionKind"
  unversionedKinds :: "string \<rightharpoonup> gotype"

definition NewScheme :: Scheme where
  "NewScheme = \<lparr>gvkToType = Map.empty, typeToGVK = (\<lambda>_. []), unversionedTypes = Map.empty, unversionedKinds = Map.empty\<rparr>"

abbreviation gvk :: "string \<Rightarrow> string \<Rightarrow> string \<Rightarrow> GroupVersionKind" where
  "gvk g v k \<equiv> \<lparr>Group = g, Version = v, Kind = k\<rparr>"

definition AddKnownTypeWithName :: "GroupVersionKind \<Rightarrow> gotype \<Rightarrow> Scheme \<Rightarrow> error + Scheme" where
  "AddKnownTypeWithName g t s =
     (if Version g = [] then Inl (GoPanic ''version is required on all types'')
      else if gvkToType s g \<noteq> None \<and> gvkToType s g \<noteq> Some t then Inl (GoPanic ''Double registration of different types'')
      else let s1 = s\<lparr>gvkToType := (gvkToType s)(g \<mapsto> t)\<rparr> in
        if g \<in> set (typeToGVK s t) then Inr s1
        else Inr (s1\<lparr>typeToGVK := (typeToGVK s)(t := typeToGVK s t @ [g])\<rparr>))"

definition AddKnownTypes :: "string \<Rightarrow> string \<Rightarrow> gotype list \<Rightarrow> Scheme \<Rightarrow> error + Scheme" where
  "AddKnownTypes g v ts = in_sequence (map (\<lambda>t. AddKnownTypeWithName (gvk g v (snd t)) t) ts)"

definition add_unversioned :: "string \<Rightarrow> string \<Rightarrow> gotype \<Rightarrow> Scheme \<Rightarrow> error + Scheme" where
  "add_unversioned g v t s =
     (let s1 = s\<lparr>unversionedTypes := (unversionedTypes s)(t \<mapsto> gvk g v (snd t))\<rparr> in
      if unversionedKinds s1 (snd t) \<noteq> None \<and> unversionedKinds s1 (snd t) \<noteq> Some t
      then Inl (GoPanic ''has already been registered as unversioned kind'')
      else Inr (s1\<lparr>unversionedKinds := (unversionedKinds s1)(snd t \<mapsto> t)\<rparr>))"

definition AddUnversionedTypes :: "string \<Rightarrow> string \<Rightarrow> gotype list \<Rightarrow> Scheme \<Rightarrow> error + Scheme" where
  "AddUnversionedTypes g v ts = in_sequence (AddKnownTypes g v ts # map (add_unversioned g v) ts)"

text \<open>The common types of \<open>meta/v1\<close> that each group gets.\<close>

definition metav1 :: "string \<Rightarrow> gotype" where
  "metav1 k = (''k8s.io/apimachinery/pkg/apis/meta/v1'', k)"

definition optionsTypes :: "gotype list" where
  "optionsTypes = map metav1 [''ListOptions'', ''ExportOptions'', ''GetOptions'', ''DeleteOptions'', ''CreateOptions'',
     ''UpdateOptions'', ''PatchOptions'']"

definition unversioned_kinds :: "string list" where
  "unversioned_kinds = [''Status'', ''APIVersions'', ''APIGroupList'', ''APIGroup'', ''APIResourceList'']"

definition AddToGroupVersion :: "string \<Rightarrow> string \<Rightarrow> Scheme \<Rightarrow> error + Scheme" where
  "AddToGroupVersion g v = in_sequence [
     AddKnownTypeWithName (gvk g v ''WatchEvent'') (metav1 ''WatchEvent''),
     AddKnownTypeWithName (gvk g ''__internal'' ''WatchEvent'') (metav1 ''InternalEvent''),
     AddKnownTypes g v optionsTypes,
     AddUnversionedTypes [] ''v1'' (map metav1 unversioned_kinds)]"

text \<open>The group, version and kind of a Go type.\<close>

definition GVKForObject :: "gotype \<Rightarrow> Scheme \<Rightarrow> error + GroupVersionKind" where
  "GVKForObject t s =
     (if typeToGVK s t = [] then Inl (Errorf ''no kind is registered for the type %v'' [AStr (snd t)])
      else if unversionedTypes s t \<noteq> None then Inl (Errorf ''cannot create group-version-kind for unversioned type %T'' [AStr (snd t)])
      else if 1 < length (typeToGVK s t)
        then Inl (Errorf ''multiple group-version-kinds associated with type %T, refusing to guess at one'' [AStr (snd t)])
      else Inr (hd (typeToGVK s t)))"

section \<open>The builder\<close>

record SBuilder =
  bld_Group :: string
  bld_Version :: string
  bld_funcs :: "(Scheme \<Rightarrow> error + Scheme) list"

definition Builder_Register :: "gotype list \<Rightarrow> SBuilder \<Rightarrow> SBuilder" where
  "Builder_Register objs bld = bld\<lparr>bld_funcs := bld_funcs bld @
     [in_sequence [AddKnownTypes (bld_Group bld) (bld_Version bld) objs, AddToGroupVersion (bld_Group bld) (bld_Version bld)]]\<rparr>"

definition Builder_AddToScheme :: "SBuilder \<Rightarrow> Scheme \<Rightarrow> error + Scheme" where
  "Builder_AddToScheme bld = in_sequence (bld_funcs bld)"

section \<open>groupversion\_info.go, csi\_alcub.go\<close>

definition alcubv1beta1 :: "string \<Rightarrow> gotype" where
  "alcubv1beta1 k = (''github.com/yylt/csi-alcub/pkg/api/v1beta1'', k)"

definition GroupVersion :: SBuilder where
  "GroupVersion = \<lparr>bld_Group = ''csialcub.es.io'', bld_Version = ''v1beta1'', bld_funcs = []\<rparr>"

text \<open>The builder after the initialisation of the package.\<close>

definition SchemeBuilder :: SBuilder where
  "SchemeBuilder = Builder_Register [alcubv1beta1 ''CsiAlcub'', alcubv1beta1 ''CsiAlcubList''] GroupVersion"

section \<open>config.go\<close>

definition corev1 :: "string \<Rightarrow> gotype" where
  "corev1 k = (''k8s.io/api/core/v1'', k)"

text \<open>\<open>init\<close> discards the errors of both calls, but not a panic. The functions of the builder return
  no errors.\<close>

definition commands_init :: "(Scheme \<Rightarrow> error option \<times> Scheme) \<Rightarrow> error + Scheme" where
  "commands_init addk8s = (case addk8s NewScheme of
     (Some (GoPanic m), s) \<Rightarrow> Inl (GoPanic m)
   | (_, s) \<Rightarrow> Builder_AddToScheme SchemeBuilder s)"

text \<open>What is relied on of \<open>client-go\<close>'s own registration.\<close>

definition k8s_registers :: "(Scheme \<Rightarrow> error option \<times> Scheme) \<Rightarrow> bool" where
  "k8s_registers addk8s \<longleftrightarrow> fst (addk8s NewScheme) = None \<and> (let s = snd (addk8s NewScheme) in
     typeToGVK s (corev1 ''Node'') = [gvk [] ''v1'' ''Node''] \<and> unversionedTypes s (corev1 ''Node'') = None
     \<and> (\<forall>g. Group g = ''csialcub.es.io'' \<longrightarrow> gvkToType s g = None)
     \<and> (\<forall>k. typeToGVK s (alcubv1beta1 k) = [] \<and> unversionedTypes s (alcubv1beta1 k) = None)
     \<and> (\<forall>k \<in> set unversioned_kinds. gvkToType s (gvk [] ''v1'' k) \<in> {None, Some (metav1 k)} \<and> unversionedKinds s k \<in> {None, Some (metav1 k)}))"

section \<open>What registration does\<close>

text \<open>Registering a list of types none of which is taken succeeds; it leaves the others alone.\<close>

definition free_for :: "(GroupVersionKind \<times> gotype) list \<Rightarrow> Scheme \<Rightarrow> bool" where
  "free_for rs s \<longleftrightarrow> distinct (map fst rs) \<and> (\<forall>(g, t) \<in> set rs. Version g \<noteq> [] \<and> gvkToType s g \<in> {None, Some t})"

lemma register_one:
  assumes "Version g \<noteq> []" "gvkToType s g \<in> {None, Some t}"
  shows "\<exists>s'. AddKnownTypeWithName g t s = Inr s' \<and> gvkToType s' = (gvkToType s)(g \<mapsto> t)
    \<and> (\<forall>u. u \<noteq> t \<longrightarrow> typeToGVK s' u = typeToGVK s u) \<and> (typeToGVK s t = [] \<longrightarrow> typeToGVK s' t = [g])
    \<and> unversionedTypes s' = unversionedTypes s \<and> unversionedKinds s' = unversionedKinds s"
  using assms by (auto simp: AddKnownTypeWithName_def Let_def)

lemma register_list:
  assumes "free_for rs s"
  shows "\<exists>s'. in_sequence (map (\<lambda>(g, t). AddKnownTypeWithName g t) rs) s = Inr s'
    \<and> (\<forall>g. gvkToType s' g = (case map_of rs g of None \<Rightarrow> gvkToType s g | Some t \<Rightarrow> Some t))
    \<and> (\<forall>u. u \<notin> snd ` set rs \<longrightarrow> typeToGVK s' u = typeToGVK s u)
    \<and> unversionedTypes s' = unversionedTypes s \<and> unversionedKinds s' = unversionedKinds s"
  using assms
proof (induction rs arbitrary: s)
  case (Cons r rs)
  obtain g t where r: "r = (g, t)" by (cases r)
  from Cons.prems r have g: "Version g \<noteq> []" "gvkToType s g \<in> {None, Some t}" by (auto simp: free_for_def)
  from register_one [OF g] obtain s1 where s1: "AddKnownTypeWithName g t s = Inr s1" "gvkToType s1 = (gvkToType s)(g \<mapsto> t)"
    "\<forall>u. u \<noteq> t \<longrightarrow> typeToGVK s1 u = typeToGVK s u" "unversionedTypes s1 = unversionedTypes s" "unversionedKinds s1 = unversionedKinds s"
    by blast
  have "gvkToType s1 g' = gvkToType s g'" if "(g', t') \<in> set rs" for g' t'
    using that Cons.prems r s1(2) by (auto simp: free_for_def rev_image_eqI)
  then have "free_for rs s1" using Cons.prems r by (auto simp: free_for_def)
  from Cons.IH [OF this] obtain s2 where "in_sequence (map (\<lambda>(g, t). AddKnownTypeWithName g t) rs) s1 = Inr s2"
    "\<forall>g. gvkToType s2 g = (case map_of rs g of None \<Rightarrow> gvkToType s1 g | Some t \<Rightarrow> Some t)"
    "\<forall>u. u \<notin> snd ` set rs \<longrightarrow> typeToGVK s2 u = typeToGVK s1 u"
    "unversionedTypes s2 = unversionedTypes s1" "unversionedKinds s2 = unversionedKinds s1" by blast
  moreover have "map_of rs g = None" using Cons.prems r by (simp add: free_for_def map_of_eq_None_iff)
  ultimately show ?case using r s1 by (auto split: option.splits)
qed simp

lemma unversioned_all:
  assumes "distinct ks" "\<forall>k \<in> set ks. unversionedKinds s k \<in> {None, Some (metav1 k)}"
  shows "\<exists>s'. in_sequence (map (add_unversioned g v) (map metav1 ks)) s = Inr s' \<and> gvkToType s' = gvkToType s \<and> typeToGVK s' = typeToGVK s
    \<and> (\<forall>t. t \<notin> metav1 ` set ks \<longrightarrow> unversionedTypes s' t = unversionedTypes s t)"
  using assms
proof (induction ks arbitrary: s)
  case (Cons k ks)
  define s1 where "s1 = s\<lparr>unversionedTypes := (unversionedTypes s)(metav1 k \<mapsto> gvk g v (snd (metav1 k))), unversionedKinds := (unversionedKinds s)(k \<mapsto> metav1 k)\<rparr>"
  have one: "add_unversioned g v (metav1 k) s = Inr s1"
    using Cons.prems(2) by (auto simp: add_unversioned_def s1_def metav1_def Let_def)
  have "\<forall>k' \<in> set ks. unversionedKinds s1 k' \<in> {None, Some (metav1 k')}" using Cons.prems by (auto simp: s1_def)
  from Cons.IH [OF _ this] Cons.prems(1) obtain s2 where s2: "in_sequence (map (add_unversioned g v) (map metav1 ks)) s1 = Inr s2"
    "gvkToType s2 = gvkToType s1" "typeToGVK s2 = typeToGVK s1"
    "\<forall>t. t \<notin> metav1 ` set ks \<longrightarrow> unversionedTypes s2 t = unversionedTypes s1 t" by auto
  then show ?case by (intro exI [of _ s2]) (simp add: one, simp add: s1_def)
qed simp

text \<open>The registrations of the program's group, in order.\<close>

definition alcub_regs :: "(GroupVersionKind \<times> gotype) list" where
  "alcub_regs = map (\<lambda>t. (gvk ''csialcub.es.io'' ''v1beta1'' (snd t), t)) [alcubv1beta1 ''CsiAlcub'', alcubv1beta1 ''CsiAlcubList'']"

definition meta_regs :: "(GroupVersionKind \<times> gotype) list" where
  "meta_regs = (gvk ''csialcub.es.io'' ''v1beta1'' ''WatchEvent'', metav1 ''WatchEvent'')
     # (gvk ''csialcub.es.io'' ''__internal'' ''WatchEvent'', metav1 ''InternalEvent'')
     # map (\<lambda>t. (gvk ''csialcub.es.io'' ''v1beta1'' (snd t), t)) optionsTypes
     @ map (\<lambda>t. (gvk [] ''v1'' (snd t), t)) (map metav1 unversioned_kinds)"

lemma SchemeBuilder_regs:
  "Builder_AddToScheme SchemeBuilder = in_sequence (map (\<lambda>(g, t). AddKnownTypeWithName g t) alcub_regs
     @ map (\<lambda>(g, t). AddKnownTypeWithName g t) meta_regs @ map (add_unversioned [] ''v1'') (map metav1 unversioned_kinds))"
  by (rule ext) (simp add: Builder_AddToScheme_def SchemeBuilder_def Builder_Register_def GroupVersion_def AddToGroupVersion_def
      AddUnversionedTypes_def AddKnownTypes_def alcub_regs_def meta_regs_def in_sequence_append comp_def split: sum.splits)

lemma meta_regs_types: "t \<in> snd ` set meta_regs \<Longrightarrow> fst t = ''k8s.io/apimachinery/pkg/apis/meta/v1''"
  by (auto simp: meta_regs_def optionsTypes_def metav1_def)

lemma alcub_then_meta:
  assumes "\<forall>g. Group g = ''csialcub.es.io'' \<longrightarrow> gvkToType s g = None" "\<forall>k. typeToGVK s (alcubv1beta1 k) = []"
    and "\<forall>k \<in> set unversioned_kinds. gvkToType s (gvk [] ''v1'' k) \<in> {None, Some (metav1 k)}"
  shows "\<exists>s'. in_sequence (map (\<lambda>(g, t). AddKnownTypeWithName g t) alcub_regs) s = Inr s' \<and> free_for meta_regs s'
    \<and> (\<forall>k \<in> {''CsiAlcub'', ''CsiAlcubList''}. typeToGVK s' (alcubv1beta1 k) = [gvk ''csialcub.es.io'' ''v1beta1'' k]
         \<and> gvkToType s' (gvk ''csialcub.es.io'' ''v1beta1'' k) = Some (alcubv1beta1 k))
    \<and> typeToGVK s' (corev1 ''Node'') = typeToGVK s (corev1 ''Node'')
    \<and> unversionedTypes s' = unversionedTypes s \<and> unversionedKinds s' = unversionedKinds s"
proof -
  let ?g = "\<lambda>k. gvk ''csialcub.es.io'' ''v1beta1'' k" and ?t = alcubv1beta1
  let ?A = "''CsiAlcub''" and ?L = "''CsiAlcubList''"
  have t: "?t ?A \<noteq> ?t ?L" "corev1 ''Node'' \<noteq> ?t ?A" "corev1 ''Node'' \<noteq> ?t ?L" by (simp_all add: alcubv1beta1_def corev1_def)
  obtain s1 where s1: "AddKnownTypeWithName (?g ?A) (?t ?A) s = Inr s1" "gvkToType s1 = (gvkToType s)(?g ?A \<mapsto> ?t ?A)"
    "\<forall>u. u \<noteq> ?t ?A \<longrightarrow> typeToGVK s1 u = typeToGVK s u" "typeToGVK s1 (?t ?A) = [?g ?A]"
    "unversionedTypes s1 = unversionedTypes s" "unversionedKinds s1 = unversionedKinds s"
    using register_one [of "?g ?A" s "?t ?A"] assms(1,2) by auto
  obtain s2 where s2: "AddKnownTypeWithName (?g ?L) (?t ?L) s1 = Inr s2" "gvkToType s2 = (gvkToType s1)(?g ?L \<mapsto> ?t ?L)"
    "\<forall>u. u \<noteq> ?t ?L \<longrightarrow> typeToGVK s2 u = typeToGVK s1 u" "typeToGVK s2 (?t ?L) = [?g ?L]"
    "unversionedTypes s2 = unversionedTypes s1" "unversionedKinds s2 = unversionedKinds s1"
    using register_one [of "?g ?L" s1 "?t ?L"] assms(1,2) s1(2,3) t by auto
  have "distinct (map fst meta_regs)"
    by (simp add: meta_regs_def optionsTypes_def unversioned_kinds_def metav1_def)
  moreover have "\<forall>(g, t) \<in> set meta_regs. Version g \<noteq> [] \<and> gvkToType s2 g \<in> {None, Some t}"
    using assms(1,3) by (simp add: s2(2) s1(2) meta_regs_def optionsTypes_def metav1_def unversioned_kinds_def)
  ultimately have "free_for meta_regs s2" by (simp add: free_for_def)
  with s1 s2 t show ?thesis
    by (intro exI [of _ s2]) (simp add: alcub_regs_def alcubv1beta1_def corev1_def)
qed

lemma init_registers:
  assumes "k8s_registers addk8s"
  shows "\<exists>s. commands_init addk8s = Inr s
    \<and> (\<forall>k \<in> {''CsiAlcub'', ''CsiAlcubList''}. GVKForObject (alcubv1beta1 k) s = Inr (gvk ''csialcub.es.io'' ''v1beta1'' k)
         \<and> gvkToType s (gvk ''csialcub.es.io'' ''v1beta1'' k) = Some (alcubv1beta1 k))
    \<and> GVKForObject (corev1 ''Node'') s = Inr (gvk [] ''v1'' ''Node'')"
proof -
  obtain s0 where s0: "addk8s NewScheme = (None, s0)" using assms by (cases "addk8s NewScheme") (auto simp: k8s_registers_def)
  with assms have k: "typeToGVK s0 (corev1 ''Node'') = [gvk [] ''v1'' ''Node'']" "unversionedTypes s0 (corev1 ''Node'') = None"
    "\<forall>g. Group g = ''csialcub.es.io'' \<longrightarrow> gvkToType s0 g = None" "\<forall>k. typeToGVK s0 (alcubv1beta1 k) = []"
    "\<forall>k. unversionedTypes s0 (alcubv1beta1 k) = None" "\<forall>k \<in> set unversioned_kinds. gvkToType s0 (gvk [] ''v1'' k) \<in> {None, Some (metav1 k)}"
    "\<forall>k \<in> set unversioned_kinds. unversionedKinds s0 k \<in> {None, Some (metav1 k)}" by (auto simp: k8s_registers_def Let_def)
  from alcub_then_meta [OF k(3,4,6)] obtain s1 where s1: "in_sequence (map (\<lambda>(g, t). AddKnownTypeWithName g t) alcub_regs) s0 = Inr s1"
    "free_for meta_regs s1" "\<forall>k \<in> {''CsiAlcub'', ''CsiAlcubList''}. typeToGVK s1 (alcubv1beta1 k) = [gvk ''csialcub.es.io'' ''v1beta1'' k]
         \<and> gvkToType s1 (gvk ''csialcub.es.io'' ''v1beta1'' k) = Some (alcubv1beta1 k)"
    "typeToGVK s1 (corev1 ''Node'') = typeToGVK s0 (corev1 ''Node'')" "unversionedTypes s1 = unversionedTypes s0"
    "unversionedKinds s1 = unversionedKinds s0" by blast
  from register_list [OF s1(2)] obtain s2 where s2: "in_sequence (map (\<lambda>(g, t). AddKnownTypeWithName g t) meta_regs) s1 = Inr s2"
    "\<forall>g. gvkToType s2 g = (case map_of meta_regs g of None \<Rightarrow> gvkToType s1 g | Some t \<Rightarrow> Some t)"
    "\<forall>u. u \<notin> snd ` set meta_regs \<longrightarrow> typeToGVK s2 u = typeToGVK s1 u" "unversionedTypes s2 = unversionedTypes s1"
    "unversionedKinds s2 = unversionedKinds s1" by blast
  have "distinct unversioned_kinds" by (simp add: unversioned_kinds_def)
  then obtain s3 where s3: "in_sequence (map (add_unversioned [] ''v1'') (map metav1 unversioned_kinds)) s2 = Inr s3"
    "gvkToType s3 = gvkToType s2" "typeToGVK s3 = typeToGVK s2" "\<forall>t. t \<notin> metav1 ` set unversioned_kinds \<longrightarrow> unversionedTypes s3 t = unversionedTypes s2 t"
    using unversioned_all [of unversioned_kinds s2 "[]" "''v1''"] k(7) s1(6) s2(5) by auto
  have n: "alcubv1beta1 x \<notin> snd ` set meta_regs" "alcubv1beta1 x \<notin> metav1 ` set unversioned_kinds"
    "corev1 x \<notin> snd ` set meta_regs" "corev1 x \<notin> metav1 ` set unversioned_kinds" for x
    using meta_regs_types by (fastforce simp: alcubv1beta1_def corev1_def metav1_def)+
  have m: "map_of meta_regs (gvk ''csialcub.es.io'' ''v1beta1'' x) = None" if "x \<in> {''CsiAlcub'', ''CsiAlcubList''}" for x
    using that by (auto simp: meta_regs_def optionsTypes_def unversioned_kinds_def metav1_def)
  have "commands_init addk8s = Inr s3" by (simp add: commands_init_def s0 SchemeBuilder_regs in_sequence_append s1(1) s2(1) s3(1) del: map_map)
  moreover have "typeToGVK s3 (alcubv1beta1 x) = typeToGVK s1 (alcubv1beta1 x)" "unversionedTypes s3 (alcubv1beta1 x) = None"
    "typeToGVK s3 (corev1 ''Node'') = [gvk [] ''v1'' ''Node'']" "unversionedTypes s3 (corev1 ''Node'') = None" for x
    by (simp_all add: n s2(3) [rule_format] s2(4) s3(3) s3(4) [rule_format] s1(4,5) k(1,2) k(5) [rule_format])
  moreover have "gvkToType s3 (gvk ''csialcub.es.io'' ''v1beta1'' x) = gvkToType s1 (gvk ''csialcub.es.io'' ''v1beta1'' x)"
    if "x \<in> {''CsiAlcub'', ''CsiAlcubList''}" for x using that m s2(2) s3(2) by simp
  ultimately show ?thesis using s1(3) by (intro exI [of _ s3]) (simp add: GVKForObject_def)
qed

text \<open>C39: When \<open>client-go\<close> has registered its types as it should, the initialisation of the commands
  succeeds: the program's two resource types and the node type have exactly one group, version and kind,
  those of \<open>groupversion_info.go\<close> and of the core group, and a resource of these kinds is decoded into
  the program's types.\<close>

theorem types_registered:
  assumes "k8s_registers addk8s"
  shows "\<exists>s. commands_init addk8s = Inr s
    \<and> (\<forall>k \<in> {''CsiAlcub'', ''CsiAlcubList''}. GVKForObject (alcubv1beta1 k) s = Inr (gvk ''csialcub.es.io'' ''v1beta1'' k)
         \<and> gvkToType s (gvk ''csialcub.es.io'' ''v1beta1'' k) = Some (alcubv1beta1 k))
    \<and> GVKForObject (corev1 ''Node'') s = Inr (gvk [] ''v1'' ''Node'')"
  by (rule init_registers [OF assms])

section \<open>Witnesses\<close>

text \<open>Two types of the core group, and one of the common ones.\<close>

definition demo_k8s :: "Scheme \<Rightarrow> error option \<times> Scheme" where
  "demo_k8s s = (case AddKnownTypes [] ''v1'' [corev1 ''Node'', corev1 ''NodeList'', metav1 ''Status''] s of
     Inl e \<Rightarrow> (Some e, s) | Inr s1 \<Rightarrow> (None, s1))"

lemma demo_registers: "k8s_registers demo_k8s"
  by (simp add: k8s_registers_def demo_k8s_def AddKnownTypes_def AddKnownTypeWithName_def NewScheme_def
      corev1_def metav1_def unversioned_kinds_def alcubv1beta1_def Let_def)

theorem types_registered_witness:
  "\<exists>s. commands_init demo_k8s = Inr s \<and> GVKForObject (alcubv1beta1 ''CsiAlcub'') s = Inr (gvk ''csialcub.es.io'' ''v1beta1'' ''CsiAlcub'')"
  using types_registered [OF demo_registers] by auto

end
