(* ===== verification/Server.thy ===== *)
theory Server
  imports Utils
begin

text \<open>
  \<open>utils/server.go\<close>: the gRPC server of both processes. \<open>serve\<close> runs in a goroutine
  of its own; a second goroutine waits for the end of the context and stops the server. The two share
  the field \<open>server\<close> and what the vendored gRPC server keeps under its lock; \<open>srv_step\<close>
  interleaves them at these accesses. The file system and the network are arguments; connections come
  and go at will, each with a goroutine for its handshake that the group of serving threads counts.

  The facts: endpoints are parsed exactly; the socket file is removed before the listener is opened;
  all services are registered before the server serves; once stopping has closed the listeners,
  both goroutines end after a bounded number of steps. Also what goes wrong: stopping before the server
  was made is a nil dereference, nobody ever finishes waiting for the server, and a scheme in upper
  case is parsed but never served.
\<close>

section \<open>Endpoints\<close>

definition parseEndpoint :: "string \<Rightarrow> error + string \<times> string" where
  "parseEndpoint ep =
     (if prefix ''unix://'' (ToLower ep) \<or> prefix ''tcp://'' (ToLower ep) then
        (case str_split2 ep ''://'' of
           s0 # s1 # _ \<Rightarrow> if s1 \<noteq> [] then Inr (s0, s1) else Inl (Errorf ''Invalid endpoint: %v'' [AStr ep])
         | _ \<Rightarrow> Inl (GoPanic ''index out of range''))
      else Inl (Errorf ''Invalid endpoint: %v'' [AStr ep]))"


lemma ToLower_append: "ToLower (s @ t) = ToLower s @ ToLower t"
  by (simp add: ToLower_def)

lemma lower_char_fixed: "c = CHR '':'' \<or> c = CHR ''/'' \<Longrightarrow> lower_char x = c \<longleftrightarrow> x = c"
proof -
  have r: "97 \<le> (of_char (lower_char x) :: nat) \<and> (of_char (lower_char x) :: nat) \<le> 122" if "is_upper x"
    using that by (auto simp: lower_char_def is_upper_def)
  assume "c = CHR '':'' \<or> c = CHR ''/''"
  then have "(of_char c :: nat) < 65" by auto
  moreover have "lower_char x = x" if "\<not> is_upper x" using that by (simp add: lower_char_def)
  moreover have "\<not> is_upper c" using \<open>(of_char c :: nat) < 65\<close> by (simp add: is_upper_def)
  ultimately show ?thesis using r by fastforce
qed

lemma str_index_first:
  "c \<notin> set s \<Longrightarrow> str_index (s @ c # r @ t) (c # r) = Some (length s)"
  by (induction s) auto

lemma lower_colon: "ToLower q = ''://'' \<longleftrightarrow> q = ''://''"
  by (auto simp: ToLower_def map_eq_Cons_conv lower_char_fixed)

lemma lower_no_colon: "CHR '':'' \<notin> set (ToLower p) \<Longrightarrow> CHR '':'' \<notin> set p"
  using lower_char_fixed [of "CHR '':''" "CHR '':''"] by (force simp: ToLower_def)

lemma scheme_split:
  assumes "ToLower p = k" "CHR '':'' \<notin> set k"
  shows "str_split2 (p @ ''://'' @ a) ''://'' = [p, a]"
  using str_index_first [of "CHR '':''" p "''//''" a] lower_no_colon [of p] assms
  by (simp add: str_split2_def)

lemma ToLower_append_conv:
  "ToLower ep = k @ m @ z \<Longrightarrow> \<exists>p q r. ep = p @ q @ r \<and> ToLower p = k \<and> ToLower q = m"
  unfolding ToLower_def by (metis map_eq_append_conv)

lemma scheme_prefix:
  "prefix (k @ ''://'') (ToLower ep) \<longleftrightarrow> (\<exists>p a. ep = p @ ''://'' @ a \<and> ToLower p = k)"
proof
  assume "prefix (k @ ''://'') (ToLower ep)"
  then obtain z where "ToLower ep = k @ ''://'' @ z" by (auto simp: prefix_def)
  then obtain p q r where "ep = p @ q @ r" "ToLower p = k" "ToLower q = ''://''"
    using ToLower_append_conv by blast
  then show "\<exists>p a. ep = p @ ''://'' @ a \<and> ToLower p = k" by (auto simp: lower_colon)
next
  assume "\<exists>p a. ep = p @ ''://'' @ a \<and> ToLower p = k"
  then obtain p a where "ep = p @ ''://'' @ a" "ToLower p = k" by blast
  then have "ToLower ep = (k @ ''://'') @ ToLower a"
    using lower_colon [of "''://''"] ToLower_append [of p "''://'' @ a"] ToLower_append [of "''://''" a]
    by simp
  then show "prefix (k @ ''://'') (ToLower ep)" by simp
qed

lemma scheme_pre:
  "prefix ''unix://'' (ToLower ep) \<or> prefix ''tcp://'' (ToLower ep) \<longleftrightarrow>
     (\<exists>p a. ep = p @ ''://'' @ a \<and> (ToLower p = ''unix'' \<or> ToLower p = ''tcp''))"
  using scheme_prefix [of "''unix''" ep] scheme_prefix [of "''tcp''" ep] by (simp; blast)

lemma endpoint_parts:
  "(parseEndpoint ep = Inr (proto, addr) \<longleftrightarrow>
      ep = proto @ ''://'' @ addr \<and> addr \<noteq> [] \<and> (ToLower proto = ''unix'' \<or> ToLower proto = ''tcp''))
   \<and> parseEndpoint ep \<noteq> Inl (GoPanic msg)"
proof (cases "\<exists>p a. ep = p @ ''://'' @ a \<and> (ToLower p = ''unix'' \<or> ToLower p = ''tcp'')")
  case True
  then obtain p a where ep: "ep = p @ ''://'' @ a" "ToLower p = ''unix'' \<or> ToLower p = ''tcp''" by blast
  then have s: "str_split2 ep ''://'' = [p, a]" using scheme_split [of p _ a] by auto
  have inj: "proto = p \<and> addr = a"
    if "ep = proto @ ''://'' @ addr" "ToLower proto = ''unix'' \<or> ToLower proto = ''tcp''"
    using scheme_split [of proto _ addr] that s by auto
  have eq: "(ep = proto @ ''://'' @ addr \<and> addr \<noteq> [] \<and> (ToLower proto = ''unix'' \<or> ToLower proto = ''tcp''))
      \<longleftrightarrow> proto = p \<and> addr = a \<and> a \<noteq> []"
    using ep inj by blast
  have res: "parseEndpoint ep = (if a \<noteq> [] then Inr (p, a) else Inl (Errorf ''Invalid endpoint: %v'' [AStr ep]))"
    using True s scheme_pre unfolding parseEndpoint_def by simp
  show ?thesis unfolding eq res by auto
next
  case False
  then have "parseEndpoint ep = Inl (Errorf ''Invalid endpoint: %v'' [AStr ep])"
    unfolding parseEndpoint_def scheme_pre by (simp only: if_False)
  with False show ?thesis by auto
qed

text \<open>An endpoint is accepted exactly when it is a scheme that is \<open>unix\<close> or
  \<open>tcp\<close> up to case, the separator and a non-empty address, and it is returned in these two
  parts; parsing never panics.\<close>

theorem parseEndpoint_iff:
  "(parseEndpoint ep = Inr (proto, addr) \<longleftrightarrow>
      ep = proto @ ''://'' @ addr \<and> addr \<noteq> [] \<and> (ToLower proto = ''unix'' \<or> ToLower proto = ''tcp''))
   \<and> parseEndpoint ep \<noteq> Inl (GoPanic msg)"
  by (rule endpoint_parts)

lemma endpoint_accepted:
  "ep = proto @ ''://'' @ addr \<Longrightarrow> addr \<noteq> [] \<Longrightarrow> ToLower proto = ''unix'' \<or> ToLower proto = ''tcp'' \<Longrightarrow>
   parseEndpoint ep = Inr (proto, addr)"
  using endpoint_parts by blast

section \<open>The vendored gRPC server\<close>

text \<open>The fields of \<open>grpc.Server\<close> that starting and stopping use. The map of listeners is nil
  once the server was stopped and otherwise holds the listener or not; likewise the connections.
  \<open>g_hand\<close> counts the goroutines of accepted connections that are still in their handshake, which
  \<open>serveWG\<close> counts too.\<close>

datatype service = IdentityService | ControllerService | NodeService

record grpcServer =
  g_m :: "service list"
  g_serve :: bool
  g_lis :: "bool option"
  g_conns :: "nat option"
  g_hand :: nat
  g_quit :: bool
  g_done :: bool
  g_serveWG :: nat

definition grpc_NewServer :: grpcServer where
  "grpc_NewServer = \<lparr>g_m = [], g_serve = False, g_lis = Some False, g_conns = Some 0, g_hand = 0, g_quit = False,
     g_done = False, g_serveWG = 0\<rparr>"

definition grpc_register :: "service \<Rightarrow> grpcServer \<Rightarrow> error + grpcServer" where
  "grpc_register sv g =
     (if g_serve g then Inl (Errorf ''grpc: Server.RegisterService after Server.Serve for %q'' [])
      else if sv \<in> set (g_m g) then Inl (Errorf ''grpc: Server.RegisterService found duplicate service registration for %q'' [])
      else Inr (g\<lparr>g_m := g_m g @ [sv]\<rparr>))"

section \<open>The server\<close>

text \<open>The services a process has, in the order in which \<open>serve\<close> registers them.\<close>

definition services :: "bool \<Rightarrow> bool \<Rightarrow> bool \<Rightarrow> service list" where
  "services ids cs ns = (if ids then [IdentityService] else []) @ (if cs then [ControllerService] else [])
     @ (if ns then [NodeService] else [])"

fun register_all :: "service list \<Rightarrow> grpcServer \<Rightarrow> error + grpcServer" where
  "register_all [] g = Inr g"
| "register_all (sv # svs) g = (case grpc_register sv g of Inl e \<Rightarrow> Inl e | Inr g1 \<Rightarrow> register_all svs g1)"

text \<open>The part of \<open>serve\<close> up to the listener: parse, remove the old socket, listen. A left value
  ends the process.\<close>

definition listen_on ::
    "(string \<Rightarrow> 'w \<Rightarrow> error option \<times> 'w) \<Rightarrow> (string \<Rightarrow> string \<Rightarrow> 'w \<Rightarrow> error option \<times> 'w)
      \<Rightarrow> string \<Rightarrow> 'w \<Rightarrow> (error + string \<times> string) \<times> 'w" where
  "listen_on os_Remove net_Listen endpoint w = (case parseEndpoint endpoint of
     Inl err \<Rightarrow> (Inl err, w)
   | Inr (proto, addr) \<Rightarrow>
       (let listen = (\<lambda>addr w. case net_Listen proto addr w of
              (Some err, w1) \<Rightarrow> (Inl (Errorf ''Failed to listen: %v'' [AErr err]), w1)
            | (None, w1) \<Rightarrow> (Inr (proto, addr), w1))
        in if proto = ''unix'' then
             (let addr1 = ''/'' @ addr in
              case os_Remove addr1 w of
                (Some err, w1) \<Rightarrow>
                  if \<not> os_IsNotExist err
                  then (Inl (Errorf ''Failed to remove %s, error: %s'' [AStr addr1, AErr err]), w1)
                  else listen addr1 w1
              | (None, w1) \<Rightarrow> listen addr1 w1)
           else listen addr w))"

definition logGRPC :: "('q \<Rightarrow> 'w \<Rightarrow> ('r \<times> error option) \<times> 'w) \<Rightarrow> 'q \<Rightarrow> 'w \<Rightarrow> ('r \<times> error option) \<times> 'w" where
  "logGRPC handler req w = (let ((resp, err), w1) = handler req w in ((resp, err), w1))"

text \<open>Where the two goroutines are. The serving one: before the listener, before the server is made,
  before the registrations, before \<open>Serve\<close>, accepting, waiting for the end of the stop, and
  returned. The stopping one: waiting for the context, before \<open>GracefulStop\<close>, before it closes the
  listeners, waiting for the serving threads, waiting for the connections, and returned.\<close>

datatype serve_pc = AtListen | AtNew | AtRegister | AtServe | AtAccept | AtWaitDone | ServeReturned

datatype stop_pc = AtContext | AtStop | AtClose | AtServeWG | AtConns | StopReturned

record nonBlockingGRPCServer =
  wg :: nat
  server :: "grpcServer option"
  lopen :: bool
  spc :: serve_pc
  tpc :: stop_pc
  died :: "error option"

definition NewNonBlockingGRPCServer :: nonBlockingGRPCServer where
  "NewNonBlockingGRPCServer = \<lparr>wg = 0, server = None, lopen = False, spc = AtListen, tpc = AtContext, died = None\<rparr>"

text \<open>\<open>Start\<close> adds to the wait group and starts the goroutine; nothing ever subtracts.\<close>

definition server_Start :: "nonBlockingGRPCServer \<Rightarrow> nonBlockingGRPCServer" where
  "server_Start s = s\<lparr>wg := wg s + 1, spc := AtListen\<rparr>"

definition Wait_returns :: "nonBlockingGRPCServer \<Rightarrow> bool" where
  "Wait_returns s \<longleftrightarrow> wg s = 0"

definition nil_server :: error where
  "nil_server = GoPanic ''invalid memory address or nil pointer dereference''"

text \<open>\<open>Stop\<close> is \<open>GracefulStop\<close> of the server, here up to its first lock.\<close>

definition server_Stop :: "nonBlockingGRPCServer \<Rightarrow> nonBlockingGRPCServer" where
  "server_Stop s = (case server s of
     None \<Rightarrow> s\<lparr>died := Some nil_server\<rparr>
   | Some g \<Rightarrow> s\<lparr>server := Some (g\<lparr>g_quit := True\<rparr>), tpc := AtClose\<rparr>)"

text \<open>\<open>ForceStop\<close> is \<open>Stop\<close> of the server, up to the wait for the serving threads.\<close>

definition ForceStop :: "nonBlockingGRPCServer \<Rightarrow> nonBlockingGRPCServer" where
  "ForceStop s = (case server s of
     None \<Rightarrow> s\<lparr>died := Some nil_server\<rparr>
   | Some g \<Rightarrow> s\<lparr>server := Some (g\<lparr>g_quit := True, g_lis := None, g_conns := None\<rparr>),
       lopen := lopen s \<and> g_lis g \<noteq> Some True\<rparr>)"

text \<open>\<open>Server.Serve\<close> up to its loop.\<close>

definition grpc_Serve :: "grpcServer \<Rightarrow> nonBlockingGRPCServer \<Rightarrow> nonBlockingGRPCServer" where
  "grpc_Serve g s = (case g_lis g of
     None \<Rightarrow> s\<lparr>server := Some (g\<lparr>g_serve := True\<rparr>), lopen := False, spc := ServeReturned\<rparr>
   | Some _ \<Rightarrow> s\<lparr>server := Some (g\<lparr>g_serve := True, g_serveWG := g_serveWG g + 1, g_lis := Some True\<rparr>), spc := AtAccept\<rparr>)"

text \<open>An error of \<open>Accept\<close> ends the loop; the deferred functions close a listener that is still
  registered, leave the group of serving threads and wait for a stop in progress.\<close>

definition accept_failed :: "grpcServer \<Rightarrow> nonBlockingGRPCServer \<Rightarrow> nonBlockingGRPCServer" where
  "accept_failed g s =
     s\<lparr>server := Some (g\<lparr>g_lis := map_option (\<lambda>_. False) (g_lis g), g_serveWG := g_serveWG g - 1\<rparr>),
       lopen := lopen s \<and> g_lis g \<noteq> Some True,
       spc := (if g_quit g then AtWaitDone else ServeReturned)\<rparr>"

text \<open>\<open>GracefulStop\<close> at its first lock.\<close>

definition graceful_close :: "grpcServer \<Rightarrow> nonBlockingGRPCServer \<Rightarrow> nonBlockingGRPCServer" where
  "graceful_close g s =
     (if g_conns g = None then s\<lparr>server := Some (g\<lparr>g_done := True\<rparr>), tpc := StopReturned\<rparr>
      else s\<lparr>server := Some (g\<lparr>g_lis := None\<rparr>), lopen := lopen s \<and> g_lis g \<noteq> Some True, tpc := AtServeWG\<rparr>)"

record Runner =
  run_server :: nonBlockingGRPCServer
  run_endpoint :: string
  run_ids :: bool
  run_cs :: bool
  run_ns :: bool
  leaderenable :: bool

definition NewRunner :: "bool \<Rightarrow> string \<Rightarrow> bool \<Rightarrow> bool \<Rightarrow> bool \<Rightarrow> Runner" where
  "NewRunner le ep ids cs ns =
     \<lparr>run_server = NewNonBlockingGRPCServer, run_endpoint = ep, run_ids = ids, run_cs = cs, run_ns = ns,
      leaderenable = le\<rparr>"

definition NeedLeaderElection :: "Runner \<Rightarrow> bool" where
  "NeedLeaderElection r = leaderenable r"

text \<open>\<open>Start\<close> starts both goroutines and returns nil at once.\<close>

definition Runner_Start :: "Runner \<Rightarrow> error option \<times> Runner" where
  "Runner_Start r = (None, r\<lparr>run_server := (server_Start (run_server r))\<lparr>tpc := AtContext\<rparr>\<rparr>)"

text \<open>The steps of the two goroutines of a started runner, as long as the process lives. Removing the
  socket and listening may have any outcome; a temporary error of \<open>Accept\<close> is retried and changes
  nothing. Each accepted connection has a goroutine for its handshake (\<open>handleRawConn\<close>), which adds
  the connection or gives it up, also when a stop has begun meanwhile.\<close>

inductive srv_step :: "Runner \<Rightarrow> nonBlockingGRPCServer \<Rightarrow> nonBlockingGRPCServer \<Rightarrow> bool" for r :: Runner where
  listen: "died s = None \<Longrightarrow> spc s = AtListen \<Longrightarrow> listen_on rm ln (run_endpoint r) () = (Inr pa, w') \<Longrightarrow>
    srv_step r s (s\<lparr>lopen := True, spc := AtNew\<rparr>)"
| listen_fatal: "died s = None \<Longrightarrow> spc s = AtListen \<Longrightarrow> listen_on rm ln (run_endpoint r) () = (Inl e, w') \<Longrightarrow>
    srv_step r s (s\<lparr>died := Some e\<rparr>)"
| assign: "died s = None \<Longrightarrow> spc s = AtNew \<Longrightarrow>
    srv_step r s (s\<lparr>server := Some grpc_NewServer, spc := AtRegister\<rparr>)"
| register: "died s = None \<Longrightarrow> spc s = AtRegister \<Longrightarrow> server s = Some g \<Longrightarrow>
    register_all (services (run_ids r) (run_cs r) (run_ns r)) g = Inr g' \<Longrightarrow>
    srv_step r s (s\<lparr>server := Some g', spc := AtServe\<rparr>)"
| register_fatal: "died s = None \<Longrightarrow> spc s = AtRegister \<Longrightarrow> server s = Some g \<Longrightarrow>
    register_all (services (run_ids r) (run_cs r) (run_ns r)) g = Inl e \<Longrightarrow>
    srv_step r s (s\<lparr>died := Some e\<rparr>)"
| serve: "died s = None \<Longrightarrow> spc s = AtServe \<Longrightarrow> server s = Some g \<Longrightarrow> srv_step r s (grpc_Serve g s)"
| accept: "died s = None \<Longrightarrow> spc s = AtAccept \<Longrightarrow> lopen s \<Longrightarrow> server s = Some g \<Longrightarrow>
    srv_step r s (s\<lparr>server := Some (g\<lparr>g_serveWG := g_serveWG g + 1, g_hand := g_hand g + 1\<rparr>)\<rparr>)"
| add_conn: "died s = None \<Longrightarrow> server s = Some g \<Longrightarrow> g_hand g = Suc h \<Longrightarrow> g_conns g = Some n \<Longrightarrow>
    srv_step r s (s\<lparr>server := Some (g\<lparr>g_serveWG := g_serveWG g - 1, g_hand := h, g_conns := Some (Suc n)\<rparr>)\<rparr>)"
| drop_conn: "died s = None \<Longrightarrow> server s = Some g \<Longrightarrow> g_hand g = Suc h \<Longrightarrow>
    srv_step r s (s\<lparr>server := Some (g\<lparr>g_serveWG := g_serveWG g - 1, g_hand := h\<rparr>)\<rparr>)"
| accept_error: "died s = None \<Longrightarrow> spc s = AtAccept \<Longrightarrow> server s = Some g \<Longrightarrow> srv_step r s (accept_failed g s)"
| conn_end: "died s = None \<Longrightarrow> server s = Some g \<Longrightarrow> g_conns g = Some (Suc n) \<Longrightarrow>
    srv_step r s (s\<lparr>server := Some (g\<lparr>g_conns := Some n\<rparr>)\<rparr>)"
| wait_done: "died s = None \<Longrightarrow> spc s = AtWaitDone \<Longrightarrow> server s = Some g \<Longrightarrow> g_done g \<Longrightarrow>
    srv_step r s (s\<lparr>spc := ServeReturned\<rparr>)"
| context_done: "died s = None \<Longrightarrow> tpc s = AtContext \<Longrightarrow> srv_step r s (s\<lparr>tpc := AtStop\<rparr>)"
| stop: "died s = None \<Longrightarrow> tpc s = AtStop \<Longrightarrow> srv_step r s (server_Stop s)"
| close: "died s = None \<Longrightarrow> tpc s = AtClose \<Longrightarrow> server s = Some g \<Longrightarrow> srv_step r s (graceful_close g s)"
| serve_threads: "died s = None \<Longrightarrow> tpc s = AtServeWG \<Longrightarrow> server s = Some g \<Longrightarrow> g_serveWG g = 0 \<Longrightarrow>
    srv_step r s (s\<lparr>tpc := AtConns\<rparr>)"
| conns_gone: "died s = None \<Longrightarrow> tpc s = AtConns \<Longrightarrow> server s = Some g \<Longrightarrow> g_conns g = Some 0 \<Longrightarrow>
    srv_step r s (s\<lparr>server := Some (g\<lparr>g_conns := None, g_done := True\<rparr>), tpc := StopReturned\<rparr>)"

inductive_cases srv_stepE: "srv_step r s s'"

abbreviation srv_run :: "Runner \<Rightarrow> nonBlockingGRPCServer \<Rightarrow> bool" where
  "srv_run r s \<equiv> (srv_step r)\<^sup>*\<^sup>* (run_server (snd (Runner_Start r))) s"


section \<open>Invariant\<close>

definition stop_begun :: "stop_pc \<Rightarrow> bool" where
  "stop_begun p \<longleftrightarrow> p \<in> {AtClose, AtServeWG, AtConns, StopReturned}"

text \<open>How the shared fields go with the places the goroutines have reached.\<close>

definition grpc_inv :: "service list \<Rightarrow> bool \<Rightarrow> serve_pc \<Rightarrow> stop_pc \<Rightarrow> grpcServer \<Rightarrow> bool" where
  "grpc_inv svs lo p q g \<longleftrightarrow>
     p \<notin> {AtListen, AtNew}
     \<and> g_m g = (if p = AtRegister then [] else svs)
     \<and> (g_serve g \<longleftrightarrow> p \<in> {AtAccept, AtWaitDone, ServeReturned})
     \<and> g_serveWG g = (if p = AtAccept then 1 else 0) + g_hand g
     \<and> (g_quit g \<longleftrightarrow> stop_begun q)
     \<and> (g_lis g = None \<longleftrightarrow> q \<in> {AtServeWG, AtConns, StopReturned})
     \<and> (g_lis g = Some True \<longleftrightarrow> p = AtAccept \<and> q \<notin> {AtServeWG, AtConns, StopReturned})
     \<and> (lo \<longleftrightarrow> p \<in> {AtRegister, AtServe} \<or> g_lis g = Some True)
     \<and> (g_done g \<longleftrightarrow> q = StopReturned) \<and> (g_conns g = None \<longleftrightarrow> q = StopReturned)
     \<and> (q \<in> {AtConns, StopReturned} \<longrightarrow> p \<noteq> AtAccept \<and> g_hand g = 0) \<and> (p = AtWaitDone \<longrightarrow> stop_begun q)"

definition srv_inv :: "Runner \<Rightarrow> nonBlockingGRPCServer \<Rightarrow> bool" where
  "srv_inv r s \<longleftrightarrow> wg s = 1 \<and> (case server s of
       None \<Rightarrow> spc s \<in> {AtListen, AtNew} \<and> (lopen s \<longleftrightarrow> spc s = AtNew) \<and> \<not> stop_begun (tpc s)
     | Some g \<Rightarrow> grpc_inv (services (run_ids r) (run_cs r) (run_ns r)) (lopen s) (spc s) (tpc s) g)"


lemma register_all_ok:
  "\<not> g_serve g \<Longrightarrow> distinct svs \<Longrightarrow> set svs \<inter> set (g_m g) = {} \<Longrightarrow> register_all svs g = Inr (g\<lparr>g_m := g_m g @ svs\<rparr>)"
  by (induction svs arbitrary: g) (auto simp: grpc_register_def)

lemma services_distinct [simp]: "distinct (services ids cs ns)"
  by (simp add: services_def)

lemma register_step:
  "grpc_inv (services ids cs ns) lo AtRegister q g \<Longrightarrow>
     register_all (services ids cs ns) g = Inr (g\<lparr>g_m := services ids cs ns\<rparr>)"
  using register_all_ok [of g "services ids cs ns"] by (simp add: grpc_inv_def)

lemma srv_inv_start: "run_server r = NewNonBlockingGRPCServer \<Longrightarrow> srv_inv r (run_server (snd (Runner_Start r)))"
  by (simp add: srv_inv_def Runner_Start_def server_Start_def NewNonBlockingGRPCServer_def stop_begun_def)

interpretation srv: preserved "srv_step r" "srv_inv r"
proof (unfold_locales)
  fix s s' assume "srv_step r s s'" "srv_inv r s"
  then show "srv_inv r s'"
  proof cases
    case (register g g')
    with \<open>srv_inv r s\<close> have inv: "grpc_inv (services (run_ids r) (run_cs r) (run_ns r)) (lopen s) AtRegister (tpc s) g"
      by (simp add: srv_inv_def)
    have "g' = g\<lparr>g_m := services (run_ids r) (run_cs r) (run_ns r)\<rparr>"
      using register_step [OF inv] register(5) by simp
    with register inv \<open>srv_inv r s\<close> show ?thesis by (simp add: srv_inv_def grpc_inv_def)
  next
    case (register_fatal g e)
    with \<open>srv_inv r s\<close> show ?thesis by (simp add: srv_inv_def)
  next
    case (serve g)
    then show ?thesis using \<open>srv_inv r s\<close>
      by (cases "g_lis g") (auto simp: srv_inv_def grpc_inv_def grpc_Serve_def)
  next
    case (accept_error g)
    then show ?thesis using \<open>srv_inv r s\<close>
      by (cases "g_lis g") (auto simp: srv_inv_def grpc_inv_def accept_failed_def)
  next
    case stop
    then show ?thesis using \<open>srv_inv r s\<close>
      by (cases "server s") (auto simp: srv_inv_def grpc_inv_def server_Stop_def stop_begun_def)
  next
    case (close g)
    then show ?thesis using \<open>srv_inv r s\<close>
      by (cases "g_lis g") (auto simp: srv_inv_def grpc_inv_def graceful_close_def stop_begun_def)
  qed (use \<open>srv_inv r s\<close> in \<open>auto simp: srv_inv_def grpc_inv_def stop_begun_def grpc_NewServer_def split: option.splits\<close>)
qed


section \<open>Stopping\<close>

text \<open>The states after \<open>GracefulStop\<close> has closed the listeners, and a bound on what is left to
  do.\<close>

definition closing :: "Runner \<Rightarrow> nonBlockingGRPCServer \<Rightarrow> bool" where
  "closing r s \<longleftrightarrow> srv_inv r s \<and> died s = None \<and> tpc s \<in> {AtServeWG, AtConns, StopReturned}"

fun serve_rank :: "serve_pc \<Rightarrow> nat" where
  "serve_rank AtListen = 6" | "serve_rank AtNew = 5" | "serve_rank AtRegister = 4" | "serve_rank AtServe = 3"
| "serve_rank AtAccept = 2" | "serve_rank AtWaitDone = 1" | "serve_rank ServeReturned = 0"

fun stop_rank :: "stop_pc \<Rightarrow> nat" where
  "stop_rank AtContext = 5" | "stop_rank AtStop = 4" | "stop_rank AtClose = 3" | "stop_rank AtServeWG = 2"
| "stop_rank AtConns = 1" | "stop_rank StopReturned = 0"

definition steps_left :: "nonBlockingGRPCServer \<Rightarrow> nat" where
  "steps_left s = serve_rank (spc s) + stop_rank (tpc s)
     + (case server s of None \<Rightarrow> 0 | Some g \<Rightarrow> 2 * g_hand g + (case g_conns g of None \<Rightarrow> 0 | Some n \<Rightarrow> n))"

lemma closing_server: "closing r s \<Longrightarrow> \<exists>g. server s = Some g \<and>
    grpc_inv (services (run_ids r) (run_cs r) (run_ns r)) (lopen s) (spc s) (tpc s) g"
  by (auto simp: closing_def srv_inv_def stop_begun_def split: option.splits)

lemma closing_step:
  assumes "srv_step r s s'" "closing r s"
  shows "died s' = None \<and> tpc s' \<in> {AtServeWG, AtConns, StopReturned} \<and> steps_left s' < steps_left s"
proof -
  obtain g where g: "server s = Some g"
    and inv: "grpc_inv (services (run_ids r) (run_cs r) (run_ns r)) (lopen s) (spc s) (tpc s) g"
    using closing_server [OF assms(2)] by blast
  have t: "died s = None" "tpc s \<in> {AtServeWG, AtConns, StopReturned}" using assms(2) by (auto simp: closing_def)
  from assms(1) show ?thesis
  proof cases
    case (register g1 g')
    then have "g' = g\<lparr>g_m := services (run_ids r) (run_cs r) (run_ns r)\<rparr>" using register_step inv g by fastforce
    with register g t show ?thesis by (auto simp: steps_left_def)
  next
    case (register_fatal g1 e)
    then show ?thesis using register_step inv g by fastforce
  qed (use g inv t in \<open>auto simp: steps_left_def grpc_inv_def grpc_Serve_def accept_failed_def split: option.splits\<close>)
qed

interpretation down: terminating "srv_step r" "closing r" steps_left
proof unfold_locales
  fix s s' assume s: "srv_step r s s'" "closing r s"
  then have "srv_inv r s'" using srv.step_inv by (auto simp: closing_def)
  with closing_step [OF s] show "closing r s'" by (simp add: closing_def)
  show "steps_left s' < steps_left s" using closing_step [OF s] by simp
qed

lemma closing_progress:
  assumes "closing r s" "\<And>s'. \<not> srv_step r s s'"
  shows "spc s = ServeReturned \<and> tpc s = StopReturned"
proof -
  obtain g where g: "server s = Some g"
    and inv: "grpc_inv (services (run_ids r) (run_cs r) (run_ns r)) (lopen s) (spc s) (tpc s) g"
    using closing_server [OF assms(1)] by blast
  have d: "died s = None" "tpc s \<in> {AtServeWG, AtConns, StopReturned}" using assms(1) by (auto simp: closing_def)
  have "spc s \<noteq> AtRegister"
    using assms(2) srv_step.register [OF d(1) _ g register_step] inv by metis
  moreover have "spc s \<noteq> AtServe" "spc s \<noteq> AtAccept"
    using assms(2) srv_step.serve [OF d(1) _ g] srv_step.accept_error [OF d(1) _ g] by blast+
  ultimately have p: "spc s \<notin> {AtListen, AtNew, AtRegister, AtServe, AtAccept}" using inv by (simp add: grpc_inv_def)
  moreover have h: "g_hand g = 0" using assms(2) srv_step.drop_conn [OF d(1) g] by (cases "g_hand g") auto
  ultimately have "tpc s \<noteq> AtServeWG" using assms(2) srv_step.serve_threads [OF d(1) _ g] inv by (auto simp: grpc_inv_def)
  moreover have "tpc s \<noteq> AtConns"
  proof
    assume c: "tpc s = AtConns"
    then obtain n where n: "g_conns g = Some n" using inv by (auto simp: grpc_inv_def)
    show False using assms(2) srv_step.conns_gone [OF d(1) c g] srv_step.conn_end [OF d(1) g] n by (cases n) auto
  qed
  ultimately have t: "tpc s = StopReturned" using d(2) by auto
  then have "spc s \<noteq> AtWaitDone" using assms(2) srv_step.wait_done [OF d(1) _ g] inv by (auto simp: grpc_inv_def)
  with p t show ?thesis by (cases "spc s") auto
qed

section \<open>Properties\<close>

lemma started: "srv_run (NewRunner le ep ids cs ns) s \<Longrightarrow> srv_inv (NewRunner le ep ids cs ns) s"
  by (rule srv.run_inv) (auto intro: srv_inv_start simp: NewRunner_def)

text \<open>C26: Whatever happens to the server of a started process: while it serves, exactly the services the
  process was given are registered, and its listener is open unless a stop has closed it; and the wait
  group never empties, so nobody who waits for the server returns.\<close>

theorem server_invariant:
  assumes "srv_run (NewRunner le ep ids cs ns) s"
  shows "(\<forall>g. server s = Some g \<longrightarrow> g_serve g \<longrightarrow> g_m g = services ids cs ns)
    \<and> (spc s = AtAccept \<longrightarrow> lopen s \<or> tpc s = AtServeWG) \<and> \<not> Wait_returns s"
  using started [OF assms]
  by (auto simp: srv_inv_def grpc_inv_def Wait_returns_def NewRunner_def split: option.splits)

text \<open>C21: Stopping terminates. Once \<open>GracefulStop\<close> has closed the listeners of a started server, at most
  \<open>steps_left\<close> further steps of the two goroutines are possible, and when none is possible any
  more both have returned.\<close>

theorem shutdown_terminates:
  assumes "srv_run (NewRunner le ep ids cs ns) s" "died s = None" "tpc s = AtServeWG"
    and "(srv_step (NewRunner le ep ids cs ns) ^^ k) s s'"
  shows "k \<le> steps_left s
    \<and> ((\<forall>s2. \<not> srv_step (NewRunner le ep ids cs ns) s' s2) \<longrightarrow> spc s' = ServeReturned \<and> tpc s' = StopReturned)"
proof -
  have c: "closing (NewRunner le ep ids cs ns) s" using started [OF assms(1)] assms(2,3) by (simp add: closing_def)
  have "closing (NewRunner le ep ids cs ns) s'"
    using down.run_inv [OF relpowp_imp_rtranclp [OF assms(4)] c] .
  with down.run_bounded [OF assms(4) c] closing_progress show ?thesis by auto
qed

text \<open>C40: A stop that comes too early ends the process: when the context is done before the serving
  goroutine has made the server, calling its stop method dereferences nil; afterwards it never does.\<close>

theorem stop_too_early:
  assumes "srv_run (NewRunner le ep ids cs ns) s" "died s = None"
  shows "died (server_Stop s) = (if spc s \<in> {AtListen, AtNew} then Some nil_server else None)"
  using started [OF assms(1)] assms(2)
  by (auto simp: srv_inv_def grpc_inv_def server_Stop_def split: option.splits)


section \<open>Listening\<close>

text \<open>The calls of \<open>listen_on\<close>, logged.\<close>

datatype lcall = Remove string | Listen string string

definition rm_logged :: "(string \<Rightarrow> 'w \<Rightarrow> error option \<times> 'w) \<Rightarrow> string \<Rightarrow> 'w \<times> lcall list \<Rightarrow> error option \<times> 'w \<times> lcall list" where
  "rm_logged rm a = (\<lambda>(w, l). (fst (rm a w), snd (rm a w), l @ [Remove a]))"

definition ln_logged ::
    "(string \<Rightarrow> string \<Rightarrow> 'w \<Rightarrow> error option \<times> 'w) \<Rightarrow> string \<Rightarrow> string \<Rightarrow> 'w \<times> lcall list \<Rightarrow> error option \<times> 'w \<times> lcall list" where
  "ln_logged ln p a = (\<lambda>(w, l). (fst (ln p a w), snd (ln p a w), l @ [Listen p a]))"

text \<open>What is done to the file system and the network before serving: nothing for an endpoint that is not
  accepted; for a \<open>unix\<close> endpoint the file is removed first and the listener is opened on the same
  path, unless the removal failed for another reason than that there was no file; any other endpoint is
  listened on directly. The process serves where it listened.\<close>

theorem listen_order:
  assumes "listen_on (rm_logged rm) (ln_logged ln) ep (w, []) = (r, w', l)"
  shows "case parseEndpoint ep of
      Inl e \<Rightarrow> r = Inl e \<and> l = []
    | Inr (p, a) \<Rightarrow>
        (if p = ''unix''
         then (\<exists>e. fst (rm (''/'' @ a) w) = Some e \<and> \<not> os_IsNotExist e \<and> l = [Remove (''/'' @ a)] \<and> (\<exists>e'. r = Inl e'))
           \<or> (l = [Remove (''/'' @ a), Listen p (''/'' @ a)] \<and> (r = Inr (p, ''/'' @ a) \<or> (\<exists>e'. r = Inl e')))
         else l = [Listen p a] \<and> (r = Inr (p, a) \<or> (\<exists>e'. r = Inl e')))"
proof (cases "parseEndpoint ep")
  case (Inl e)
  with assms have "r = Inl e" "l = []" by (simp_all add: listen_on_def)
  with Inl show ?thesis by simp
next
  case (Inr pa)
  obtain p a where pa: "parseEndpoint ep = Inr (p, a)" using Inr by (cases pa) auto
  then show ?thesis using assms
    by (auto simp: listen_on_def rm_logged_def ln_logged_def Let_def split: option.splits if_splits)
qed

text \<open>A scheme in another case than the network's name is accepted as an endpoint and then ends the
  process: the network is asked to listen under the scheme as it was written, which it refuses for any
  name but the known ones, and the old socket is not removed.\<close>

theorem scheme_case_refused:
  assumes "\<And>p a w. p \<notin> {''tcp'', ''tcp4'', ''tcp6'', ''unix'', ''unixpacket''} \<Longrightarrow> fst (ln p a w) \<noteq> None"
    and "ToLower p = ''unix'' \<or> ToLower p = ''tcp''" "p \<noteq> ''unix''" "p \<noteq> ''tcp''" "a \<noteq> []"
  shows "parseEndpoint (p @ ''://'' @ a) = Inr (p, a) \<and>
    (\<exists>e. listen_on rm ln (p @ ''://'' @ a) w = (Inl (Errorf ''Failed to listen: %v'' [AErr e]), snd (ln p a w)))"
proof -
  have "ToLower ''tcp4'' = ''tcp4''" "ToLower ''tcp6'' = ''tcp6''" "ToLower ''unixpacket'' = ''unixpacket''"
    by (simp_all add: ToLower_def lower_char_def is_upper_def char_of_def bit_0)
  with assms(2) have "p \<notin> {''tcp4'', ''tcp6'', ''unixpacket''}" by auto
  with assms(3,4) have "p \<notin> {''tcp'', ''tcp4'', ''tcp6'', ''unix'', ''unixpacket''}" by auto
  from assms(1) [OF this] obtain e where e: "fst (ln p a w) = Some e" by auto
  have ps: "parseEndpoint (p @ ''://'' @ a) = Inr (p, a)"
    using endpoint_accepted [of "p @ ''://'' @ a" p a] assms(2,5) by blast
  with e assms(3) show ?thesis by (auto simp: listen_on_def split: prod.splits)
qed


section \<open>Witnesses\<close>

definition demo_runner :: Runner where
  "demo_runner = NewRunner True ''unix:///csi.sock'' True False True"

text \<open>A server on which one connection is open when the listeners were closed.\<close>

lemma demo_listens: "listen_on (\<lambda>_ _. (None, ())) (\<lambda>_ _ _. (None, ())) (run_endpoint demo_runner) () = (Inr (''unix'', ''//csi.sock''), ())"
proof -
  have "parseEndpoint (''unix'' @ ''://'' @ ''/csi.sock'') = Inr (''unix'', ''/csi.sock'')"
    by (rule endpoint_accepted [OF refl]) (simp_all add: ToLower_def lower_char_def is_upper_def char_of_def bit_0)
  then show ?thesis by (simp add: listen_on_def demo_runner_def NewRunner_def)
qed

definition demo_ready :: nonBlockingGRPCServer where
  "demo_ready = \<lparr>wg = 1, server = Some \<lparr>g_m = [IdentityService, NodeService], g_serve = True, g_lis = Some True,
     g_conns = Some 0, g_hand = 0, g_quit = False, g_done = False, g_serveWG = 1\<rparr>, lopen = True, spc = AtAccept, tpc = AtContext, died = None\<rparr>"

lemma demo_start: "run_server (snd (Runner_Start demo_runner)) =
    \<lparr>wg = 1, server = None, lopen = False, spc = AtListen, tpc = AtContext, died = None\<rparr>"
  by (simp add: Runner_Start_def server_Start_def demo_runner_def NewRunner_def NewNonBlockingGRPCServer_def)

lemma demo_services: "services (run_ids demo_runner) (run_cs demo_runner) (run_ns demo_runner) = [IdentityService, NodeService]"
  by (simp add: services_def demo_runner_def NewRunner_def)

lemma demo_serving: "srv_run demo_runner demo_ready"
proof -
  let ?g = "grpc_NewServer" and ?s0 = "run_server (snd (Runner_Start demo_runner))"
  let ?g1 = "?g\<lparr>g_m := [IdentityService, NodeService]\<rparr>"
  let ?s1 = "?s0\<lparr>lopen := True, spc := AtNew\<rparr>"
  let ?s2 = "?s1\<lparr>server := Some ?g, spc := AtRegister\<rparr>"
  let ?s3 = "?s2\<lparr>server := Some ?g1, spc := AtServe\<rparr>"
  have 1: "srv_step demo_runner ?s0 ?s1" by (rule srv_step.listen [OF _ _ demo_listens]) (simp_all add: demo_start)
  have 2: "srv_step demo_runner ?s1 ?s2" by (rule srv_step.assign) (simp_all add: demo_start)
  have 3: "srv_step demo_runner ?s2 ?s3"
    by (rule srv_step.register [where g = ?g])
      (simp_all add: demo_start demo_services grpc_register_def grpc_NewServer_def)
  have 4: "srv_step demo_runner ?s3 (grpc_Serve ?g1 ?s3)"
    by (rule srv_step.serve) (simp_all add: demo_start)
  have "grpc_Serve ?g1 ?s3 = demo_ready"
    by (simp add: grpc_Serve_def demo_start grpc_NewServer_def demo_ready_def)
  with 1 2 3 4 show ?thesis by (metis r_into_rtranclp rtranclp.rtrancl_into_rtrancl)
qed

theorem server_invariant_witness: "map_option g_m (server demo_ready) = Some [IdentityService, NodeService] \<and> \<not> Wait_returns demo_ready"
  using server_invariant [OF demo_serving [unfolded demo_runner_def]] by (simp add: demo_ready_def services_def)

text \<open>Stopping that server: first until its listener is closed, then to the end.\<close>

definition demo_closed :: nonBlockingGRPCServer where
  "demo_closed = demo_ready\<lparr>server := Some \<lparr>g_m = [IdentityService, NodeService], g_serve = True, g_lis = None,
     g_conns = Some 0, g_hand = 0, g_quit = True, g_done = False, g_serveWG = 1\<rparr>, lopen := False, tpc := AtServeWG\<rparr>"

definition demo_stopped :: nonBlockingGRPCServer where
  "demo_stopped = demo_closed\<lparr>server := Some \<lparr>g_m = [IdentityService, NodeService], g_serve = True, g_lis = None,
     g_conns = None, g_hand = 0, g_quit = True, g_done = True, g_serveWG = 0\<rparr>, spc := ServeReturned, tpc := StopReturned\<rparr>"

lemma demo_close: "srv_run demo_runner demo_closed"
proof -
  let ?s1 = "demo_ready\<lparr>tpc := AtStop\<rparr>" and ?s2 = "server_Stop (demo_ready\<lparr>tpc := AtStop\<rparr>)"
  have 1: "srv_step demo_runner demo_ready ?s1" by (rule srv_step.context_done) (simp_all add: demo_ready_def)
  have 2: "srv_step demo_runner ?s1 ?s2" by (rule srv_step.stop) (simp_all add: demo_ready_def)
  have 3: "srv_step demo_runner ?s2 (graceful_close (the (server ?s2)) ?s2)"
    by (rule srv_step.close) (simp_all add: demo_ready_def server_Stop_def)
  have "graceful_close (the (server ?s2)) ?s2 = demo_closed"
    by (simp add: graceful_close_def server_Stop_def demo_ready_def demo_closed_def)
  with demo_serving 1 2 3 show ?thesis by (metis rtranclp.rtrancl_into_rtrancl)
qed

lemma demo_stop: "(srv_step demo_runner ^^ 4) demo_closed demo_stopped"
proof -
  let ?s1 = "accept_failed (the (server demo_closed)) demo_closed"
  let ?s2 = "?s1\<lparr>tpc := AtConns\<rparr>"
  let ?s3 = "?s2\<lparr>server := Some ((the (server ?s2))\<lparr>g_conns := None, g_done := True\<rparr>), tpc := StopReturned\<rparr>"
  have 1: "srv_step demo_runner demo_closed ?s1"
    by (rule srv_step.accept_error) (simp_all add: demo_closed_def demo_ready_def)
  have 2: "srv_step demo_runner ?s1 ?s2"
    by (rule srv_step.serve_threads [where g = "the (server ?s1)"]) (simp_all add: accept_failed_def demo_closed_def demo_ready_def)
  have 3: "srv_step demo_runner ?s2 ?s3"
    by (rule srv_step.conns_gone) (simp_all add: accept_failed_def demo_closed_def demo_ready_def)
  have 4: "srv_step demo_runner ?s3 (?s3\<lparr>spc := ServeReturned\<rparr>)"
    by (rule srv_step.wait_done [where g = "the (server ?s3)"]) (simp_all add: accept_failed_def demo_closed_def demo_ready_def)
  have "?s3\<lparr>spc := ServeReturned\<rparr> = demo_stopped"
    by (simp add: accept_failed_def demo_closed_def demo_ready_def demo_stopped_def)
  with 1 2 3 4 show ?thesis by (simp add: numeral_eq_Suc) blast
qed

theorem shutdown_terminates_witness: "steps_left demo_closed = 4 \<and> (srv_step demo_runner ^^ 4) demo_closed demo_stopped"
proof -
  have "(4::nat) \<le> steps_left demo_closed"
    using shutdown_terminates [OF demo_close [unfolded demo_runner_def] _ _ demo_stop [unfolded demo_runner_def]]
    by (simp add: demo_closed_def demo_ready_def)
  with demo_stop show ?thesis by (simp add: steps_left_def demo_closed_def demo_ready_def)
qed

theorem stop_too_early_witness: "died (server_Stop (run_server (snd (Runner_Start demo_runner)))) = Some nil_server"
  using stop_too_early [of True "''unix:///csi.sock''" True False True] by (simp add: demo_runner_def [symmetric] demo_start)

theorem listen_order_witness:
  "snd (snd (listen_on (rm_logged (\<lambda>_ w. (None, w))) (ln_logged (\<lambda>_ _ w. (None, w))) (run_endpoint demo_runner) ((), [])))
     = [Remove ''//csi.sock'', Listen ''unix'' ''//csi.sock'']"
proof -
  let ?x = "listen_on (rm_logged (\<lambda>_ w. (None, w))) (ln_logged (\<lambda>_ _ w. (None, w))) (run_endpoint demo_runner) ((), [])"
  have "parseEndpoint (''unix'' @ ''://'' @ ''/csi.sock'') = Inr (''unix'', ''/csi.sock'')"
    by (rule endpoint_accepted [OF refl]) (simp_all add: ToLower_def lower_char_def is_upper_def char_of_def bit_0)
  then have "parseEndpoint (run_endpoint demo_runner) = Inr (''unix'', ''/csi.sock'')"
    by (simp add: demo_runner_def NewRunner_def)
  moreover obtain r w' l where x: "?x = (r, w', l)" by (metis prod_cases3)
  ultimately show ?thesis using listen_order [OF x] by (simp add: x)
qed

theorem scheme_case_refused_witness:
  "\<exists>e. fst (listen_on (\<lambda>_ w. (None, w)) (\<lambda>p _ w. (if p = ''unix'' \<or> p = ''tcp'' then None else Some (ExtErr ''unknown network''), w))
      ''UNIX:///csi.sock'' ()) = Inl e"
  using scheme_case_refused [of "\<lambda>p _ w. (if p = ''unix'' \<or> p = ''tcp'' then None else Some (ExtErr ''unknown network''), w)"
      "''UNIX''" "''/csi.sock''" "\<lambda>_ w. (None, w)" "()"]
  by (auto simp: ToLower_def lower_char_def is_upper_def char_of_def bit_0)

end
