(* ===== verification/Runtime.thy ===== *)
theory Runtime
  imports Scheme Server
begin

text \<open>
  What the two processes use of the vendored controller runtime: the manager
  (\<open>pkg/manager/manager.go\<close>, \<open>internal.go\<close>) with its optional leader election, and the
  builder (\<open>pkg/builder\<close>, \<open>pkg/controller\<close>) by which \<open>probe\<close> of
  \<open>alcubManage.go\<close> and of \<open>nodeManage.go\<close> hand a reconciler to the manager.

  What the operating system and the API server answer while a manager is made is the record
  \<open>boot\<close>. A manager that runs is a step relation: the server of the metrics is started if there is a
  listener for it, the two lists of runnables are started under the manager's lock, the election is won or
  lost, a runnable fails, or the process is asked to stop. What has been started is kept in \<open>running\<close>, in
  order.
\<close>

section \<open>The manager\<close>

text \<open>A controller of the runtime: its name, what it watches, and how many workers it has.\<close>

record Ctl =
  ctl_Name :: string
  ctl_For :: GroupVersionKind
  MaxConcurrentReconciles :: nat

datatype runnable = StartCache | Reconciles Ctl | Serves Runner | ServesMetrics

record Mgr =
  mgr_scheme :: Scheme
  resourceLock :: bool
  metricsListener :: "string option"
  leaderElectionRunnables :: "runnable list"
  nonLeaderElectionRunnables :: "runnable list"
  mgr_started :: bool
  startedMetrics :: bool
  startedOthers :: bool
  startedLeader :: bool
  stopProcedureEngaged :: bool
  elected :: bool
  running :: "runnable list"
  returned :: "error option option"

record boot =
  boot_config :: "error option"
  boot_parts :: "error option"
  boot_lock :: "error option"
  boot_listen :: "string \<Rightarrow> error option"

record Options =
  LeaderElection :: bool
  LeaderElectionID :: string
  MetricsBindAddress :: string

text \<open>\<open>NewResourceLock\<close>: whether there is a lock. Finding the namespace and making the client is
  \<open>boot_lock\<close>.\<close>

definition NewResourceLock :: "boot \<Rightarrow> Options \<Rightarrow> error + bool" where
  "NewResourceLock B opt =
     (if \<not> LeaderElection opt then Inr False
      else if LeaderElectionID opt = [] then Inl (Errorf ''LeaderElectionID must be configured'' [])
      else case boot_lock B of Some e \<Rightarrow> Inl e | None \<Rightarrow> Inr True)"

definition NewListener :: "boot \<Rightarrow> string \<Rightarrow> error + string option" where
  "NewListener B a =
     (let addr = (if a = [] then '':8080'' else a) in
      if addr = ''0'' then Inr None
      else case boot_listen B addr of Some e \<Rightarrow> Inl (Errorf ''error listening on %s: %w'' [AStr addr, AErr e]) | None \<Rightarrow> Inr (Some addr))"

text \<open>\<open>New\<close>. The mapper, the cache, the clients and the recorder are \<open>boot_parts\<close>; the health
  probes are not bound.\<close>

definition NewManager :: "boot \<Rightarrow> Options \<Rightarrow> Scheme \<Rightarrow> error + Mgr" where
  "NewManager B opt sch = (case boot_parts B of
     Some e \<Rightarrow> Inl e
   | None \<Rightarrow> (case NewResourceLock B opt of
       Inl e \<Rightarrow> Inl e
     | Inr lock \<Rightarrow> (case NewListener B (MetricsBindAddress opt) of
         Inl e \<Rightarrow> Inl e
       | Inr ln \<Rightarrow> Inr \<lparr>mgr_scheme = sch, resourceLock = lock, metricsListener = ln, leaderElectionRunnables = [],
           nonLeaderElectionRunnables = [], mgr_started = False, startedMetrics = False, startedOthers = False, startedLeader = False,
           stopProcedureEngaged = False, elected = False, running = [], returned = None\<rparr>)))"

text \<open>Only the server of the program says itself whether it needs the election; controllers do.\<close>

fun needs_leader :: "runnable \<Rightarrow> bool" where
  "needs_leader (Serves r) = NeedLeaderElection r"
| "needs_leader _ = True"

definition startRunnable :: "runnable \<Rightarrow> Mgr \<Rightarrow> Mgr" where
  "startRunnable r m = m\<lparr>running := running m @ [r]\<rparr>"

definition mgr_Add :: "runnable \<Rightarrow> Mgr \<Rightarrow> error + Mgr" where
  "mgr_Add r m =
     (if stopProcedureEngaged m then Inl (Errorf ''can't accept new runnable as stop procedure is already engaged'' [])
      else let (shouldStart, m1) =
          (if \<not> needs_leader r then (mgr_started m, m\<lparr>nonLeaderElectionRunnables := nonLeaderElectionRunnables m @ [r]\<rparr>)
           else (startedLeader m, m\<lparr>leaderElectionRunnables := leaderElectionRunnables m @ [r]\<rparr>))
        in Inr (if shouldStart then startRunnable r m1 else m1))"

section \<open>The builder\<close>

text \<open>\<open>NewControllerManagedBy(mgr).For(object).Complete(r)\<close>, with the default options.\<close>

definition builder_Complete :: "gotype \<Rightarrow> Mgr \<Rightarrow> error + Mgr" where
  "builder_Complete t m = (case GVKForObject t (mgr_scheme m) of
     Inl e \<Rightarrow> Inl e
   | Inr g \<Rightarrow>
       if length (ToLower (Kind g)) = 0 then Inl (Errorf ''must specify Name for Controller'' [])
       else mgr_Add (Reconciles \<lparr>ctl_Name = ToLower (Kind g), ctl_For = g, MaxConcurrentReconciles = 1\<rparr>) m)"

definition AlcubCon_probe :: "Mgr \<Rightarrow> error + Mgr" where
  "AlcubCon_probe mgr = builder_Complete (alcubv1beta1 ''CsiAlcub'') mgr"

definition Node_probe :: "Mgr \<Rightarrow> error + Mgr" where
  "Node_probe mgr = builder_Complete (corev1 ''Node'') mgr"

section \<open>Start\<close>

definition waitForCache :: "Mgr \<Rightarrow> Mgr" where
  "waitForCache m = (if mgr_started m then m else (startRunnable StartCache m)\<lparr>mgr_started := True\<rparr>)"

definition startNonLeaderElectionRunnables :: "Mgr \<Rightarrow> Mgr" where
  "startNonLeaderElectionRunnables m =
     (let m1 = waitForCache m in fold startRunnable (nonLeaderElectionRunnables m1) m1)\<lparr>startedOthers := True\<rparr>"

definition startLeaderElectionRunnables :: "Mgr \<Rightarrow> Mgr" where
  "startLeaderElectionRunnables m =
     (let m1 = waitForCache m in fold startRunnable (leaderElectionRunnables m1) m1)\<lparr>startedLeader := True\<rparr>"

text \<open>\<open>serveMetrics\<close> starts the server of the metrics as a runnable; it takes no lock and does not ask
  for the election.\<close>

definition serveMetrics :: "Mgr \<Rightarrow> Mgr" where
  "serveMetrics m = (startRunnable ServesMetrics m)\<lparr>startedMetrics := True\<rparr>"

text \<open>The goroutines of \<open>Start\<close> until it returns; only that of the metrics may still start afterwards. \<open>won\<close> is \<open>OnStartedLeading\<close>, or having no
  lock; \<open>lost\<close> is \<open>OnStoppedLeading\<close>, which also comes when the election was never won.\<close>

inductive mgr_step :: "Mgr \<Rightarrow> Mgr \<Rightarrow> bool" where
  metrics: "metricsListener m \<noteq> None \<Longrightarrow> \<not> startedMetrics m \<Longrightarrow> mgr_step m (serveMetrics m)"
| others: "returned m = None \<Longrightarrow> \<not> startedOthers m \<Longrightarrow> mgr_step m (startNonLeaderElectionRunnables m)"
| won: "returned m = None \<Longrightarrow> \<not> elected m \<Longrightarrow> mgr_step m (m\<lparr>elected := True\<rparr>)"
| leader: "returned m = None \<Longrightarrow> elected m \<Longrightarrow> \<not> startedLeader m \<Longrightarrow> mgr_step m (startLeaderElectionRunnables m)"
| lost: "returned m = None \<Longrightarrow> resourceLock m \<Longrightarrow> mgr_step m (m\<lparr>returned := Some (Some (Errorf ''leader election lost'' []))\<rparr>)"
| failed: "returned m = None \<Longrightarrow> r \<in> set (running m) \<Longrightarrow> mgr_step m (m\<lparr>stopProcedureEngaged := True, returned := Some (Some e)\<rparr>)"
| stop: "returned m = None \<Longrightarrow> mgr_step m (m\<lparr>stopProcedureEngaged := True, returned := Some None\<rparr>)"

inductive_cases mgr_stepE: "mgr_step m m'"

section \<open>What runs\<close>

lemma start_all: "fold startRunnable rs m = m\<lparr>running := running m @ rs\<rparr>"
  by (induction rs arbitrary: m) (simp_all add: startRunnable_def)

lemmas start_defs = serveMetrics_def startNonLeaderElectionRunnables_def startLeaderElectionRunnables_def waitForCache_def start_all
  startRunnable_def Let_def

text \<open>What has been started, in any order of the two lists: first the cache, then each list at most once,
  the one that needs the election only after it. The server of the metrics is started at most once, and
  only if there is a listener for it, at any time.\<close>

definition started_parts :: "Mgr \<Rightarrow> runnable list set" where
  "started_parts m =
     (let o' = (if startedOthers m then nonLeaderElectionRunnables m else []);
          l = (if startedLeader m then leaderElectionRunnables m else [])
      in if mgr_started m then {StartCache # o' @ l, StartCache # l @ o'} else {[]})"

definition mgr_inv :: "Mgr \<Rightarrow> bool" where
  "mgr_inv m \<longleftrightarrow> (startedLeader m \<longrightarrow> elected m) \<and> (startedOthers m \<or> startedLeader m \<longleftrightarrow> mgr_started m)
     \<and> ServesMetrics \<notin> set (leaderElectionRunnables m) \<union> set (nonLeaderElectionRunnables m)
     \<and> filter (\<lambda>r. r \<noteq> ServesMetrics) (running m) \<in> started_parts m
     \<and> filter (\<lambda>r. r = ServesMetrics) (running m) = (if startedMetrics m then [ServesMetrics] else [])
     \<and> (startedMetrics m \<longrightarrow> metricsListener m \<noteq> None)"

lemma not_metrics: "ServesMetrics \<notin> set rs \<Longrightarrow> filter (\<lambda>r. r \<noteq> ServesMetrics) rs = rs \<and> filter (\<lambda>r. r = ServesMetrics) rs = []"
  by (auto intro: filter_True simp: filter_empty_conv)

lemma mgr_step_inv: "mgr_step m m' \<Longrightarrow> mgr_inv m \<Longrightarrow> mgr_inv m'"
  by (erule mgr_stepE) (auto simp: mgr_inv_def started_parts_def start_defs not_metrics split: if_splits)

interpretation mgr: preserved mgr_step mgr_inv
  by unfold_locales (rule mgr_step_inv)

lemma mgr_step_frame:
  assumes "mgr_step m m'"
  shows "leaderElectionRunnables m' = leaderElectionRunnables m \<and> nonLeaderElectionRunnables m' = nonLeaderElectionRunnables m
    \<and> resourceLock m' = resourceLock m \<and> metricsListener m' = metricsListener m"
  using assms by cases (auto simp: start_defs)

lemma mgr_run_frame:
  assumes "mgr_step\<^sup>*\<^sup>* m m'"
  shows "leaderElectionRunnables m' = leaderElectionRunnables m \<and> nonLeaderElectionRunnables m' = nonLeaderElectionRunnables m
    \<and> resourceLock m' = resourceLock m \<and> metricsListener m' = metricsListener m"
  using assms by (induction rule: rtranclp_induct) (auto dest: mgr_step_frame)

end
