(* ===== verification/Flags.thy ===== *)
theory Flags
  imports Store
begin

text \<open>
  \<open>cmd/commands/config.go\<close> and \<open>cmd/main.go\<close>: the flags of the commands and the
  command tree. The package variables of \<open>config.go\<close> are the record \<open>flags\<close>; a
  pointer to one of them is a value of \<open>flag_var\<close>. A set of flags is the list of its
  definitions in the order of their registration, as in the vendored \<open>pflag\<close>: defining a flag
  writes its default through the pointer and panics when the name is taken. Splitting the command line
  into names and values is cobra's; it hands each pair to \<open>Set\<close>.

  The facts: building the command tree never panics and leaves every variable at its default, whatever
  it was; parsing gives every variable its last value on the command line or its default, and refuses
  unknown flags.
\<close>

section \<open>config.go: variables\<close>

record labelkv =
  filterkv :: string
  hakv :: string
  csilabelkv :: string

record leaderInfo =
  leader_Id :: string
  enable :: bool

record flags =
  storeConf :: AlcubConf
  fl_nodename :: string
  leader :: leaderInfo
  fl_labels :: labelkv
  alcubconntimeout :: int64
  drivername :: string
  endpoint :: string
  storageIfName :: string

datatype flag_var = V_ApiUrl | V_User | V_Password | V_AlucbPool | V_alcubconntimeout | V_leader_Id | V_leader_enable
  | V_filterkv | V_hakv | V_csilabelkv | V_nodename | V_endpoint | V_drivername | V_storageIfName

datatype flag_val = FStr string | FBool bool | FDur int64

text \<open>Reading and writing a variable through a pointer to it.\<close>

fun get_var :: "flag_var \<Rightarrow> flags \<Rightarrow> flag_val" where
  "get_var V_ApiUrl f = FStr (ApiUrl (storeConf f))"
| "get_var V_User f = FStr (User (storeConf f))"
| "get_var V_Password f = FStr (Password (storeConf f))"
| "get_var V_AlucbPool f = FStr (AlucbPool (storeConf f))"
| "get_var V_alcubconntimeout f = FDur (alcubconntimeout f)"
| "get_var V_leader_Id f = FStr (leader_Id (leader f))"
| "get_var V_leader_enable f = FBool (enable (leader f))"
| "get_var V_filterkv f = FStr (filterkv (fl_labels f))"
| "get_var V_hakv f = FStr (hakv (fl_labels f))"
| "get_var V_csilabelkv f = FStr (csilabelkv (fl_labels f))"
| "get_var V_nodename f = FStr (fl_nodename f)"
| "get_var V_endpoint f = FStr (endpoint f)"
| "get_var V_drivername f = FStr (drivername f)"
| "get_var V_storageIfName f = FStr (storageIfName f)"

fun set_var :: "flag_var \<Rightarrow> flag_val \<Rightarrow> flags \<Rightarrow> flags" where
  "set_var V_ApiUrl (FStr s) f = f\<lparr>storeConf := (storeConf f)\<lparr>ApiUrl := s\<rparr>\<rparr>"
| "set_var V_User (FStr s) f = f\<lparr>storeConf := (storeConf f)\<lparr>User := s\<rparr>\<rparr>"
| "set_var V_Password (FStr s) f = f\<lparr>storeConf := (storeConf f)\<lparr>Password := s\<rparr>\<rparr>"
| "set_var V_AlucbPool (FStr s) f = f\<lparr>storeConf := (storeConf f)\<lparr>AlucbPool := s\<rparr>\<rparr>"
| "set_var V_alcubconntimeout (FDur d) f = f\<lparr>alcubconntimeout := d\<rparr>"
| "set_var V_leader_Id (FStr s) f = f\<lparr>leader := (leader f)\<lparr>leader_Id := s\<rparr>\<rparr>"
| "set_var V_leader_enable (FBool b) f = f\<lparr>leader := (leader f)\<lparr>enable := b\<rparr>\<rparr>"
| "set_var V_filterkv (FStr s) f = f\<lparr>fl_labels := (fl_labels f)\<lparr>filterkv := s\<rparr>\<rparr>"
| "set_var V_hakv (FStr s) f = f\<lparr>fl_labels := (fl_labels f)\<lparr>hakv := s\<rparr>\<rparr>"
| "set_var V_csilabelkv (FStr s) f = f\<lparr>fl_labels := (fl_labels f)\<lparr>csilabelkv := s\<rparr>\<rparr>"
| "set_var V_nodename (FStr s) f = f\<lparr>fl_nodename := s\<rparr>"
| "set_var V_endpoint (FStr s) f = f\<lparr>endpoint := s\<rparr>"
| "set_var V_drivername (FStr s) f = f\<lparr>drivername := s\<rparr>"
| "set_var V_storageIfName (FStr s) f = f\<lparr>storageIfName := s\<rparr>"
| "set_var _ _ f = f"

section \<open>Sets of flags\<close>

record flag =
  flag_Name :: string
  flag_Value :: flag_var
  flag_Usage :: string
  flag_DefValue :: flag_val

type_synonym FlagSet = "flag list"

definition AddFlag :: "flag \<Rightarrow> FlagSet \<Rightarrow> error + FlagSet" where
  "AddFlag fl fs =
     (if flag_Name fl \<in> set (map flag_Name fs) then Inl (GoPanic (''flag redefined: '' @ flag_Name fl))
      else Inr (fs @ [fl]))"

text \<open>\<open>StringVar\<close>, \<open>BoolVar\<close> and \<open>DurationVar\<close>: the default is written through the
  pointer, then the flag is added.\<close>

definition flag_Var :: "flag_var \<Rightarrow> string \<Rightarrow> flag_val \<Rightarrow> string \<Rightarrow> FlagSet \<times> flags \<Rightarrow> error + FlagSet \<times> flags" where
  "flag_Var p name v usage = (\<lambda>(fs, f).
     case AddFlag \<lparr>flag_Name = name, flag_Value = p, flag_Usage = usage, flag_DefValue = v\<rparr> fs of
       Inl e \<Rightarrow> Inl e | Inr fs1 \<Rightarrow> Inr (fs1, set_var p v f))"

section \<open>config.go: flags\<close>

text \<open>Nanoseconds.\<close>

definition Minute :: int64 where
  "Minute = 60000000000"

definition ApplyStore :: "FlagSet \<times> flags \<Rightarrow> error + FlagSet \<times> flags" where
  "ApplyStore = in_sequence [
     flag_Var V_ApiUrl ''alcub-api-url'' (FStr []) ''alcub api url'',
     flag_Var V_User ''alcub-user'' (FStr []) ''alucb username'',
     flag_Var V_Password ''alcub-password'' (FStr []) ''alcub password'',
     flag_Var V_AlucbPool ''alcub-pool-name'' (FStr []) ''alcub pool name'',
     flag_Var V_alcubconntimeout ''alcub-conn-timeout'' (FDur (5 * Minute)) ''alcub pool name'']"

definition ApplyLeaderConf :: "FlagSet \<times> flags \<Rightarrow> error + FlagSet \<times> flags" where
  "ApplyLeaderConf = in_sequence [
     flag_Var V_leader_Id ''leader-id'' (FStr []) ''leader electore id'',
     flag_Var V_leader_enable ''leader-elect'' (FBool False) ''leader enable'']"

definition ApplyLabels :: "FlagSet \<times> flags \<Rightarrow> error + FlagSet \<times> flags" where
  "ApplyLabels = in_sequence [
     flag_Var V_filterkv ''filter-label'' (FStr []) ''filter key-value, support template, now %N replaced by nodename,example: csi-alcub=enable '',
     flag_Var V_hakv ''ha-maintain-label'' (FStr []) ''when exist, node will not add csi maintain label!,example: hamaintain=enable '',
     flag_Var V_csilabelkv ''csi-label'' (FStr []) ''when filter key-value exist, csi-label key-value will added on node,example: csi-alcub=enable '']"

definition ApplyNode :: "FlagSet \<times> flags \<Rightarrow> error + FlagSet \<times> flags" where
  "ApplyNode = in_sequence [flag_Var V_nodename ''node-name'' (FStr []) ''node name'']"

definition ApplyCsiInfo :: "FlagSet \<times> flags \<Rightarrow> error + FlagSet \<times> flags" where
  "ApplyCsiInfo = in_sequence [
     flag_Var V_endpoint ''endpoint'' (FStr []) ''unix socket file path, should start unix://'',
     flag_Var V_drivername ''driver-name'' (FStr ''alcub.csi.es.io'') ''node name'']"

definition ApplyStorageIfName :: "FlagSet \<times> flags \<Rightarrow> error + FlagSet \<times> flags" where
  "ApplyStorageIfName = in_sequence [flag_Var V_storageIfName ''storage-if-name'' (FStr []) ''storage net interface name'']"

section \<open>The commands\<close>

text \<open>The flags part of \<open>NewControllerCmd\<close> and \<open>NewNodeCmd\<close>; what the commands run is in
  the theory \<open>Commands\<close>.\<close>

record Command =
  Use :: string
  PersistentFlags :: FlagSet

definition NewControllerCmd :: "flags \<Rightarrow> error + Command \<times> flags" where
  "NewControllerCmd f =
     (case in_sequence [ApplyStore, ApplyLabels, ApplyNode, ApplyLeaderConf, ApplyCsiInfo] ([], f) of
        Inl e \<Rightarrow> Inl e | Inr (fs, f1) \<Rightarrow> Inr (\<lparr>Use = ''controller'', PersistentFlags = fs\<rparr>, f1))"

definition NewNodeCmd :: "flags \<Rightarrow> error + Command \<times> flags" where
  "NewNodeCmd f =
     (case in_sequence [ApplyStore, ApplyNode, ApplyCsiInfo, ApplyStorageIfName] ([], f) of
        Inl e \<Rightarrow> Inl e | Inr (fs, f1) \<Rightarrow> Inr (\<lparr>Use = ''node'', PersistentFlags = fs\<rparr>, f1))"

text \<open>\<open>rootCmd\<close>: the tree, without the flags of the log library.\<close>

definition rootCmd :: "flags \<Rightarrow> error + (string \<times> Command list) \<times> flags" where
  "rootCmd f = (case NewControllerCmd f of
     Inl e \<Rightarrow> Inl e
   | Inr (ctl, f1) \<Rightarrow> (case NewNodeCmd f1 of
       Inl e \<Rightarrow> Inl e
     | Inr (node, f2) \<Rightarrow> Inr ((''hyper'', [ctl, node]), f2)))"

section \<open>Parsing\<close>

text \<open>\<open>strconv.ParseBool\<close>.\<close>

definition ParseBool :: "string \<Rightarrow> bool option" where
  "ParseBool s =
     (if s \<in> set [''1'', ''t'', ''T'', ''TRUE'', ''true'', ''True''] then Some True
      else if s \<in> set [''0'', ''f'', ''F'', ''FALSE'', ''false'', ''False''] then Some False
      else None)"

text \<open>What the text of an argument gives for a flag of the kind of a default; \<open>ParseDuration\<close> is an
  argument.\<close>

fun parse_val :: "(string \<Rightarrow> int64 option) \<Rightarrow> flag_val \<Rightarrow> string \<Rightarrow> flag_val option" where
  "parse_val pd (FStr _) s = Some (FStr s)"
| "parse_val pd (FBool _) s = map_option FBool (ParseBool s)"
| "parse_val pd (FDur _) s = map_option FDur (pd s)"

definition flag_Set :: "(string \<Rightarrow> int64 option) \<Rightarrow> FlagSet \<Rightarrow> string \<Rightarrow> string \<Rightarrow> flags \<Rightarrow> error + flags" where
  "flag_Set pd fs name value f = (case find (\<lambda>fl. flag_Name fl = name) fs of
     None \<Rightarrow> Inl (Errorf ''no such flag -%v'' [AStr name])
   | Some fl \<Rightarrow> (case parse_val pd (flag_DefValue fl) value of
       None \<Rightarrow> Inl (Errorf ''invalid argument %q for %q flag: %v'' [AStr value, AStr name])
     | Some v \<Rightarrow> Inr (set_var (flag_Value fl) v f)))"

definition ParseFlags :: "(string \<Rightarrow> int64 option) \<Rightarrow> FlagSet \<Rightarrow> (string \<times> string) list \<Rightarrow> flags \<Rightarrow> error + flags" where
  "ParseFlags pd fs args f = in_sequence (map (\<lambda>(n, v). flag_Set pd fs n v) args) f"

text \<open>\<open>main\<close>: building the tree, choosing the command and parsing its flags; the left value is an
  exit with a message (a panic of the construction, an unknown command or a bad flag).\<close>

definition parse_command ::
    "(string \<Rightarrow> int64 option) \<Rightarrow> string \<Rightarrow> (string \<times> string) list \<Rightarrow> flags \<Rightarrow> error + string \<times> flags" where
  "parse_command pd cmd args f = (case rootCmd f of
     Inl e \<Rightarrow> Inl e
   | Inr ((_, cmds), f1) \<Rightarrow> (case find (\<lambda>c. Use c = cmd) cmds of
       None \<Rightarrow> Inl (Errorf ''unknown command %q for %q'' [AStr cmd, AStr ''hyper''])
     | Some c \<Rightarrow> (case ParseFlags pd (PersistentFlags c) args f1 of
         Inl e \<Rightarrow> Inl e | Inr f2 \<Rightarrow> Inr (cmd, f2))))"


section \<open>The variables\<close>

text \<open>A value of the variable's kind.\<close>

fun fits :: "flag_var \<Rightarrow> flag_val \<Rightarrow> bool" where
  "fits V_alcubconntimeout v = (\<exists>d. v = FDur d)"
| "fits V_leader_enable v = (\<exists>b. v = FBool b)"
| "fits _ v = (\<exists>s. v = FStr s)"

lemma get_set_same: "fits p v \<Longrightarrow> get_var p (set_var p v f) = v"
  by (cases p) auto

lemma get_set_other: "q \<noteq> p \<Longrightarrow> get_var q (set_var p v f) = get_var q f"
  by (cases p; cases v; cases q) simp_all

lemma parse_fits: "fits p v \<Longrightarrow> parse_val pd v s = Some x \<Longrightarrow> fits p x"
  by (cases p) auto

section \<open>Building the commands\<close>

definition default_flags :: flags where
  "default_flags = \<lparr>storeConf = \<lparr>AlucbPool = [], ApiUrl = [], User = [], Password = []\<rparr>, fl_nodename = [],
     leader = \<lparr>leader_Id = [], enable = False\<rparr>, fl_labels = \<lparr>filterkv = [], hakv = [], csilabelkv = []\<rparr>,
     alcubconntimeout = 5 * Minute, drivername = ''alcub.csi.es.io'', endpoint = [], storageIfName = []\<rparr>"

lemmas apply_defs = ApplyStore_def ApplyLabels_def ApplyNode_def ApplyLeaderConf_def ApplyCsiInfo_def
  ApplyStorageIfName_def flag_Var_def AddFlag_def

lemma NewControllerCmd_ok:
  "\<exists>c f1. NewControllerCmd f = Inr (c, f1) \<and> Use c = ''controller''
     \<and> distinct (map flag_Name (PersistentFlags c)) \<and> distinct (map flag_Value (PersistentFlags c))
     \<and> (\<forall>fl \<in> set (PersistentFlags c). fits (flag_Value fl) (flag_DefValue fl))
     \<and> f1 = default_flags\<lparr>storageIfName := storageIfName f\<rparr>"
  by (cases f) (auto simp: NewControllerCmd_def apply_defs default_flags_def)

lemma NewNodeCmd_ok:
  "\<exists>c f1. NewNodeCmd f = Inr (c, f1) \<and> Use c = ''node''
     \<and> distinct (map flag_Name (PersistentFlags c)) \<and> distinct (map flag_Value (PersistentFlags c))
     \<and> (\<forall>fl \<in> set (PersistentFlags c). fits (flag_Value fl) (flag_DefValue fl))
     \<and> f1 = default_flags\<lparr>leader := leader f, fl_labels := fl_labels f\<rparr>"
  by (cases f) (simp add: NewNodeCmd_def apply_defs default_flags_def)


definition good_flags :: "FlagSet \<Rightarrow> bool" where
  "good_flags fs \<longleftrightarrow> distinct (map flag_Name fs) \<and> distinct (map flag_Value fs)
     \<and> (\<forall>fl \<in> set fs. fits (flag_Value fl) (flag_DefValue fl))"

lemma rootCmd_ok:
  obtains ctl node where "rootCmd f = Inr ((''hyper'', [ctl, node]), default_flags)" "Use ctl = ''controller''"
    "Use node = ''node''" "good_flags (PersistentFlags ctl)" "good_flags (PersistentFlags node)"
proof -
  obtain ctl f1 where c: "NewControllerCmd f = Inr (ctl, f1)" "Use ctl = ''controller''" "good_flags (PersistentFlags ctl)"
    "f1 = default_flags\<lparr>storageIfName := storageIfName f\<rparr>"
    using NewControllerCmd_ok [of f] unfolding good_flags_def by blast
  obtain node f2 where n: "NewNodeCmd f1 = Inr (node, f2)" "Use node = ''node''" "good_flags (PersistentFlags node)"
    "f2 = default_flags\<lparr>leader := leader f1, fl_labels := fl_labels f1\<rparr>"
    using NewNodeCmd_ok [of f1] unfolding good_flags_def by blast
  have "f2 = default_flags" using c(4) n(4) by (simp add: default_flags_def)
  with c n that show thesis by (simp add: rootCmd_def)
qed

text \<open>Every flag of the two commands has its default in the default variables.\<close>

lemma default_values:
  assumes "rootCmd f = Inr ((h, cmds), f1)" "c \<in> set cmds" "fl \<in> set (PersistentFlags c)"
  shows "get_var (flag_Value fl) default_flags = flag_DefValue fl"
  using assms
  by (cases f) (auto simp: rootCmd_def NewControllerCmd_def NewNodeCmd_def apply_defs default_flags_def)

lemma find_flag: "good_flags fs \<Longrightarrow> fl \<in> set fs \<Longrightarrow> find (\<lambda>x. flag_Name x = flag_Name fl) fs = Some fl"
  unfolding good_flags_def by (induction fs) auto

lemma Set_value:
  assumes "flag_Set pd fs n v f = Inr f'" "good_flags fs" "fl \<in> set fs"
  shows "get_var (flag_Value fl) f' = (if flag_Name fl = n then the (parse_val pd (flag_DefValue fl) v) else get_var (flag_Value fl) f)"
proof -
  obtain x y where x: "find (\<lambda>x. flag_Name x = n) fs = Some x" "parse_val pd (flag_DefValue x) v = Some y"
    "f' = set_var (flag_Value x) y f"
    using assms(1) by (auto simp: flag_Set_def split: option.splits)
  have m: "x \<in> set fs" "flag_Name x = n" using x(1) by (auto simp: find_Some_iff)
  have ft: "fits (flag_Value x) y" using parse_fits x(2) m(1) assms(2) by (auto simp: good_flags_def)
  show ?thesis
  proof (cases "x = fl")
    case True
    with m x get_set_same [OF ft] show ?thesis by simp
  next
    case False
    then have "flag_Name x \<noteq> flag_Name fl" "flag_Value x \<noteq> flag_Value fl"
      using m(1) assms(2,3) unfolding good_flags_def distinct_map inj_on_def by blast+
    with m x(3) show ?thesis by (simp add: get_set_other)
  qed
qed

lemma ParseFlags_values:
  assumes "ParseFlags pd fs args f = Inr f'" "good_flags fs" "fl \<in> set fs"
  shows "get_var (flag_Value fl) f' = (case map_of (rev args) (flag_Name fl) of
     None \<Rightarrow> get_var (flag_Value fl) f | Some s \<Rightarrow> the (parse_val pd (flag_DefValue fl) s))"
  using assms
proof (induction args arbitrary: f' rule: rev_induct)
  case (snoc a args)
  obtain n v where a: "a = (n, v)" by (cases a)
  with snoc.prems(1) obtain f1 where f1: "ParseFlags pd fs args f = Inr f1" "flag_Set pd fs n v f1 = Inr f'"
    by (auto simp: ParseFlags_def in_sequence_append split: sum.splits)
  show ?case using snoc.IH [OF f1(1) assms(2,3)] Set_value [OF f1(2) assms(2,3)] a by (auto split: option.splits)
qed (simp add: ParseFlags_def)

lemma ParseFlags_known:
  "ParseFlags pd fs args f = Inr f' \<Longrightarrow> fst ` set args \<subseteq> flag_Name ` set fs"
proof (induction args arbitrary: f)
  case (Cons a args)
  obtain n v where a: "a = (n, v)" by (cases a)
  with Cons.prems obtain f1 where f1: "flag_Set pd fs n v f = Inr f1" "ParseFlags pd fs args f1 = Inr f'"
    by (auto simp: ParseFlags_def split: sum.splits)
  from f1(1) have "n \<in> flag_Name ` set fs" by (auto simp: flag_Set_def find_Some_iff split: option.splits)
  with Cons.IH [OF f1(2)] a show ?case by auto
qed (simp add: ParseFlags_def)

section \<open>Properties\<close>

text \<open>The command tree is built without a panic from any initial state, its two commands are the
  controller and the node, each with flags of distinct names, and all variables then hold the
  defaults.\<close>

theorem commands_built:
  "\<exists>ctl node. rootCmd f = Inr ((''hyper'', [ctl, node]), default_flags) \<and> Use ctl = ''controller'' \<and> Use node = ''node''
     \<and> distinct (map flag_Name (PersistentFlags ctl)) \<and> distinct (map flag_Name (PersistentFlags node))"
  by (rule rootCmd_ok [of f]) (auto simp: good_flags_def)

text \<open>After a command line was accepted every flag of its command has the value of its last occurrence,
  or its default when it does not occur; every argument names a flag of the command; and the command is
  one of the two.\<close>

theorem flags_parsed:
  assumes "parse_command pd cmd args f = Inr (cmd', f')" "rootCmd f = Inr ((h, cmds), f1)"
  shows "cmd' = cmd \<and> (\<exists>c \<in> set cmds. Use c = cmd \<and> fst ` set args \<subseteq> flag_Name ` set (PersistentFlags c)
    \<and> (\<forall>fl \<in> set (PersistentFlags c). get_var (flag_Value fl) f' = (case map_of (rev args) (flag_Name fl) of
         None \<Rightarrow> flag_DefValue fl | Some s \<Rightarrow> the (parse_val pd (flag_DefValue fl) s))))"
proof -
  have g: "f1 = default_flags" "\<And>c. c \<in> set cmds \<Longrightarrow> good_flags (PersistentFlags c)"
    using assms(2) by (rule_tac rootCmd_ok [of f]; auto)+
  obtain c where c: "find (\<lambda>c. Use c = cmd) cmds = Some c" "ParseFlags pd (PersistentFlags c) args default_flags = Inr f'" "cmd' = cmd"
    using assms g(1) by (auto simp: parse_command_def split: option.splits sum.splits)
  then have m: "c \<in> set cmds" "Use c = cmd" by (auto simp: find_Some_iff)
  have "get_var (flag_Value fl) f' = (case map_of (rev args) (flag_Name fl) of
         None \<Rightarrow> flag_DefValue fl | Some s \<Rightarrow> the (parse_val pd (flag_DefValue fl) s))" if "fl \<in> set (PersistentFlags c)" for fl
    using ParseFlags_values [OF c(2) g(2) [OF m(1)] that] default_values [OF assms(2) m(1) that]
    by (simp split: option.splits)
  with m c(3) ParseFlags_known [OF c(2)] show ?thesis by blast
qed


section \<open>Witness\<close>

definition demo_args :: "(string \<times> string) list" where
  "demo_args = [(''endpoint'', ''tcp://:1''), (''node-name'', ''node-1''), (''endpoint'', ''unix:///csi.sock'')]"

theorem flags_parsed_witness:
  "\<exists>f'. parse_command (\<lambda>_. None) ''node'' demo_args default_flags = Inr (''node'', f') \<and> endpoint f' = ''unix:///csi.sock''
     \<and> fl_nodename f' = ''node-1'' \<and> drivername f' = ''alcub.csi.es.io''"
proof -
  obtain ctl node where r: "rootCmd default_flags = Inr ((''hyper'', [ctl, node]), default_flags)"
    "Use ctl = ''controller''" "Use node = ''node''" by (rule rootCmd_ok)
  have "\<exists>c f'. parse_command (\<lambda>_. None) ''node'' demo_args default_flags = Inr (c, f')"
    and fs: "\<exists>fl \<in> set (PersistentFlags node). flag_Name fl = ''endpoint'' \<and> flag_Value fl = V_endpoint \<and> flag_DefValue fl = FStr []"
      "\<exists>fl \<in> set (PersistentFlags node). flag_Name fl = ''node-name'' \<and> flag_Value fl = V_nodename \<and> flag_DefValue fl = FStr []"
      "\<exists>fl \<in> set (PersistentFlags node). flag_Name fl = ''driver-name'' \<and> flag_Value fl = V_drivername \<and> flag_DefValue fl = FStr ''alcub.csi.es.io''"
    using r(1)
    by (auto simp: parse_command_def rootCmd_def NewControllerCmd_def NewNodeCmd_def apply_defs demo_args_def ParseFlags_def
        flag_Set_def)
  then obtain c f' where p: "parse_command (\<lambda>_. None) ''node'' demo_args default_flags = Inr (c, f')" by blast
  from flags_parsed [OF p r(1)] r(2,3) have "c = ''node''" and v: "\<forall>fl \<in> set (PersistentFlags node).
      get_var (flag_Value fl) f' = (case map_of (rev demo_args) (flag_Name fl) of
         None \<Rightarrow> flag_DefValue fl | Some s \<Rightarrow> the (parse_val (\<lambda>_. None) (flag_DefValue fl) s))" by auto
  with p v fs show ?thesis by (fastforce simp: demo_args_def)
qed

end
