(* ===== verification/Commands.thy ===== *)
theory Commands
  imports NodeRpc Runtime Flags
begin

text \<open>
  \<open>pkg/server/identity.go\<close> and \<open>cmd/commands\<close>: the identity service and how the two
  processes, the controller and the node, are put together from the command line. A process that does
  not start is the error on the left, also where Go exits or panics; a process that starts is the
  components it consists of and the manager of \<open>Runtime\<close> that is about to run them.

  The facts: the driver information answers with the driver name exactly when one is configured; the
  controller starts exactly when it has an API path and a well-formed label, and its node manager then
  satisfies what the label controller needs; a node process that starts from a command line is the node,
  on the endpoint and under the driver name that the command line gives; a controller with leader election
  runs nothing but its cache before it is elected, and a node needs no election.
\<close>

section \<open>identity.go\<close>

datatype plugin_cap = VOLUME_ACCESSIBILITY_CONSTRAINTS | CONTROLLER_SERVICE

record IdentityServer =
  id_caps :: "plugin_cap option list"
  id_name :: string
  id_version :: string

definition version :: string where
  "version = ''1.0.0''"

definition ConstraCapability :: plugin_cap where
  "ConstraCapability = VOLUME_ACCESSIBILITY_CONSTRAINTS"

definition ControllerCapability :: plugin_cap where
  "ControllerCapability = CONTROLLER_SERVICE"

text \<open>The slice is made with nil pointers and filled by index.\<close>

fun fill_caps :: "nat \<Rightarrow> plugin_cap list \<Rightarrow> plugin_cap option list \<Rightarrow> plugin_cap option list" where
  "fill_caps i [] ics = ics"
| "fill_caps i (v # vs) ics = fill_caps (Suc i) vs (ics[i := Some v])"

definition NewIdenty :: "string \<Rightarrow> plugin_cap list \<Rightarrow> error + IdentityServer" where
  "NewIdenty driver caps =
     (if length caps = 0 then Inl (Errorf ''Capability must have one at least'' [])
      else Inr \<lparr>id_caps = fill_caps 0 caps (replicate (length caps) None), id_name = driver, id_version = version\<rparr>)"

definition GetPluginInfo :: "IdentityServer \<Rightarrow> error + string \<times> string" where
  "GetPluginInfo c =
     (if id_name c = [] then Inl (status_Error Unavailable ''Driver name not configured'' [])
      else if id_version c = [] then Inl (status_Error Unavailable ''Driver is missing version'' [])
      else Inr (id_name c, id_version c))"

definition GetPluginCapabilities :: "IdentityServer \<Rightarrow> plugin_cap option list" where
  "GetPluginCapabilities c = id_caps c"

definition Probe :: "error option" where
  "Probe = None"

section \<open>config.go\<close>

definition splitLabel :: "string \<Rightarrow> gomap" where
  "splitLabel s =
     (let ss = str_split (CHR ''='') s in
      if length ss \<noteq> 2 then None else Some [(ss ! 0, ss ! 1)])"

section \<open>csicontrol.go\<close>

fun last_pair :: "(string \<times> string) list \<Rightarrow> string \<times> string \<Rightarrow> string \<times> string" where
  "last_pair [] acc = acc"
| "last_pair ((k, v) # kvs) acc = last_pair kvs (k, v)"

text \<open>The constructors that hand their reconcilers to the manager; the first one panics when it cannot.\<close>

definition AlcubCon_New :: "Mgr \<Rightarrow> error + AlcubCon \<times> Mgr" where
  "AlcubCon_New mgr = (case AlcubCon_probe mgr of
     Inl e \<Rightarrow> Inl (GoPanic ''NewAlcubCon'') | Inr mgr1 \<Rightarrow> Inr (NewAlcubCon, mgr1))"

definition Node_New :: "Mgr \<Rightarrow> string \<Rightarrow> string \<Rightarrow> gomap \<Rightarrow> gomap \<Rightarrow> error + NodeMgr \<times> Mgr" where
  "Node_New mgr fkey fvalue ha csi = (case NodeMgr_New fkey fvalue ha csi of
     Inl e \<Rightarrow> Inl e
   | Inr n \<Rightarrow> (case Node_probe mgr of Inl e \<Rightarrow> Inl e | Inr mgr1 \<Rightarrow> Inr (n, mgr1)))"

definition controller_main ::
    "'w env \<Rightarrow> boot \<Rightarrow> Scheme \<Rightarrow> flags \<Rightarrow> 'w \<Rightarrow> (error + Controller \<times> IdentityServer \<times> Runner \<times> Mgr) \<times> 'w" where
  "controller_main E B sch f w = (case boot_config B of
     Some e \<Rightarrow> (Inl e, w)
   | None \<Rightarrow> (case NewManager B \<lparr>LeaderElection = enable (leader f), LeaderElectionID = leader_Id (leader f), MetricsBindAddress = []\<rparr> sch of
       Inl e \<Rightarrow> (Inl e, w)
     | Inr mgr \<Rightarrow> (case AlcubCon_New mgr of
         Inl e \<Rightarrow> (Inl e, w)
       | Inr (alcubcon, mgr1) \<Rightarrow> (case NewClient E (Some (storeConf f)) None w of
           (Inl e, w1) \<Rightarrow> (Inl e, w1)
         | (Inr s, w1) \<Rightarrow>
             (let hamap = splitLabel (hakv (fl_labels f));
                  csimap = splitLabel (csilabelkv (fl_labels f));
                  (filterkey, filterval) = last_pair (gm_items (splitLabel (filterkv (fl_labels f)))) ([], []);
                  csiController = NewController (fl_nodename f) s alcubcon NewRbd
              in case Node_New mgr1 filterkey filterval hamap csimap of
                   Inl e \<Rightarrow> (Inl e, w1)
                 | Inr (nodemanager, mgr2) \<Rightarrow>
                     (case SetupNode (Some nodemanager) csiController of
                        Inl e \<Rightarrow> (Inl e, w1)
                      | Inr ctl \<Rightarrow>
                          (case NewIdenty (drivername f) [ControllerCapability] of
                             Inl e \<Rightarrow> (Inl e, w1)
                           | Inr ids \<Rightarrow>
                               (let runner = NewRunner True (endpoint f) True True False
                                in case mgr_Add (Serves runner) mgr2 of
                                     Inl e \<Rightarrow> (Inl e, w1)
                                   | Inr mgr3 \<Rightarrow> (Inr (ctl, ids, runner, mgr3), w1)))))))))"

section \<open>csinode.go\<close>

definition node_main ::
    "'w env \<Rightarrow> boot \<Rightarrow> Scheme \<Rightarrow> error + (string \<times> (error + ifaddr list)) list \<Rightarrow> flags \<Rightarrow> 'w
      \<Rightarrow> (error + NodeSrv \<times> IdentityServer \<times> Runner \<times> Mgr) \<times> 'w" where
  "node_main E B sch ifaces f w = (case boot_config B of
     Some e \<Rightarrow> (Inl e, w)
   | None \<Rightarrow> (case NewManager B \<lparr>LeaderElection = False, LeaderElectionID = [], MetricsBindAddress = ''0''\<rparr> sch of
       Inl e \<Rightarrow> (Inl e, w)
     | Inr mgr \<Rightarrow> (case AlcubCon_New mgr of
         Inl e \<Rightarrow> (Inl e, w)
       | Inr (alcubcon, mgr1) \<Rightarrow>
           (let storeDynConf = \<lparr>AlucbUrl = [], Nodename = fl_nodename f\<rparr>
            in case NewClient E (Some (storeConf f)) (Some storeDynConf) w of
                 (Inl e, w1) \<Rightarrow> (Inl e, w1)
               | (Inr s, w1) \<Rightarrow>
                   (case NodeSrv_New ifaces s alcubcon NewRbd (fl_nodename f) (storageIfName f) of
                      Inl e \<Rightarrow> (Inl e, w1)
                    | Inr csiNode \<Rightarrow>
                        (case NewIdenty (drivername f) [ConstraCapability] of
                           Inl e \<Rightarrow> (Inl e, w1)
                         | Inr ids \<Rightarrow>
                             (let runner = NewRunner False (endpoint f) True False True
                              in case mgr_Add (Serves runner) mgr1 of
                                   Inl e \<Rightarrow> (Inl e, w1)
                                 | Inr mgr2 \<Rightarrow> (Inr (csiNode, ids, runner, mgr2), w1))))))))"

section \<open>main.go\<close>

text \<open>What a process consists of, by its command.\<close>

datatype process = ControllerProcess Controller IdentityServer Runner Mgr | NodeProcess NodeSrv IdentityServer Runner Mgr

text \<open>\<open>main\<close>: initialise, build the command tree, parse, run. The left value is the error with which
  the process exits before it serves.\<close>

definition main_cmd ::
    "'w env \<Rightarrow> boot \<Rightarrow> (Scheme \<Rightarrow> error option \<times> Scheme) \<Rightarrow> error + (string \<times> (error + ifaddr list)) list \<Rightarrow> (string \<Rightarrow> int64 option)
      \<Rightarrow> string \<Rightarrow> (string \<times> string) list \<Rightarrow> flags \<Rightarrow> 'w \<Rightarrow> (error + process) \<times> 'w" where
  "main_cmd E B addk8s ifaces pd cmd args f w = (case commands_init addk8s of
     Inl e \<Rightarrow> (Inl e, w)
   | Inr sch \<Rightarrow> (case parse_command pd cmd args f of
       Inl e \<Rightarrow> (Inl e, w)
     | Inr (c, f1) \<Rightarrow>
         if c = ''controller'' then
           (case controller_main E B sch f1 w of
              (Inl e, w1) \<Rightarrow> (Inl e, w1) | (Inr (ctl, ids, run, m), w1) \<Rightarrow> (Inr (ControllerProcess ctl ids run m), w1))
         else
           (case node_main E B sch ifaces f1 w of
              (Inl e, w1) \<Rightarrow> (Inl e, w1) | (Inr (srv, ids, run, m), w1) \<Rightarrow> (Inr (NodeProcess srv ids run m), w1))))"

section \<open>What starts\<close>

lemma fill_caps_eq: "fill_caps (length pre) vs (pre @ replicate (length vs) None) = pre @ map Some vs"
proof (induction vs arbitrary: pre)
  case (Cons v vs)
  have "(pre @ replicate (length (v # vs)) None)[length pre := Some v] = (pre @ [Some v]) @ replicate (length vs) None"
    by (simp add: list_update_append)
  with Cons.IH [of "pre @ [Some v]"] show ?case by simp
qed simp

lemma NewIdenty_caps:
  "caps \<noteq> [] \<Longrightarrow> NewIdenty d caps = Inr \<lparr>id_caps = map Some caps, id_name = d, id_version = ''1.0.0''\<rparr>"
  using fill_caps_eq [of "[]" caps] by (simp add: NewIdenty_def version_def)

lemma splitLabel_iff:
  "splitLabel s = Some m \<longleftrightarrow>
     (\<exists>k v. s = k @ ''='' @ v \<and> CHR ''='' \<notin> set k \<and> CHR ''='' \<notin> set v \<and> m = [(k, v)])"
proof
  assume "splitLabel s = Some m"
  then have len: "length (str_split (CHR ''='') s) = 2" and m: "m = [(str_split (CHR ''='') s ! 0, str_split (CHR ''='') s ! 1)]"
    by (auto simp: splitLabel_def Let_def split: if_splits)
  from len obtain k v where kv: "str_split (CHR ''='') s = [k, v]"
    by (auto simp: numeral_2_eq_2 length_Suc_conv)
  then have "s = k @ ''='' @ v" using Join_split [of "CHR ''=''" s] by simp
  with m kv split_pieces [of _ "CHR ''=''" s]
  show "\<exists>k v. s = k @ ''='' @ v \<and> CHR ''='' \<notin> set k \<and> CHR ''='' \<notin> set v \<and> m = [(k, v)]" by auto
next
  assume "\<exists>k v. s = k @ ''='' @ v \<and> CHR ''='' \<notin> set k \<and> CHR ''='' \<notin> set v \<and> m = [(k, v)]"
  then show "splitLabel s = Some m" by (auto simp: splitLabel_def split_append split_no_sep)
qed

text \<open>The manager at the start, with the types of the program registered.\<close>

definition known_types :: "Scheme \<Rightarrow> bool" where
  "known_types sch \<longleftrightarrow> GVKForObject (alcubv1beta1 ''CsiAlcub'') sch = Inr (gvk ''csialcub.es.io'' ''v1beta1'' ''CsiAlcub'')
     \<and> GVKForObject (corev1 ''Node'') sch = Inr (gvk [] ''v1'' ''Node'')"

lemma known_init: "k8s_registers addk8s \<Longrightarrow> commands_init addk8s = Inr sch \<Longrightarrow> known_types sch"
  using init_registers [of addk8s] by (auto simp: known_types_def)

definition alcub_ctl :: runnable where
  "alcub_ctl = Reconciles \<lparr>ctl_Name = ''csialcub'', ctl_For = gvk ''csialcub.es.io'' ''v1beta1'' ''CsiAlcub'', MaxConcurrentReconciles = 1\<rparr>"

definition node_ctl :: runnable where
  "node_ctl = Reconciles \<lparr>ctl_Name = ''node'', ctl_For = gvk [] ''v1'' ''Node'', MaxConcurrentReconciles = 1\<rparr>"

lemma names_lower: "ToLower ''CsiAlcub'' = ''csialcub''" "ToLower ''Node'' = ''node''"
  by (simp_all add: ToLower_def lower_char_def is_upper_def char_of_def bit_0)

text \<open>A manager nothing has been started on.\<close>

definition idle_mgr :: "Scheme \<Rightarrow> bool \<Rightarrow> string option \<Rightarrow> runnable list \<Rightarrow> runnable list \<Rightarrow> Mgr" where
  "idle_mgr sch lock ln ls os = \<lparr>mgr_scheme = sch, resourceLock = lock, metricsListener = ln, leaderElectionRunnables = ls,
     nonLeaderElectionRunnables = os, mgr_started = False, startedMetrics = False, startedOthers = False, startedLeader = False,
     stopProcedureEngaged = False, elected = False, running = [], returned = None\<rparr>"

lemma Add_idle: "mgr_Add r (idle_mgr sch lock ln ls os) =
   Inr (if needs_leader r then idle_mgr sch lock ln (ls @ [r]) os else idle_mgr sch lock ln ls (os @ [r]))"
  by (simp add: mgr_Add_def idle_mgr_def)

lemma idle_inv: "ServesMetrics \<notin> set ls \<union> set os \<Longrightarrow> mgr_inv (idle_mgr sch lock ln ls os)"
  by (simp add: idle_mgr_def mgr_inv_def started_parts_def)

lemma program_inv:
  "mgr_inv (idle_mgr sch lock ln [alcub_ctl, node_ctl, Serves run] [])" "mgr_inv (idle_mgr sch lock ln [alcub_ctl] [Serves run])"
  by (auto intro!: idle_inv simp: alcub_ctl_def node_ctl_def)

lemma probes_idle:
  assumes "known_types sch"
  shows "AlcubCon_New (idle_mgr sch lock ln ls os) = Inr (NewAlcubCon, idle_mgr sch lock ln (ls @ [alcub_ctl]) os)"
    "Node_probe (idle_mgr sch lock ln ls os) = Inr (idle_mgr sch lock ln (ls @ [node_ctl]) os)"
proof -
  have "mgr_scheme (idle_mgr sch lock ln ls os) = sch" by (simp add: idle_mgr_def)
  with assms show "AlcubCon_New (idle_mgr sch lock ln ls os) = Inr (NewAlcubCon, idle_mgr sch lock ln (ls @ [alcub_ctl]) os)"
    "Node_probe (idle_mgr sch lock ln ls os) = Inr (idle_mgr sch lock ln (ls @ [node_ctl]) os)"
    by (simp_all add: AlcubCon_New_def AlcubCon_probe_def Node_probe_def builder_Complete_def known_types_def names_lower Add_idle
        alcub_ctl_def node_ctl_def)
qed

text \<open>What the outside must provide for a controller: a configuration, the parts of a manager, a lock with a
  name when there is to be an election, and the port of the metrics.\<close>

definition boots :: "boot \<Rightarrow> flags \<Rightarrow> bool" where
  "boots B f \<longleftrightarrow> boot_config B = None \<and> boot_parts B = None \<and> boot_listen B '':8080'' = None
     \<and> (enable (leader f) \<longrightarrow> leader_Id (leader f) \<noteq> [] \<and> boot_lock B = None)"

lemma NewManager_controller:
  assumes "boot_config B = None"
  shows "(\<exists>e. NewManager B \<lparr>LeaderElection = enable (leader f), LeaderElectionID = leader_Id (leader f), MetricsBindAddress = []\<rparr> sch = Inl e)
      \<and> \<not> boots B f
    \<or> NewManager B \<lparr>LeaderElection = enable (leader f), LeaderElectionID = leader_Id (leader f), MetricsBindAddress = []\<rparr> sch
       = Inr (idle_mgr sch (enable (leader f)) (Some '':8080'') [] []) \<and> boots B f"
  using assms by (auto simp: NewManager_def NewResourceLock_def NewListener_def boots_def idle_mgr_def Let_def split: option.splits)

text \<open>Where a controller process ends up.\<close>

lemma controller_main_cases:
  assumes kt: "known_types sch"
  obtains (noboot) "\<not> boots B f" "\<exists>e. controller_main E B sch f w = (Inl e, w)"
    | (api) "ApiUrl (storeConf f) = []" "\<exists>e. controller_main E B sch f w = (Inl e, w)"
    | (label) "splitLabel (csilabelkv (fl_labels f)) = None" "\<exists>e. controller_main E B sch f w = (Inl e, w)"
    | (ok) m where "boots B f" "ApiUrl (storeConf f) \<noteq> []" "splitLabel (csilabelkv (fl_labels f)) = Some m"
        "AlcubCon_New (idle_mgr sch (enable (leader f)) (Some '':8080'') [] [])
           = Inr (NewAlcubCon, idle_mgr sch (enable (leader f)) (Some '':8080'') [alcub_ctl] [])"
        "NewManager B \<lparr>LeaderElection = enable (leader f), LeaderElectionID = leader_Id (leader f), MetricsBindAddress = []\<rparr> sch
           = Inr (idle_mgr sch (enable (leader f)) (Some '':8080'') [] [])"
proof (cases "boot_config B")
  case (Some e)
  then show ?thesis by (intro noboot) (simp_all add: controller_main_def boots_def)
next
  case None
  from NewManager_controller [OF None, of f sch] show ?thesis
  proof (elim disjE conjE exE)
    fix e assume "NewManager B \<lparr>LeaderElection = enable (leader f), LeaderElectionID = leader_Id (leader f), MetricsBindAddress = []\<rparr> sch = Inl e" "\<not> boots B f"
    with None show ?thesis by (intro noboot) (simp_all add: controller_main_def)
  next
    assume m: "NewManager B \<lparr>LeaderElection = enable (leader f), LeaderElectionID = leader_Id (leader f), MetricsBindAddress = []\<rparr> sch
      = Inr (idle_mgr sch (enable (leader f)) (Some '':8080'') [] [])" "boots B f"
    note p = probes_idle(1) [OF kt, of "enable (leader f)" "Some '':8080''" "[]" "[]", simplified]
    show ?thesis
    proof (cases "ApiUrl (storeConf f) = []")
      case True
      with None m p show ?thesis by (intro api) (simp_all add: controller_main_def NewClient_def)
    next
      case False
      show ?thesis
      proof (cases "splitLabel (csilabelkv (fl_labels f))")
        case None
        with m p False \<open>boot_config B = None\<close> show ?thesis
          by (intro label) (simp_all add: controller_main_def NewClient_def Node_New_def NodeMgr_New_def Let_def split: prod.splits)
      next
        case (Some l)
        with m p False show ?thesis by (intro ok) simp_all
      qed
    qed
  qed
qed

text \<open>C35: The controller process starts exactly when the outside provides a configuration, the parts of a
  manager and the port of the metrics, leader election, if asked for, has an identifier and a lock, the API
  path is set and the label option is one key and one value around a single equals sign. It then has called
  nothing of the outside world, offers the identity and controller services, its node manager has exactly
  that label, and its manager is to run, for a leader only, the two reconcilers and the server.\<close>

theorem controller_starts:
  assumes "k8s_registers addk8s" "commands_init addk8s = Inr sch"
  shows "case controller_main E B sch f w of
     (Inr (ctl, ids, run, m), w') \<Rightarrow> w' = w \<and> boots B f \<and> ApiUrl (storeConf f) \<noteq> []
       \<and> (\<exists>k v nm. csilabelkv (fl_labels f) = k @ ''='' @ v \<and> CHR ''='' \<notin> set k \<and> CHR ''='' \<notin> set v
            \<and> c_node ctl = Some nm \<and> csilabel nm = Some [(k, v)])
       \<and> GetPluginCapabilities ids = [Some CONTROLLER_SERVICE]
       \<and> services (run_ids run) (run_cs run) (run_ns run) = [IdentityService, ControllerService]
       \<and> resourceLock m = enable (leader f) \<and> nonLeaderElectionRunnables m = []
       \<and> leaderElectionRunnables m = [alcub_ctl, node_ctl, Serves run]
   | (Inl e, w') \<Rightarrow> w' = w \<and> (\<not> boots B f \<or> ApiUrl (storeConf f) = []
       \<or> \<not> (\<exists>k v. csilabelkv (fl_labels f) = k @ ''='' @ v \<and> CHR ''='' \<notin> set k \<and> CHR ''='' \<notin> set v))"
proof -
  note kt = known_init [OF assms]
  have nolabel: "\<not> (\<exists>k v. csilabelkv (fl_labels f) = k @ ''='' @ v \<and> CHR ''='' \<notin> set k \<and> CHR ''='' \<notin> set v)"
    if "splitLabel (csilabelkv (fl_labels f)) = None"
    using that splitLabel_iff [of "csilabelkv (fl_labels f)"] by (metis option.distinct(1))
  from kt show ?thesis
  proof (cases rule: controller_main_cases [where B = B and E = E and f = f and w = w])
    case (ok m)
    then obtain k v where "csilabelkv (fl_labels f) = k @ ''='' @ v" "CHR ''='' \<notin> set k" "CHR ''='' \<notin> set v" "m = [(k, v)]"
      using splitLabel_iff by blast
    with ok show ?thesis
      by (auto simp: controller_main_def boots_def NewClient_def Let_def Node_New_def NodeMgr_New_def SetupNode_def NewIdenty_caps
          probes_idle(2) [OF kt] Add_idle GetPluginCapabilities_def NewRunner_def NeedLeaderElection_def ControllerCapability_def
          services_def split: prod.splits) (simp_all add: idle_mgr_def)
  qed (use nolabel in auto)
qed

text \<open>The driver answers for its identity exactly when a driver name is configured, with that name
  and the fixed version.\<close>

theorem plugin_info:
  "caps \<noteq> [] \<Longrightarrow> \<exists>ids. NewIdenty d caps = Inr ids \<and> GetPluginCapabilities ids = map Some caps
     \<and> GetPluginInfo ids = (if d = [] then Inl (status_Error Unavailable ''Driver name not configured'' [])
          else Inr (d, ''1.0.0''))"
  by (simp add: NewIdenty_caps GetPluginCapabilities_def GetPluginInfo_def)

section \<open>A node process\<close>

text \<open>The text an option gets from the command line: its last occurrence, or its default.\<close>

definition option_text :: "(string \<times> string) list \<Rightarrow> string \<Rightarrow> string \<Rightarrow> string" where
  "option_text args name dflt = (case map_of (rev args) name of None \<Rightarrow> dflt | Some s \<Rightarrow> s)"

lemma node_flags:
  assumes "rootCmd f = Inr ((h, cmds), f1)" "c \<in> set cmds" "Use c = ''node''"
  shows "\<exists>fl \<in> set (PersistentFlags c). flag_Name fl = ''endpoint'' \<and> flag_Value fl = V_endpoint \<and> flag_DefValue fl = FStr []"
    "\<exists>fl \<in> set (PersistentFlags c). flag_Name fl = ''node-name'' \<and> flag_Value fl = V_nodename \<and> flag_DefValue fl = FStr []"
    "\<exists>fl \<in> set (PersistentFlags c). flag_Name fl = ''driver-name'' \<and> flag_Value fl = V_drivername \<and> flag_DefValue fl = FStr ''alcub.csi.es.io''"
    "\<exists>fl \<in> set (PersistentFlags c). flag_Name fl = ''alcub-api-url'' \<and> flag_Value fl = V_ApiUrl \<and> flag_DefValue fl = FStr []"
  using assms
  by (auto simp: rootCmd_def NewControllerCmd_def NewNodeCmd_def apply_defs)

lemma node_parsed:
  assumes "parse_command pd ''node'' args f = Inr (c, f')"
  shows "c = ''node''" "endpoint f' = option_text args ''endpoint'' []" "fl_nodename f' = option_text args ''node-name'' []"
    "drivername f' = option_text args ''driver-name'' ''alcub.csi.es.io''" "ApiUrl (storeConf f') = option_text args ''alcub-api-url'' []"
proof -
  obtain ctl node where r: "rootCmd f = Inr ((''hyper'', [ctl, node]), default_flags)"
    "Use ctl = ''controller''" "Use node = ''node''" by (rule rootCmd_ok)
  from flags_parsed [OF assms r(1)] r(2,3) show c: "c = ''node''" by blast
  from flags_parsed [OF assms r(1)] r(2,3) have v: "\<forall>fl \<in> set (PersistentFlags node).
      get_var (flag_Value fl) f' = (case map_of (rev args) (flag_Name fl) of
         None \<Rightarrow> flag_DefValue fl | Some s \<Rightarrow> the (parse_val pd (flag_DefValue fl) s))" by auto
  note nf = node_flags [OF r(1) _ r(3), simplified]
  show "endpoint f' = option_text args ''endpoint'' []" using v nf(1) by (fastforce simp: option_text_def split: option.splits)
  show "fl_nodename f' = option_text args ''node-name'' []" using v nf(2) by (fastforce simp: option_text_def split: option.splits)
  show "drivername f' = option_text args ''driver-name'' ''alcub.csi.es.io''" using v nf(3) by (fastforce simp: option_text_def split: option.splits)
  show "ApiUrl (storeConf f') = option_text args ''alcub-api-url'' []" using v nf(4) by (fastforce simp: option_text_def split: option.splits)
qed

lemma NewClient_client:
  assumes "NewClient E (Some cf) (Some d) w = (Inr s, w')"
  shows "conf s = cf" "ApiUrl cf \<noteq> []" "map_option Nodename (dynConf s) = Some (Nodename d)"
  using assms by (auto simp: NewClient_def fillAlcubUrl_def Let_def split: if_splits prod.splits option.splits)

text \<open>C36: A node process that starts from a command line is the node the command line names: the node
  service answers with that name, records it on publishing and asks for the alcubierre server of that
  name; its server listens on the given endpoint, for the identity and node services, on every node and
  not only on a leader; it has a storage address and an API path; and it answers with the driver name.\<close>

theorem node_started:
  assumes "fst (main_cmd E B addk8s ifaces pd ''node'' args f w) = Inr p"
  shows "\<exists>srv ids run m. p = NodeProcess srv ids run m
    \<and> NodeId (NodeGetInfo srv) = option_text args ''node-name'' [] \<and> n_nodename srv = option_text args ''node-name'' []
    \<and> map_option Nodename (dynConf (n_store srv)) = Some (option_text args ''node-name'' [])
    \<and> storeip srv \<noteq> [] \<and> option_text args ''alcub-api-url'' [] \<noteq> [] \<and> n_alcub srv = NewAlcubCon
    \<and> run_endpoint run = option_text args ''endpoint'' [] \<and> services (run_ids run) (run_cs run) (run_ns run) = [IdentityService, NodeService]
    \<and> \<not> NeedLeaderElection run
    \<and> id_name ids = option_text args ''driver-name'' ''alcub.csi.es.io'' \<and> GetPluginCapabilities ids = [Some VOLUME_ACCESSIBILITY_CONSTRAINTS]"
proof -
  obtain c f' where c: "parse_command pd ''node'' args f = Inr (c, f')"
    using assms by (auto simp: main_cmd_def split: sum.splits prod.splits)
  note np = node_parsed [OF c]
  from assms c np(1) obtain sch srv ids run mg w2 where m: "node_main E B sch ifaces f' w = (Inr (srv, ids, run, mg), w2)" "p = NodeProcess srv ids run mg"
    by (auto simp: main_cmd_def split: sum.splits prod.splits)
  then obtain s w1 where s: "NewClient E (Some (storeConf f')) (Some \<lparr>AlucbUrl = [], Nodename = fl_nodename f'\<rparr>) w = (Inr s, w1)"
    "NodeSrv_New ifaces s NewAlcubCon NewRbd (fl_nodename f') (storageIfName f') = Inr srv"
    "NewIdenty (drivername f') [ConstraCapability] = Inr ids" "run = NewRunner False (endpoint f') True False True"
    by (auto simp: node_main_def AlcubCon_New_def Let_def split: sum.splits prod.splits option.splits)
  from NewClient_client [OF s(1)] s m(2) np(2-) show ?thesis
    by (auto simp: NodeSrv_New_def NodeGetInfo_def NewIdenty_caps NewRunner_def NeedLeaderElection_def services_def
        GetPluginCapabilities_def ConstraCapability_def Let_def split: if_splits)
qed

section \<open>What runs when\<close>

lemma controller_mgr:
  assumes "known_types sch" "controller_main E B sch f w = (Inr (ctl, ids, run, m), w')"
  shows "m = idle_mgr sch (enable (leader f)) (Some '':8080'') [alcub_ctl, node_ctl, Serves run] []"
  using assms(1)
proof (cases rule: controller_main_cases [where B = B and E = E and f = f and w = w])
  case (ok l)
  with assms(2) show ?thesis
    by (auto simp: controller_main_def Node_New_def probes_idle(2) [OF assms(1)] Add_idle NewRunner_def NeedLeaderElection_def Let_def
        split: option.splits sum.splits prod.splits)
qed (use assms(2) in auto)

text \<open>C37: A controller process with leader election does nothing before it is elected but keep its cache and
  serve its metrics: whatever happens after the start, as long as it is not elected it runs at most these,
  neither a reconciler nor the server. Once elected it runs the reconciler of the resources, that of the
  nodes and the server, each once and after the cache. The metrics are served at most once.\<close>

theorem leader_only:
  assumes "k8s_registers addk8s" "commands_init addk8s = Inr sch"
    and "controller_main E B sch f w = (Inr (ctl, ids, run, m), w')" "mgr_step\<^sup>*\<^sup>* m m'"
  shows "filter (\<lambda>r. r \<noteq> ServesMetrics) (running m') \<in> {[], [StartCache], [StartCache, alcub_ctl, node_ctl, Serves run]}
    \<and> (\<not> elected m' \<longrightarrow> filter (\<lambda>r. r \<noteq> ServesMetrics) (running m') \<in> {[], [StartCache]})
    \<and> filter (\<lambda>r. r = ServesMetrics) (running m') \<in> {[], [ServesMetrics]} \<and> NeedLeaderElection run"
proof -
  have m: "m = idle_mgr sch (enable (leader f)) (Some '':8080'') [alcub_ctl, node_ctl, Serves run] []"
    by (rule controller_mgr [OF known_init [OF assms(1,2)] assms(3)])
  have run: "NeedLeaderElection run"
    using assms(3) by (auto simp: controller_main_def NewRunner_def NeedLeaderElection_def Let_def split: option.splits sum.splits prod.splits)
  have "mgr_inv m'" by (rule mgr.run_inv [OF assms(4)]) (simp add: m program_inv)
  moreover have "leaderElectionRunnables m' = [alcub_ctl, node_ctl, Serves run]" "nonLeaderElectionRunnables m' = []"
    using mgr_run_frame [OF assms(4)] m by (simp_all add: idle_mgr_def)
  ultimately show ?thesis using run by (auto simp: mgr_inv_def started_parts_def split: if_splits)
qed

lemma node_mgr:
  assumes "known_types sch" "node_main E B sch ifaces f w = (Inr (srv, ids, run, m), w')"
  shows "m = idle_mgr sch False None [alcub_ctl] [Serves run]"
proof -
  obtain mgr where mgr: "NewManager B \<lparr>LeaderElection = False, LeaderElectionID = [], MetricsBindAddress = ''0''\<rparr> sch = Inr mgr"
    using assms(2) by (auto simp: node_main_def split: option.splits sum.splits)
  then have i: "mgr = idle_mgr sch False None [] []"
    by (auto simp: NewManager_def NewResourceLock_def NewListener_def idle_mgr_def Let_def split: option.splits)
  show ?thesis using assms(2) mgr
    by (auto simp: node_main_def i probes_idle(1) [OF assms(1)] Add_idle NewRunner_def NeedLeaderElection_def Let_def
        split: option.splits sum.splits prod.splits)
qed

lemma only_metrics: "filter (\<lambda>r. r = ServesMetrics) rs = [] \<Longrightarrow> filter (\<lambda>r. r \<noteq> ServesMetrics) rs = rs"
  by (auto simp: filter_empty_conv intro: filter_True)

text \<open>From every state of a running manager without a lock, all its parts can still come up.\<close>

lemma comes_up:
  assumes "returned m = None"
  shows "\<exists>m'. mgr_step\<^sup>*\<^sup>* m m' \<and> returned m' = None \<and> startedOthers m' \<and> startedLeader m'"
proof -
  obtain a where a: "mgr_step\<^sup>*\<^sup>* m a" "returned a = None" "startedOthers a"
    by (rule that [of "if startedOthers m then m else startNonLeaderElectionRunnables m"])
      (use assms r_into_rtranclp [of mgr_step, OF mgr_step.others] in \<open>auto simp: start_defs\<close>)
  obtain b where b: "mgr_step\<^sup>*\<^sup>* a b" "returned b = None" "startedOthers b" "elected b"
    by (rule that [of "if elected a then a else a\<lparr>elected := True\<rparr>"])
      (use a r_into_rtranclp [of mgr_step, OF mgr_step.won] in auto)
  obtain c where "mgr_step\<^sup>*\<^sup>* b c" "returned c = None" "startedOthers c" "startedLeader c"
    by (rule that [of "if startedLeader b then b else startLeaderElectionRunnables b"])
      (use b r_into_rtranclp [of mgr_step, OF mgr_step.leader] in \<open>auto simp: start_defs\<close>)
  with a b show ?thesis by (meson rtranclp_trans)
qed

text \<open>C38: A node process needs no election: in every state its manager reaches, as long as it has not been
  told to stop and nothing failed, the reconciler of the resources and the server can still come up, and
  what runs then is the cache, that reconciler and the server, each once.\<close>

theorem node_comes_up:
  assumes "k8s_registers addk8s" "commands_init addk8s = Inr sch"
    and "node_main E B sch ifaces f w = (Inr (srv, ids, run, m), w')" "mgr_step\<^sup>*\<^sup>* m m1" "returned m1 = None"
  shows "\<not> resourceLock m1 \<and> (\<exists>m2. mgr_step\<^sup>*\<^sup>* m1 m2 \<and> running m2 \<in> {[StartCache, alcub_ctl, Serves run], [StartCache, Serves run, alcub_ctl]})"
proof -
  have m: "m = idle_mgr sch False None [alcub_ctl] [Serves run]"
    by (rule node_mgr [OF known_init [OF assms(1,2)] assms(3)])
  have i: "mgr_inv m1" by (rule mgr.run_inv [OF assms(4)]) (simp add: m program_inv)
  from comes_up [OF assms(5)] obtain m2 where m2: "mgr_step\<^sup>*\<^sup>* m1 m2" "startedOthers m2" "startedLeader m2" by blast
  have "leaderElectionRunnables m2 = [alcub_ctl]" "nonLeaderElectionRunnables m2 = [Serves run]" "\<not> resourceLock m1"
    "metricsListener m2 = None"
    using mgr_run_frame [OF assms(4)] mgr_run_frame [OF m2(1)] m by (simp_all add: idle_mgr_def)
  with mgr.run_inv [OF m2(1) i] m2 only_metrics [of "running m2"] show ?thesis
    by (intro conjI exI [of _ m2]) (auto simp: mgr_inv_def started_parts_def)
qed

section \<open>Witnesses\<close>

definition demo_flags :: flags where
  "demo_flags = \<lparr>storeConf = \<lparr>AlucbPool = ''vols'', ApiUrl = ''api'', User = [], Password = []\<rparr>,
     fl_nodename = ''node-1'', leader = \<lparr>leader_Id = [], enable = False\<rparr>,
     fl_labels = \<lparr>filterkv = ''alcubierre-manager-%N=enabled'', hakv = [],
       csilabelkv = ''csi-alcub=enable''\<rparr>,
     alcubconntimeout = 5 * Minute, drivername = ''alcub.csi.es.io'', endpoint = ''unix:///csi/csi.sock'', storageIfName = ''eth1''\<rparr>"

definition demo_boot :: boot where
  "demo_boot = \<lparr>boot_config = None, boot_parts = None, boot_lock = None, boot_listen = (\<lambda>_. None)\<rparr>"

lemma demo_config: "boot_config demo_boot = None"
  by (simp add: demo_boot_def)

lemma demo_scheme: "\<exists>sch. commands_init demo_k8s = Inr sch"
  using init_registers [OF demo_registers] by blast

definition demo_sch :: Scheme where
  "demo_sch = projr (commands_init demo_k8s)"

lemma demo_init: "commands_init demo_k8s = Inr demo_sch"
  using demo_scheme by (auto simp: demo_sch_def)

lemma demo_controller: "\<exists>ctl ids run m. controller_main demo_env demo_boot demo_sch demo_flags demo0 = (Inr (ctl, ids, run, m), demo0)"
proof -
  have l: "splitLabel (csilabelkv (fl_labels demo_flags)) = Some [(''csi-alcub'', ''enable'')]"
    unfolding splitLabel_iff by (intro exI [of _ "''csi-alcub''"] exI [of _ "''enable''"]) (simp add: demo_flags_def)
  have b: "boots demo_boot demo_flags" "ApiUrl (storeConf demo_flags) \<noteq> []" by (simp_all add: boots_def demo_boot_def demo_flags_def)
  note kt = known_init [OF demo_registers demo_init]
  from kt show ?thesis
  proof (cases rule: controller_main_cases [where B = demo_boot and E = demo_env and f = demo_flags and w = demo0])
    case (ok m)
    then show ?thesis
      by (simp add: controller_main_def demo_config NewClient_def Node_New_def NodeMgr_New_def
          SetupNode_def NewIdenty_caps probes_idle(2) [OF kt] Add_idle Let_def case_prod_beta)
  qed (use l b in simp_all)
qed

theorem controller_starts_witness:
  "\<exists>ctl ids run m. fst (controller_main demo_env demo_boot demo_sch demo_flags demo0) = Inr (ctl, ids, run, m)
     \<and> GetPluginCapabilities ids = [Some CONTROLLER_SERVICE] \<and> leaderElectionRunnables m = [alcub_ctl, node_ctl, Serves run]"
proof -
  obtain ctl ids run m where x: "controller_main demo_env demo_boot demo_sch demo_flags demo0 = (Inr (ctl, ids, run, m), demo0)"
    using demo_controller by blast
  with controller_starts [OF demo_registers demo_init, where E = demo_env and B = demo_boot and f = demo_flags and w = demo0] show ?thesis
    by auto
qed

theorem leader_only_witness:
  "\<exists>ctl ids run m m'. controller_main demo_env demo_boot demo_sch demo_flags demo0 = (Inr (ctl, ids, run, m), demo0)
     \<and> mgr_step\<^sup>*\<^sup>* m m' \<and> \<not> elected m' \<and> running m' = [ServesMetrics, StartCache]
     \<and> filter (\<lambda>r. r \<noteq> ServesMetrics) (running m') \<in> {[], [StartCache]}"
proof -
  obtain ctl ids run m where x: "controller_main demo_env demo_boot demo_sch demo_flags demo0 = (Inr (ctl, ids, run, m), demo0)"
    using demo_controller by blast
  have m: "m = idle_mgr demo_sch (enable (leader demo_flags)) (Some '':8080'') [alcub_ctl, node_ctl, Serves run] []"
    by (rule controller_mgr [OF known_init [OF demo_registers demo_init] x])
  let ?m = "startNonLeaderElectionRunnables (serveMetrics m)"
  have "mgr_step m (serveMetrics m)" by (rule mgr_step.metrics) (simp_all add: m idle_mgr_def)
  moreover have "mgr_step (serveMetrics m) ?m" by (rule mgr_step.others) (simp_all add: m idle_mgr_def start_defs)
  ultimately have s: "mgr_step\<^sup>*\<^sup>* m ?m" by (rule converse_rtranclp_into_rtranclp [OF _ r_into_rtranclp])
  have e: "\<not> elected ?m" "running ?m = [ServesMetrics, StartCache]" by (simp_all add: m idle_mgr_def start_defs)
  from leader_only [OF demo_registers demo_init x s] e(1) have "filter (\<lambda>r. r \<noteq> ServesMetrics) (running ?m) \<in> {[], [StartCache]}" by blast
  with x s e show ?thesis by blast
qed

theorem plugin_info_witness:
  "\<exists>ids. NewIdenty ''alcub.csi.es.io'' [ControllerCapability] = Inr ids
     \<and> GetPluginInfo ids = Inr (''alcub.csi.es.io'', ''1.0.0'')"
  using plugin_info [of "[ControllerCapability]" "''alcub.csi.es.io''"] by auto

definition demo_line :: "(string \<times> string) list" where
  "demo_line = [(''node-name'', ''node-1''), (''alcub-api-url'', ''api''), (''endpoint'', ''unix:///csi.sock''), (''storage-if-name'', ''eth1'')]"

definition demo_ifaces :: "error + (string \<times> (error + ifaddr list)) list" where
  "demo_ifaces = Inr [(''lo'', Inr []), (''eth1'', Inr [IPAddr [10, 0, 0, 5]])]"

lemma demo_parsed: "\<exists>f'. parse_command (\<lambda>_. None) ''node'' demo_line default_flags = Inr (''node'', f')
     \<and> storageIfName f' = ''eth1'' \<and> ApiUrl (storeConf f') = ''api''"
  by (simp add: parse_command_def rootCmd_def NewControllerCmd_def NewNodeCmd_def apply_defs demo_line_def ParseFlags_def flag_Set_def)

lemma demo_address: "NodeSrv_New demo_ifaces st al r nn ''eth1'' = Inr \<lparr>n_store = st, n_alcub = al, n_rbd = r,
   maxVolumesPerNode = 0, nodeID = nn, n_nodename = nn, storeip = IP_String [10, 0, 0, 5]\<rparr>"
proof -
  have "IP_String [10, 0, 0, 5] \<noteq> []" by (simp add: IP_String_def IP_To4_def)
  then show ?thesis
    using storage_address [of "[(''lo'', []), (''eth1'', [IPAddr [10, 0, 0, 5]])]" st al r nn "''eth1''"]
    by (simp add: demo_ifaces_def)
qed

lemma demo_node_main:
  assumes "storageIfName f = ''eth1''" "ApiUrl (storeConf f) = ''api''"
  shows "\<exists>srv ids run m w. node_main demo_env demo_boot demo_sch demo_ifaces f demo0 = (Inr (srv, ids, run, m), w)"
proof -
  have "NewManager demo_boot \<lparr>LeaderElection = False, LeaderElectionID = [], MetricsBindAddress = ''0''\<rparr> demo_sch = Inr (idle_mgr demo_sch False None [] [])"
    by (simp add: NewManager_def NewResourceLock_def NewListener_def demo_boot_def idle_mgr_def Let_def)
  with demo_config show ?thesis using assms probes_idle(1) [OF known_init [OF demo_registers demo_init], of False None "[]" "[]"]
    by (simp add: node_main_def NewClient_def demo_address NewIdenty_caps Add_idle Let_def split: prod.splits)
qed

theorem node_started_witness:
  "\<exists>srv ids run m. fst (main_cmd demo_env demo_boot demo_k8s demo_ifaces (\<lambda>_. None) ''node'' demo_line default_flags demo0) = Inr (NodeProcess srv ids run m)
     \<and> NodeId (NodeGetInfo srv) = ''node-1'' \<and> run_endpoint run = ''unix:///csi.sock'' \<and> id_name ids = ''alcub.csi.es.io''"
proof -
  obtain f' where f': "parse_command (\<lambda>_. None) ''node'' demo_line default_flags = Inr (''node'', f')"
    "storageIfName f' = ''eth1''" "ApiUrl (storeConf f') = ''api''" using demo_parsed by blast
  obtain p where p: "fst (main_cmd demo_env demo_boot demo_k8s demo_ifaces (\<lambda>_. None) ''node'' demo_line default_flags demo0) = Inr p"
    using demo_node_main [OF f'(2,3)] f'(1) by (auto simp: main_cmd_def demo_init)
  from node_started [OF p] p show ?thesis by (auto simp: option_text_def demo_line_def)
qed

theorem node_comes_up_witness:
  "\<exists>srv ids run m w m2. node_main demo_env demo_boot demo_sch demo_ifaces demo_flags demo0 = (Inr (srv, ids, run, m), w)
     \<and> mgr_step\<^sup>*\<^sup>* m m2 \<and> running m2 \<in> {[StartCache, alcub_ctl, Serves run], [StartCache, Serves run, alcub_ctl]}"
proof -
  obtain srv ids run m w where x: "node_main demo_env demo_boot demo_sch demo_ifaces demo_flags demo0 = (Inr (srv, ids, run, m), w)"
    using demo_node_main [of demo_flags] by (auto simp: demo_flags_def)
  have "m = idle_mgr demo_sch False None [alcub_ctl] [Serves run]"
    by (rule node_mgr [OF known_init [OF demo_registers demo_init] x])
  then have "returned m = None" by (simp add: idle_mgr_def)
  from node_comes_up [OF demo_registers demo_init x rtranclp.rtrancl_refl this] x show ?thesis by blast
qed

end
