(* ===== verification/WorldFrame.thy ===== *)
theory WorldFrame
  imports Commands
begin

text \<open>
  What the operations do to the outside world, whatever the outside is. An operation that makes no
  write call to the API server keeps every property of the world that each of its other calls keeps.
  The locale \<open>world_frame\<close> states this once for all operations of the program; it is used with
  the log of calls as the world, and in the theory \<open>System\<close> with the resources the API server
  stores.
\<close>

section \<open>Calls that are not writes\<close>

locale world_frame =
  fixes E :: "'w env" and P :: "'w \<Rightarrow> bool"
  assumes calls:
    "P w \<Longrightarrow> P (snd (kube_get E n w))"
    "P w \<Longrightarrow> P (snd (kube_list E w))"
    "P w \<Longrightarrow> P (snd (node_get E n w))"
    "P w \<Longrightarrow> P (snd (node_list E w))"
    "P w \<Longrightarrow> P (snd (node_update E nd w))"
    "P w \<Longrightarrow> P (snd (sc_get E n w))"
    "P w \<Longrightarrow> P (snd (secret_get E n m w))"
    "P w \<Longrightarrow> P (snd (find_dns E w))"
    "P w \<Longrightarrow> P (snd (lookup_host E n m w))"
    "P w \<Longrightarrow> P (snd (run_cmd E n as w))"
    "P w \<Longrightarrow> P (snd (http_do E q w))"
    "P w \<Longrightarrow> P (snd (new_uuid E w))"
    "P w \<Longrightarrow> P (snd (likely_not_mnt E n w))"
    "P w \<Longrightarrow> P (snd (not_mnt E n w))"
    "P w \<Longrightarrow> P (snd (mkdir_all E n w))"
    "P w \<Longrightarrow> P (snd (format_mount E n m k as w))"
    "P w \<Longrightarrow> P (snd (umount E n w))"
    "P w \<Longrightarrow> P (snd (remove_all E n w))"
begin

lemma execCommand: "P w \<Longrightarrow> P (snd (execCommand E c as w))"
  using calls(10) [of w c as] by (auto simp: execCommand_def split: prod.splits)

lemma RBDUtil_CreateImage: "P w \<Longrightarrow> P (snd (RBDUtil_CreateImage E os img b w))"
  using execCommand [of w] by (auto simp: RBDUtil_CreateImage_def Let_def split: prod.splits option.splits) (metis snd_conv)+

lemma rbdStatus: "P w \<Longrightarrow> P (snd (rbdStatus E img os w))"
  using execCommand [of w] by (auto simp: rbdStatus_def Let_def split: prod.splits option.splits) (metis snd_conv)+

lemma RBDUtil_DeleteImage: "P w \<Longrightarrow> P (snd (RBDUtil_DeleteImage E os img w))"
  using rbdStatus [of w img os] execCommand
  by (auto simp: RBDUtil_DeleteImage_def split: prod.splits) (metis snd_conv)+

lemma FetchUrl: "P w \<Longrightarrow> P (snd (FetchUrl E pl attr w))"
  using execCommand by (simp add: FetchUrl_def RBDUtil_FetchUrl_def)

lemma monitors_loop: "P w \<Longrightarrow> P (snd (monitors_loop E dns ms acc w))"
proof (induction ms arbitrary: acc w)
  case (Cons m ms)
  obtain h p where hp: "SplitHostPort m = (h, p)" by (cases "SplitHostPort m")
  obtain r w1 where r: "lookup_host E h dns w = (r, w1)" by (cases "lookup_host E h dns w")
  have "P w1" using calls(9) [OF Cons.prems, of h dns] r by simp
  with Cons hp r show ?case by (auto split: sum.splits)
qed simp

lemma param_step: "P w \<Longrightarrow> P (snd (snd (param_step E kv st w)))"
proof -
  assume w: "P w"
  have "P (snd (snd (param_monitors E v st w)))" for v
    using w calls(8) [OF w] monitors_loop by (auto simp: param_monitors_def Let_def split: prod.splits) (metis snd_conv)+
  with w show ?thesis by (auto simp: param_step_def Let_def split: prod.splits sum.splits)
qed

lemma parse_loop: "P w \<Longrightarrow> P (snd (snd (parse_loop E kvs st w)))"
proof (induction kvs arbitrary: st w)
  case (Cons kv kvs)
  obtain e st1 w1 where p: "param_step E kv st w = (e, st1, w1)" by (metis prod_cases3)
  have "P w1" using param_step [OF Cons.prems, of kv st] p by simp
  with Cons.IH p show ?case by (auto split: option.splits)
qed simp

lemma class_options: "P w \<Longrightarrow> P (snd (snd (class_options E r sc w)))"
proof -
  assume w: "P w"
  have sec: "P (snd (parsePVSecret E r1 ns n w1))" if "P w1" for r1 ns n w1
    using that calls(7) [OF that, of ns n] by (auto simp: parsePVSecret_def split: prod.splits sum.splits)
  have "P (snd (snd (parseParameters E r ps w1)))" if w1: "P w1" for ps w1
  proof -
    obtain e st w2 where p: "parse_loop E ps (parse_init r) w1 = (e, st, w2)" by (metis prod_cases3)
    have "P w2" using parse_loop [OF w1, of ps "parse_init r"] p by simp
    then show ?thesis using sec p
      by (auto simp: parseParameters_def parse_finish_def Let_def split: prod.splits sum.splits option.splits) (metis snd_conv)+
  qed
  with w calls(6) [OF w, of sc] show ?thesis by (auto simp: class_options_def split: prod.splits sum.splits)
qed

lemma Rbd_CreateImage: "P w \<Longrightarrow> P (snd (snd (Rbd_CreateImage E r sc img b w)))"
  using class_options [of w r sc] RBDUtil_CreateImage
  by (auto simp: Rbd_CreateImage_def split: prod.splits sum.splits) (metis snd_conv)

lemma Rbd_DeleteImage: "P w \<Longrightarrow> P (snd (snd (Rbd_DeleteImage E r sc img w)))"
  using class_options [of w r sc] RBDUtil_DeleteImage
  by (auto simp: Rbd_DeleteImage_def split: prod.splits sum.splits) (metis snd_conv)

lemma request: "P w \<Longrightarrow> P (snd (request E m buf au dat w))"
  using calls(11) by (simp add: request_def)

lemma client_do:
  assumes "P w" "\<And>buf au d s w. P w \<Longrightarrow> P (snd (fn buf au d s w))"
  shows "P (snd (snd (snd (client_do E c dc fn s w))))"
proof -
  have "P (snd (snd (fillAlcubUrl E c d w)))" for d
    using FetchUrl [OF assms(1)] by (auto simp: fillAlcubUrl_def Let_def split: prod.splits option.splits) (metis snd_conv)+
  with assms show ?thesis
    by (auto simp: client_do_def Let_def split: option.splits prod.splits sum.splits if_splits) (metis snd_conv)+
qed

lemma fns:
  "P w \<Longrightarrow> P (snd (conn_fn E pl img buf au d s w))"
  "P w \<Longrightarrow> P (snd (disconn_fn E pl img buf au d s w))"
  "P w \<Longrightarrow> P (snd (status_fn E pl img buf au d s w))"
  "P w \<Longrightarrow> P (snd (peers_fn E node buf au d ns w))"
  using request [of w]
  by (auto simp: conn_fn_def disconn_fn_def status_fn_def peers_fn_def Let_def
      split: prod.splits sum.splits option.splits) (metis snd_conv)+

lemma DoConn: "P w \<Longrightarrow> P (snd (snd (snd (DoConn E c dc pl img w))))"
  using client_do [of w "conn_fn E pl img" c dc "[]"] fns(1)
  by (auto simp: DoConn_def split: prod.splits option.splits)

lemma DoDisConn: "P w \<Longrightarrow> P (snd (snd (snd (DoDisConn E c dc pl img w))))"
  using client_do [of w "disconn_fn E pl img" c dc "[]"] fns(2)
  by (auto simp: DoDisConn_def split: prod.splits option.splits)

lemma GetImageStatus: "P w \<Longrightarrow> P (snd (snd (snd (GetImageStatus E c dc pl img w))))"
  using client_do [of w "status_fn E pl img" c dc "[]"] fns(3)
  by (auto simp: GetImageStatus_def split: prod.splits option.splits)

lemma GetNode: "P w \<Longrightarrow> P (snd (snd (snd (GetNode E c dc nd w))))"
  using client_do [of w "peers_fn E nd" c dc "[]"] fns(4)
  by (auto simp: GetNode_def split: prod.splits option.splits)

lemma nil_ops:
  "nil_conf (\<lambda>d. DoConn E c d pl img) w = (r1, c1, w1) \<Longrightarrow> P w \<Longrightarrow> P w1"
  "nil_conf (\<lambda>d. DoDisConn E c d pl img) w = (r2, c1, w1) \<Longrightarrow> P w \<Longrightarrow> P w1"
  "nil_conf (\<lambda>d. GetImageStatus E c d pl img) w = (r3, c1, w1) \<Longrightarrow> P w \<Longrightarrow> P w1"
  "nil_conf (\<lambda>d. GetNode E c d nd) w = (r4, c1, w1) \<Longrightarrow> P w \<Longrightarrow> P w1"
  using DoConn [of w c None pl img] DoDisConn [of w c None pl img] GetImageStatus [of w c None pl img] GetNode [of w c None nd]
  by (auto simp: nil_conf_def split: prod.splits)

lemma detachDevice: "P w \<Longrightarrow> P (snd (snd (detachDevice E a c w)))"
  by (auto simp: detachDevice_def split: prod.splits dest: nil_ops(2))

lemma preMountValid: "P w \<Longrightarrow> P (snd (snd (preMountValid E a c w)))"
proof -
  assume w: "P w"
  let ?p = "Pool (Spec a)" and ?i = "Image (Spec a)"
  obtain b st1 w1 where s: "nil_conf (\<lambda>d. GetImageStatus E (n_store c) d ?p ?i) w = (b, st1, w1)" by (metis prod_cases3)
  obtain ns st2 w2 where n: "nil_conf (\<lambda>d. GetNode E st1 d (n_nodename c)) w1 = (ns, st2, w2)" by (metis prod_cases3)
  obtain dv st3 w3 where d: "nil_conf (\<lambda>d. DoConn E st2 d ?p ?i) w2 = (dv, st3, w3)" by (metis prod_cases3)
  note 1 = nil_ops(3) [OF s w]
  note 2 = nil_ops(4) [OF n 1]
  note 3 = nil_ops(1) [OF d 2]
  show ?thesis using w 1 2 3 s n d
    by (auto simp: preMountValid_def attachDevice_def split: sum.splits)
qed

lemma mount_body: "P w \<Longrightarrow> P (snd (mount_body E req dev w))"
proof -
  assume w: "P w"
  obtain b e w1 where l: "likely_not_mnt E (np_TargetPath req) w = ((b, e), w1)" by (metis prod.collapse)
  obtain e2 w2 where m: "mkdir_all E (np_TargetPath req) w1 = (e2, w2)" by (cases "mkdir_all E (np_TargetPath req) w1")
  have 1: "P w1" using calls(13) [OF w, of "np_TargetPath req"] l by simp
  have 2: "P w2" using calls(15) [OF 1, of "np_TargetPath req"] m by simp
  show ?thesis using 1 2 calls(16) l m by (auto simp: mount_body_def Let_def split: option.splits)
qed

lemma unmount_body: "P w \<Longrightarrow> P (snd (unmount_body E t w))"
proof -
  assume w: "P w"
  obtain b e w1 where l: "not_mnt E t w = ((b, e), w1)" by (metis prod.collapse)
  obtain e2 w2 where m: "umount E t w1 = (e2, w2)" by (cases "umount E t w1")
  have 1: "P w1" using calls(14) [OF w, of t] l by simp
  have 2: "P w2" using calls(17) [OF 1, of t] m by simp
  show ?thesis using 1 2 calls(18) l m by (auto simp: unmount_body_def split: option.splits)
qed

lemma GetByName: "P w \<Longrightarrow> P (snd (AlcubCon_GetByName E n w))"
  using calls(1) [of w n] by (auto simp: AlcubCon_GetByName_def split: prod.splits sum.splits)

lemma GetByUuid: "P w \<Longrightarrow> P (snd (AlcubCon_GetByUuid E u al w))"
  using GetByName by (auto simp: AlcubCon_GetByUuid_def Let_def)

lemma LabledNodes: "P w \<Longrightarrow> P (snd (LabledNodes E nm w))"
  using calls(4) [of w] by (auto simp: LabledNodes_def split: prod.splits sum.splits)

lemma Node_Reconcile: "P w \<Longrightarrow> P (snd (Node_Reconcile E nm n w))"
proof -
  assume w: "P w"
  have "P (snd (update_once E n fns w))" if "P w" for fns w
    using that calls(3) [OF that, of n] calls(5) by (auto simp: update_once_def split: prod.splits sum.splits)
  then have "P (snd (updateNode E n fns w))" if "P w" for fns w
    unfolding updateNode_def using that roc.retry_inv by metis
  with calls(3) [OF w, of n] show ?thesis
    by (auto simp: Node_Reconcile_def Let_def split: prod.splits option.splits error.splits) (metis snd_conv)+
qed

text \<open>Notifying does not reach the outside: the information about a node holds no zones.\<close>

lemma notreadyController: "P w \<Longrightarrow> P (snd (snd (notreadyController E nm x c w)))"
  by (auto simp: notreadyController_def StopNode_def StartNode_def notidyAlcub_def GetNodeInfo_def
      Nodeinfo_DeepCopy_def Let_def split: option.splits prod.splits)

end

section \<open>The log of calls\<close>

definition write_event :: "event \<Rightarrow> bool" where
  "write_event e \<longleftrightarrow> (\<exists>x r. e = EvCreate x r \<or> e = EvUpdate x r \<or> e = EvDelete x r)"

text \<open>With logged calls as the world: these operations never create, update or delete a resource.\<close>

interpretation quiet: world_frame "traced E" "\<lambda>x. list_all (\<lambda>e. \<not> write_event e) (snd x)"
  by unfold_locales (auto simp: env_defs logged_def write_event_def)

end
