(* ===== verification/StoreClient.thy ===== *)
theory StoreClient
  imports WorldFrame
begin

text \<open>
  The handlers as clients of the stored resources. \<open>ctl_handler\<close> and \<open>node_handler\<close> are
  what happens in a controller and in a node process, one handler at a time. The locale
  \<open>store_client\<close> is the contract between the handlers and the API server: a property of the
  world that every other call keeps, and that a write keeps when it is one of those the program makes
  and that the rules allow: creating a fresh resource, setting the status of a resource that was read,
  releasing one that was read marked and unattached, and marking. The handlers then keep the property.
  The theory \<open>System\<close> uses the contract for an API server that only the handler uses, and for
  one that others use between any two of its calls.
\<close>

section \<open>The handlers of the processes\<close>

text \<open>What happens in the controller process, one handler at a time: the two volume calls, the two
  reconcilers and the notifications about nodes.\<close>

inductive ctl_handler :: "'w env \<Rightarrow> Controller \<times> 'w \<Rightarrow> Controller \<times> 'w \<Rightarrow> bool" for E :: "'w env" where
  create: "CreateVolume E req c w = (r, c', w') \<Longrightarrow> ctl_handler E (c, w) (c', w')"
| delete: "DeleteVolume E vid c w = (r, c', w') \<Longrightarrow> ctl_handler E (c, w) (c', w')"
| reconcile: "AlcubCon_Reconcile E n (c_alcub c) w = (r, al', w') \<Longrightarrow> ctl_handler E (c, w) (c\<lparr>c_alcub := al'\<rparr>, w')"
| reconcile_node: "c_node c = Some nm \<Longrightarrow> Node_Reconcile E nm n w = (r, w') \<Longrightarrow> ctl_handler E (c, w) (c, w')"
| not_ready: "c_node c = Some nm \<Longrightarrow> notreadyController E nm x c w = (fn, c', w') \<Longrightarrow> ctl_handler E (c, w) (c', w')"

text \<open>In a node process: the two mount calls, and the reconciler of the resources, which runs there too.\<close>

inductive node_handler :: "'w env \<Rightarrow> NodeSrv \<times> 'w \<Rightarrow> NodeSrv \<times> 'w \<Rightarrow> bool" for E :: "'w env" where
  publish: "NodePublishVolume E req c w = (r, c', w') \<Longrightarrow> node_handler E (c, w) (c', w')"
| unpublish: "NodeUnpublishVolume E ureq c w = (r, c', w') \<Longrightarrow> node_handler E (c, w) (c', w')"
| reconcile: "AlcubCon_Reconcile E n (n_alcub c) w = (r, al', w') \<Longrightarrow> node_handler E (c, w) (c\<lparr>n_alcub := al'\<rparr>, w')"


section \<open>The contract\<close>

datatype perm = MayCreate | MaySetNode string | MayRelease | MayMark

locale store_client = world_frame E P for E :: "'w env" and P :: "'w \<Rightarrow> bool" +
  fixes known :: "string \<Rightarrow> CsiAlcub \<Rightarrow> 'w \<Rightarrow> bool" and allowed :: "perm \<Rightarrow> bool"
  assumes get_known: "P w \<Longrightarrow> kube_get E n w = (Inr a, w') \<Longrightarrow> known n a w'"
    and update_known: "P w \<Longrightarrow> known n a w \<Longrightarrow> known n a (snd (kube_update E x w))"
    and create: "P w \<Longrightarrow> allowed MayCreate \<Longrightarrow> P (snd (kube_create E (newobj n sp) w))"
    and set_status: "P w \<Longrightarrow> known n a w \<Longrightarrow> allowed (MaySetNode (Node st)) \<Longrightarrow> P (snd (kube_update E (a\<lparr>Status := st\<rparr>) w))"
    and release: "P w \<Longrightarrow> known n a w \<Longrightarrow> DeletionTimestamp (Meta a) \<noteq> None \<Longrightarrow> Node (Status a) = [] \<Longrightarrow> allowed MayRelease \<Longrightarrow>
      P (snd (kube_update E (a\<lparr>Meta := (Meta a)\<lparr>Finalizers := []\<rparr>\<rparr>) w))"
    and mark: "P w \<Longrightarrow> allowed MayMark \<Longrightarrow> P (snd (kube_delete E x w))"
begin

lemma get_P: "kube_get E n w = (r, w') \<Longrightarrow> P w \<Longrightarrow> P w'"
  using calls(1) [of w n] by simp

text \<open>A loop of updates of an object that was read.\<close>

lemma retry_P:
  assumes "P w" "known n a w" "\<And>w'. P w' \<Longrightarrow> known n a w' \<Longrightarrow> P (snd (kube_update E x w'))"
  shows "P (snd (RetryOnConflict k (kube_update E x) w))"
  using roc.retry_inv [of "\<lambda>w. P w \<and> known n a w" w "kube_update E x" k] assms update_known by blast

lemma Update:
  assumes "AlcubCon_Update E n None (Some st) w = (e, w')" "P w" "allowed (MaySetNode (Node st))"
  shows "P w'"
proof (cases "kube_get E n w")
  case (Pair r w1)
  have p: "P w1" by (rule get_P [OF Pair assms(2)])
  have "P (snd (RetryOnConflict DefaultRetry (kube_update E (a\<lparr>Status := st\<rparr>)) w1))" if "r = Inr a" for a
    using retry_P [OF p get_known [OF assms(2)]] Pair that set_status assms(3) by blast
  with p Pair assms(1) show ?thesis by (auto simp: AlcubCon_Update_def Let_def split: sum.splits)
qed

lemma Reconcile:
  assumes "AlcubCon_Reconcile E n al w = (e, al', w')" "P w" "allowed MayRelease"
  shows "P w'"
proof (cases "kube_get E n w")
  case (Pair r w1)
  have p: "P w1" by (rule get_P [OF Pair assms(2)])
  have "P (snd (RetryOnConflict DefaultRetry (kube_update E (a\<lparr>Meta := (Meta a)\<lparr>Finalizers := []\<rparr>\<rparr>)) w1))"
    if "r = Inr a" "DeletionTimestamp (Meta a) \<noteq> None" "validBeDelete a = None" for a
  proof -
    have "Node (Status a) = []" using that(3) by (simp add: validBeDelete_def split: if_splits)
    with retry_P [OF p get_known [OF assms(2)]] Pair that release assms(3) show ?thesis by blast
  qed
  with p Pair assms(1) show ?thesis by (auto simp: AlcubCon_Reconcile_def split: sum.splits if_splits)
qed

lemma Delete:
  assumes "AlcubCon_Delete E n w = (e, w')" "P w" "allowed MayMark"
  shows "P w'"
proof (cases "kube_get E n w")
  case (Pair r w1)
  have p: "P w1" by (rule get_P [OF Pair assms(2)])
  have "P (snd (RetryOnConflict DefaultRetry (kube_delete E a) w1))" for a
    by (rule roc.retry_inv [of P], rule p, rule mark, assumption, rule assms(3))
  with p Pair assms(1) show ?thesis by (auto simp: AlcubCon_Delete_def split: sum.splits) (metis snd_conv)+
qed

lemma Create:
  assumes "AlcubCon_Create E n sp al w = (e, al', w')" "P w" "allowed MayCreate"
  shows "P w'"
  using assms(1,2) create [OF assms(2,3)]
  by (auto simp: AlcubCon_Create_def split: option.splits prod.splits) (metis snd_conv)+

section \<open>The handlers keep the property\<close>

text \<open>The operations that do not write, in the form the handlers use.\<close>

lemma reads:
  "Rbd_CreateImage E r1 v n b w = (x1, r2, w1) \<Longrightarrow> P w \<Longrightarrow> P w1"
  "Rbd_DeleteImage E r1 v n w = (x2, r2, w1) \<Longrightarrow> P w \<Longrightarrow> P w1"
  "AlcubCon_GetByName E n w = (x3, w1) \<Longrightarrow> P w \<Longrightarrow> P w1"
  "AlcubCon_GetByUuid E u al w = (x3, w1) \<Longrightarrow> P w \<Longrightarrow> P w1"
  "LabledNodes E nm w = (x4, w1) \<Longrightarrow> P w \<Longrightarrow> P w1"
  "new_uuid E w = (x5, w1) \<Longrightarrow> P w \<Longrightarrow> P w1"
  "preMountValid E a c w = (x6, c1, w1) \<Longrightarrow> P w \<Longrightarrow> P w1"
  "mount_body E req dev w = (x7, w1) \<Longrightarrow> P w \<Longrightarrow> P w1"
  "mount_failed E a c w = (c1, w1) \<Longrightarrow> P w \<Longrightarrow> P w1"
  "unmount_body E t w = (x7, w1) \<Longrightarrow> P w \<Longrightarrow> P w1"
  "detachDevice E a c w = (x8, c1, w1) \<Longrightarrow> P w \<Longrightarrow> P w1"
  using Rbd_CreateImage [of w r1 v n b] Rbd_DeleteImage [of w r1 v n] GetByName [of w n] GetByUuid [of w u al]
    LabledNodes [of w nm] calls(12) [of w] preMountValid [of w a c] mount_body [of w req dev] detachDevice [of w a c]
    unmount_body [of w t]
  by (simp_all add: mount_failed_def)

lemma createVolume:
  assumes "createVolume E ps n u b c w = (r, c', w')" "P w" "allowed MayCreate"
  shows "P w'"
  using assms(1,2)
  by (auto simp: createVolume_def Let_def split: if_splits option.splits prod.splits sum.splits)
    (blast dest: reads(1,2) Create intro: assms(3))+

lemma create_new:
  assumes "create_new E req cap c w = (x, c1, w1)" "P w" "allowed MayCreate"
  shows "P w1"
  using assms(1,2)
  by (auto simp: create_new_def split: option.splits prod.splits if_splits)
    (blast dest: reads(5,6) createVolume intro: assms(3))+

lemma CreateVolume:
  assumes "CreateVolume E req c w = (r, c', w')" "P w" "allowed MayCreate"
  shows "P w'"
  using assms(1,2)
  by (auto simp: CreateVolume_def Let_def split: option.splits prod.splits if_splits)
    (blast dest: reads(3) create_new intro: assms(3))+

lemma DeleteVolume:
  assumes "DeleteVolume E vid c w = (r, c', w')" "P w" "allowed MayMark"
  shows "P w'"
  using assms(1,2)
  by (auto simp: DeleteVolume_def deleteVolume_def split: option.splits prod.splits)
    (blast dest: reads(2,4) Delete intro: assms(3))+

lemma mount_success:
  assumes "mount_success E a dev ns c w = (x, c1, w1)" "P w" "allowed (MaySetNode (n_nodename c))"
  shows "P w1"
  using assms Update [of "Name (Meta a)" "mount_status c dev ns (Status a)" w]
  by (auto simp: mount_success_def mount_status_def Let_def split: prod.splits if_splits)

lemma preMount_name:
  assumes "preMountValid E a c w = (x, c1, w1)"
  shows "n_nodename c1 = n_nodename c"
  using assms by (auto simp: preMountValid_def attachDevice_def split: if_splits prod.splits sum.splits)

lemma NodePublish:
  assumes "NodePublishVolume E req c w = (r, c', w')" "P w" "allowed (MaySetNode (n_nodename c))"
  shows "P w'"
proof -
  have ms: "P w1" if "mount_success E a dev ns c1 w = (x, c2, w1)" "P w" "n_nodename c1 = n_nodename c" for a dev ns c1 w x c2 w1
    using mount_success [OF that(1,2)] that(3) assms(3) by simp
  show ?thesis using assms(1,2)
    by (auto simp: NodePublishVolume_def split: option.splits prod.splits sum.splits)
      (blast dest: reads(4,7,8,9) preMount_name ms)+
qed

lemma NodeUnpublish:
  assumes "NodeUnpublishVolume E req c w = (r, c', w')" "P w" "allowed (MaySetNode [])"
  shows "P w'"
proof -
  have up: "AlcubCon_Update E n None (Some (st\<lparr>Node := []\<rparr>)) w = (x, w1) \<Longrightarrow> P w \<Longrightarrow> P w1" for n st w x w1
    using Update [of n "st\<lparr>Node := []\<rparr>" w x w1] assms(3) by simp
  show ?thesis using assms(1,2)
    by (auto simp: NodeUnpublishVolume_def unmount_success_def split: option.splits prod.splits)
      (blast dest: reads(4,10,11) up)+
qed

lemma ctl_handler:
  assumes "ctl_handler E (c, w) (c', w')" "P w" "allowed MayCreate" "allowed MayMark" "allowed MayRelease"
  shows "P w'"
  using assms(1)
proof cases
  case (reconcile_node nm n r)
  then show ?thesis using Node_Reconcile [OF assms(2), of nm n] by simp
next
  case (not_ready nm x fn)
  then show ?thesis using notreadyController [OF assms(2), of nm x c] by simp
qed (blast intro: CreateVolume DeleteVolume Reconcile assms(2-))+

lemma node_handler:
  assumes "node_handler E (c, w) (c', w')" "P w" "allowed MayRelease" "\<And>m. allowed (MaySetNode m)"
  shows "P w'"
  using assms(1) by cases (blast intro: NodePublish NodeUnpublish Reconcile assms(2-))+

end

end
