(* ===== verification/System.thy ===== *)
theory System
  imports StoreClient
begin

text \<open>
  The whole system: the controller process and any number of node processes that share one API server.
  A step of the system is one handler of one process. \<open>api_server\<close> says what the program relies
  on of the Kubernetes API server: reads may come from a cache and be old, but an update is only applied
  to the version it was read at; objects with finalizers are marked on deletion and go away when the
  last finalizer is removed. An answer may be lost, so any write may have been applied or not whatever
  it returned.

  A handler is not atomic. In the world \<open>interleaved E\<close> other actions happen before each of its
  calls: a schedule says which. The steps of the system are handlers in this world, with schedules of
  any actions that follow the rules themselves.

  The abstract specification is the life of a volume's resource, \<open>life\<close>: created unattached,
  attached and detached, marked for deletion, and released only when it is marked and not attached.
  Every run of the system is a run of this machine; the controller alone performs only creations, marks
  and releases.
\<close>

section \<open>The API server\<close>

text \<open>The object now stored under a name, and all objects ever stored under it.\<close>

type_synonym 'w current = "'w \<Rightarrow> string \<Rightarrow> CsiAlcub option"
type_synonym 'w history = "'w \<Rightarrow> string \<Rightarrow> CsiAlcub set"

definition same_store :: "'w current \<Rightarrow> 'w history \<Rightarrow> 'w \<Rightarrow> 'w \<Rightarrow> bool" where
  "same_store cur past w w' \<longleftrightarrow> cur w' = cur w \<and> past w' = past w"

definition stores :: "'w current \<Rightarrow> 'w history \<Rightarrow> 'w \<Rightarrow> 'w \<Rightarrow> string \<Rightarrow> CsiAlcub option \<Rightarrow> bool" where
  "stores cur past w w' n x \<longleftrightarrow> cur w' = (cur w)(n := x) \<and> past w' = (past w)(n := past w n \<union> set_option x)"

text \<open>What the server takes over from a request; the version and the deletion timestamp are its own.\<close>

definition stored_as :: "CsiAlcub \<Rightarrow> CsiAlcub \<Rightarrow> bool" where
  "stored_as x a \<longleftrightarrow> Name (Meta a) = Name (Meta x) \<and> Finalizers (Meta a) = Finalizers (Meta x)
     \<and> Spec a = Spec x \<and> Status a = Status x"

abbreviation rversion :: "CsiAlcub \<Rightarrow> string" where
  "rversion a \<equiv> ResourceVersion (Meta a)"

definition may_create :: "'w current \<Rightarrow> 'w history \<Rightarrow> CsiAlcub \<Rightarrow> 'w \<Rightarrow> 'w \<Rightarrow> bool" where
  "may_create cur past x w w' \<longleftrightarrow> same_store cur past w w' \<or>
     (cur w (Name (Meta x)) = None \<and> (\<exists>a. stored_as x a \<and> DeletionTimestamp (Meta a) = None
        \<and> stores cur past w w' (Name (Meta x)) (Some a)))"

definition may_update :: "'w current \<Rightarrow> 'w history \<Rightarrow> CsiAlcub \<Rightarrow> 'w \<Rightarrow> 'w \<Rightarrow> bool" where
  "may_update cur past x w w' \<longleftrightarrow> same_store cur past w w' \<or>
     (\<exists>b. cur w (Name (Meta x)) = Some b \<and> rversion b = rversion x \<and>
        (if DeletionTimestamp (Meta b) \<noteq> None \<and> Finalizers (Meta x) = []
         then stores cur past w w' (Name (Meta x)) None
         else \<exists>a. stored_as x a \<and> DeletionTimestamp (Meta a) = DeletionTimestamp (Meta b)
           \<and> stores cur past w w' (Name (Meta x)) (Some a)))"

definition may_delete :: "'w current \<Rightarrow> 'w history \<Rightarrow> CsiAlcub \<Rightarrow> 'w \<Rightarrow> 'w \<Rightarrow> bool" where
  "may_delete cur past x w w' \<longleftrightarrow> same_store cur past w w' \<or>
     (\<exists>b. cur w (Name (Meta x)) = Some b \<and>
        (if Finalizers (Meta b) = [] then stores cur past w w' (Name (Meta x)) None
         else \<exists>a. stored_as b a \<and> DeletionTimestamp (Meta a) \<noteq> None \<and> stores cur past w w' (Name (Meta x)) (Some a)))"

definition api_server :: "'w env \<Rightarrow> 'w current \<Rightarrow> 'w history \<Rightarrow> bool" where
  "api_server E cur past \<longleftrightarrow>
     (\<forall>w n a. cur w n = Some a \<longrightarrow> a \<in> past w n)
     \<and> (\<forall>w n a. a \<in> past w n \<longrightarrow> Name (Meta a) = n)
     \<and> (\<forall>w n a b. a \<in> past w n \<longrightarrow> b \<in> past w n \<longrightarrow> rversion a = rversion b \<longrightarrow> a = b)
     \<and> (\<forall>w n a. fst (kube_get E n w) = Inr a \<longrightarrow> a \<in> past w n)
     \<and> (\<forall>w0. world_frame E (same_store cur past w0))
     \<and> (\<forall>x w. may_create cur past x w (snd (kube_create E x w)))
     \<and> (\<forall>x w. may_update cur past x w (snd (kube_update E x w)))
     \<and> (\<forall>x w. may_delete cur past x w (snd (kube_delete E x w)))"

lemma api_current: "api_server E cur past \<Longrightarrow> cur w n = Some a \<Longrightarrow> a \<in> past w n"
  by (simp add: api_server_def)

section \<open>The life of a volume\<close>

text \<open>No resource, or a resource that may be marked for deletion and names a node or none.\<close>

datatype vol = Absent | Present bool string

inductive ctl_life :: "vol \<Rightarrow> vol \<Rightarrow> bool" where
  create: "ctl_life Absent (Present False [])"
| mark: "ctl_life (Present t m) (Present True m)"
| release: "ctl_life (Present True []) Absent"

inductive life :: "vol \<Rightarrow> vol \<Rightarrow> bool" where
  ctl: "ctl_life u v \<Longrightarrow> life u v"
| attach: "n \<noteq> [] \<Longrightarrow> life (Present t m) (Present t n)"
| detach: "life (Present t m) (Present t [])"

inductive_cases ctl_life_cases: "ctl_life (Present t m) v"
inductive_cases ctl_life_AbsentE: "ctl_life u Absent"
inductive_cases life_AbsentE: "life u Absent"

definition vols :: "'w current \<Rightarrow> 'w \<Rightarrow> string \<Rightarrow> vol" where
  "vols cur w n = (case cur w n of None \<Rightarrow> Absent
     | Some a \<Rightarrow> Present (DeletionTimestamp (Meta a) \<noteq> None) (Node (Status a)))"

text \<open>One volume takes a step.\<close>

definition vols_step :: "(vol \<Rightarrow> vol \<Rightarrow> bool) \<Rightarrow> (string \<Rightarrow> vol) \<Rightarrow> (string \<Rightarrow> vol) \<Rightarrow> bool" where
  "vols_step L A B \<longleftrightarrow> (\<exists>n v. L (A n) v \<and> B = A(n := v))"

text \<open>Every resource has a finalizer, as those the program creates have.\<close>

definition guarded :: "'w history \<Rightarrow> 'w \<Rightarrow> bool" where
  "guarded past w \<longleftrightarrow> (\<forall>n. \<forall>a \<in> past w n. Finalizers (Meta a) \<noteq> [])"

section \<open>What the handlers do to the resources\<close>

text \<open>The worlds that are reached from a world by steps of the volumes.\<close>

definition lives :: "(vol \<Rightarrow> vol \<Rightarrow> bool) \<Rightarrow> 'w current \<Rightarrow> 'w history \<Rightarrow> 'w \<Rightarrow> 'w \<Rightarrow> bool" where
  "lives L cur past w0 w \<longleftrightarrow> guarded past w \<and> (vols_step L)\<^sup>*\<^sup>* (vols cur w0) (vols cur w)
     \<and> (\<forall>n. past w0 n \<subseteq> past w n)"

lemma lives_refl: "guarded past w \<Longrightarrow> lives L cur past w w"
  by (simp add: lives_def)

lemma lives_same: "lives L cur past w0 w \<Longrightarrow> same_store cur past w w' \<Longrightarrow> lives L cur past w0 w'"
  by (simp add: lives_def same_store_def guarded_def vols_def fun_eq_iff) (metis (no_types, lifting) ext vols_def)

lemma lives_frame:
  assumes "api_server E cur past"
  shows "world_frame E (lives L cur past w0)"
proof -
  have f: "world_frame E (same_store cur past w)" for w using assms by (auto simp: api_server_def)
  have r: "same_store cur past w w" for w by (simp add: same_store_def)
  show ?thesis
    by unfold_locales (rule lives_same, assumption, rule world_frame.calls [OF f r])+
qed

lemma lives_stores:
  assumes "lives L cur past w0 w" "stores cur past w w' n x"
    and "\<And>a. x = Some a \<Longrightarrow> Finalizers (Meta a) \<noteq> []"
    and "L (vols cur w n) (vols cur w' n)"
  shows "lives L cur past w0 w'"
proof -
  have "vols cur w' = (vols cur w)(n := vols cur w' n)"
    using assms(2) by (auto simp: vols_def stores_def fun_eq_iff)
  with assms(4) have "vols_step L (vols cur w) (vols cur w')" unfolding vols_step_def by metis
  with assms(1,2,3) show ?thesis
    by (auto simp: lives_def guarded_def stores_def split: if_splits)
qed

text \<open>The three writes.\<close>

lemma create_lives:
  assumes "api_server E cur past" "lives L cur past w0 w" "L Absent (Present False [])"
  shows "lives L cur past w0 (snd (kube_create E (newobj n sp) w))"
proof -
  let ?w = "snd (kube_create E (newobj n sp) w)"
  have "may_create cur past (newobj n sp) w ?w" using assms(1) by (simp add: api_server_def)
  then consider "same_store cur past w ?w"
    | a where "cur w n = None" "stored_as (newobj n sp) a" "DeletionTimestamp (Meta a) = None" "stores cur past w ?w n (Some a)"
    by (auto simp: may_create_def newobj_def)
  then show ?thesis
  proof cases
    case 2
    then show ?thesis
      by (intro lives_stores [OF assms(2) 2(4)])
        (use assms(3) in \<open>auto simp: stored_as_def newobj_def finalizers_def vols_def stores_def zero_status_def\<close>)
  qed (rule lives_same [OF assms(2)])
qed

lemma update_status_lives:
  assumes "api_server E cur past" "lives L cur past w0 w" "a \<in> past w n"
    and "\<And>t m. L (Present t m) (Present t (Node st))"
  shows "lives L cur past w0 (snd (kube_update E (a\<lparr>Status := st\<rparr>) w))"
proof -
  let ?x = "a\<lparr>Status := st\<rparr>" let ?w = "snd (kube_update E ?x w)"
  have n: "Name (Meta a) = n" using assms(1,3) by (simp add: api_server_def)
  have fin: "Finalizers (Meta a) \<noteq> []" using assms(2,3) by (auto simp: lives_def guarded_def)
  have "may_update cur past ?x w ?w" using assms(1) by (simp add: api_server_def)
  then consider "same_store cur past w ?w"
    | b c where "cur w n = Some b" "stored_as ?x c" "DeletionTimestamp (Meta c) = DeletionTimestamp (Meta b)"
        "stores cur past w ?w n (Some c)"
    using n fin by (auto simp: may_update_def)
  then show ?thesis
  proof cases
    case 2
    then show ?thesis
      by (intro lives_stores [OF assms(2) 2(4)])
        (use assms(4) fin in \<open>auto simp: stored_as_def vols_def stores_def\<close>)
  qed (rule lives_same [OF assms(2)])
qed

lemma release_lives:
  assumes "api_server E cur past" "lives L cur past w0 w" "a \<in> past w n"
    and "DeletionTimestamp (Meta a) \<noteq> None" "Node (Status a) = []" "L (Present True []) Absent"
  shows "lives L cur past w0 (snd (kube_update E (a\<lparr>Meta := (Meta a)\<lparr>Finalizers := []\<rparr>\<rparr>) w))"
proof -
  let ?x = "a\<lparr>Meta := (Meta a)\<lparr>Finalizers := []\<rparr>\<rparr>" let ?w = "snd (kube_update E ?x w)"
  have n: "Name (Meta a) = n" using assms(1,3) by (simp add: api_server_def)
  have "b = a" if "cur w n = Some b" "rversion b = rversion a" for b
    using assms(1,3) that unfolding api_server_def by blast
  moreover have "may_update cur past ?x w ?w" using assms(1) by (simp add: api_server_def)
  ultimately consider "same_store cur past w ?w" | "cur w n = Some a" "stores cur past w ?w n None"
    using n assms(4) by (auto simp: may_update_def)
  then show ?thesis
  proof cases
    case 2
    then show ?thesis
      by (intro lives_stores [OF assms(2) 2(2)]) (use assms(4,5,6) in \<open>auto simp: vols_def stores_def\<close>)
  qed (rule lives_same [OF assms(2)])
qed

lemma delete_lives:
  assumes "api_server E cur past" "lives L cur past w0 w" "\<And>t m. L (Present t m) (Present True m)"
  shows "lives L cur past w0 (snd (kube_delete E x w))"
proof -
  let ?w = "snd (kube_delete E x w)" and ?n = "Name (Meta x)"
  have fin: "cur w ?n = Some b \<Longrightarrow> Finalizers (Meta b) \<noteq> []" for b
    using api_current [OF assms(1), of w ?n b] assms(2) unfolding lives_def guarded_def by blast
  have "may_delete cur past x w ?w" using assms(1) by (simp add: api_server_def)
  then consider "same_store cur past w ?w"
    | b c where "cur w ?n = Some b" "stored_as b c" "DeletionTimestamp (Meta c) \<noteq> None" "stores cur past w ?w ?n (Some c)"
    using fin by (auto simp: may_delete_def split: if_splits)
  then show ?thesis
  proof cases
    case 2
    then show ?thesis
      by (intro lives_stores [OF assms(2) 2(4)])
        (use assms(3) [of "DeletionTimestamp (Meta b) \<noteq> None" "Node (Status b)"] fin in \<open>auto simp: stored_as_def vols_def stores_def\<close>)
  qed (rule lives_same [OF assms(2)])
qed

text \<open>The operations of the manager.\<close>

lemma get_lives:
  assumes "api_server E cur past" "lives L cur past w0 w" "kube_get E n w = (r, w')"
  shows "lives L cur past w0 w'" "r = Inr a \<Longrightarrow> a \<in> past w' n"
proof -
  show "lives L cur past w0 w'"
    using world_frame.calls(1) [OF lives_frame [OF assms(1)] assms(2), of n] assms(3) by simp
  have "same_store cur past w w'"
    using world_frame.calls(1) [of E "same_store cur past w" w n] assms(1,3) by (auto simp: api_server_def same_store_def)
  moreover have "fst (kube_get E n w) = Inr a \<Longrightarrow> a \<in> past w n" using assms(1) by (simp add: api_server_def)
  ultimately show "r = Inr a \<Longrightarrow> a \<in> past w' n" using assms(3) by (simp add: same_store_def)
qed

lemma update_past:
  assumes "api_server E cur past" "a \<in> past w n"
  shows "a \<in> past (snd (kube_update E x w)) n"
proof -
  have "may_update cur past x w (snd (kube_update E x w))" using assms(1) by (simp add: api_server_def)
  with assms(2) show ?thesis by (auto simp: may_update_def same_store_def stores_def split: if_splits)
qed

section \<open>Handlers on a store of their own\<close>

text \<open>Which writes a life allows.\<close>

fun life_allows :: "(vol \<Rightarrow> vol \<Rightarrow> bool) \<Rightarrow> perm \<Rightarrow> bool" where
  "life_allows L MayCreate \<longleftrightarrow> L Absent (Present False [])"
| "life_allows L (MaySetNode m) \<longleftrightarrow> (\<forall>t k. L (Present t k) (Present t m))"
| "life_allows L MayRelease \<longleftrightarrow> L (Present True []) Absent"
| "life_allows L MayMark \<longleftrightarrow> (\<forall>t m. L (Present t m) (Present True m))"

lemma life_node: "life (Present t m) (Present t n)"
  by (cases "n = []") (auto intro: life.intros)

lemma ctl_life_allows: "life_allows ctl_life MayCreate" "life_allows ctl_life MayRelease" "life_allows ctl_life MayMark"
  by (auto intro: ctl_life.intros)

lemma life_allows_all: "life_allows life p"
  by (cases p) (auto intro: life_node life.ctl ctl_life.intros)

text \<open>What the calls do to the lives, under the assumption that they are calls of an API server.\<close>

lemma calls_lives:
  assumes "api_server E cur past" "lives L cur past w0 w"
  shows "life_allows L MayCreate \<Longrightarrow> lives L cur past w0 (snd (kube_create E (newobj n sp) w))"
    "a \<in> past w n \<Longrightarrow> life_allows L (MaySetNode (Node st)) \<Longrightarrow> lives L cur past w0 (snd (kube_update E (a\<lparr>Status := st\<rparr>) w))"
    "a \<in> past w n \<Longrightarrow> DeletionTimestamp (Meta a) \<noteq> None \<Longrightarrow> Node (Status a) = [] \<Longrightarrow> life_allows L MayRelease \<Longrightarrow>
       lives L cur past w0 (snd (kube_update E (a\<lparr>Meta := (Meta a)\<lparr>Finalizers := []\<rparr>\<rparr>) w))"
    "life_allows L MayMark \<Longrightarrow> lives L cur past w0 (snd (kube_delete E x w))"
  using create_lives [OF assms] update_status_lives [OF assms] release_lives [OF assms] delete_lives [OF assms] by simp_all

interpretation own: store_client E "\<lambda>w. api_server E cur past \<and> lives L cur past w0 w" "\<lambda>n a w. a \<in> past w n" "life_allows L"
  by unfold_locales (auto intro: world_frame.calls [OF lives_frame] calls_lives update_past dest: get_lives(2))

section \<open>Handlers among others\<close>

text \<open>A world together with what others will do to it: before each call the first of these actions
  happens.\<close>

type_synonym 'w shared = "'w \<times> ('w \<Rightarrow> 'w) list"

fun meanwhile :: "'w shared \<Rightarrow> 'w shared" where
  "meanwhile (w, []) = (w, [])"
| "meanwhile (w, f # fs) = (f w, fs)"

definition among :: "('w \<Rightarrow> 'r \<times> 'w) \<Rightarrow> 'w shared \<Rightarrow> 'r \<times> 'w shared" where
  "among g s = (case meanwhile s of (w, fs) \<Rightarrow> (fst (g w), snd (g w), fs))"

definition interleaved :: "'w env \<Rightarrow> 'w shared env" where
  "interleaved E = \<lparr>
     kube_get = (\<lambda>n. among (kube_get E n)), kube_list = among (kube_list E), kube_create = (\<lambda>x. among (kube_create E x)),
     kube_update = (\<lambda>x. among (kube_update E x)), kube_delete = (\<lambda>x. among (kube_delete E x)),
     node_get = (\<lambda>n. among (node_get E n)), node_list = among (node_list E), node_update = (\<lambda>x. among (node_update E x)),
     sc_get = (\<lambda>n. among (sc_get E n)), secret_get = (\<lambda>ns n. among (secret_get E ns n)), find_dns = among (find_dns E),
     lookup_host = (\<lambda>h d. among (lookup_host E h d)), run_cmd = (\<lambda>c as. among (run_cmd E c as)),
     http_do = (\<lambda>r. among (http_do E r)), new_uuid = among (new_uuid E),
     likely_not_mnt = (\<lambda>p. among (likely_not_mnt E p)), not_mnt = (\<lambda>p. among (not_mnt E p)),
     mkdir_all = (\<lambda>p. among (mkdir_all E p)), format_mount = (\<lambda>d t f os. among (format_mount E d t f os)),
     umount = (\<lambda>p. among (umount E p)), remove_all = (\<lambda>p. among (remove_all E p))\<rparr>"

text \<open>An action that follows the rules, and a world whose schedule has only such actions.\<close>

definition follows :: "(vol \<Rightarrow> vol \<Rightarrow> bool) \<Rightarrow> 'w current \<Rightarrow> 'w history \<Rightarrow> ('w \<Rightarrow> 'w) \<Rightarrow> bool" where
  "follows L cur past f \<longleftrightarrow> (\<forall>w. guarded past w \<longrightarrow> lives L cur past w (f w))"

definition lives_among :: "(vol \<Rightarrow> vol \<Rightarrow> bool) \<Rightarrow> 'w current \<Rightarrow> 'w history \<Rightarrow> 'w \<Rightarrow> 'w shared \<Rightarrow> bool" where
  "lives_among L cur past w0 s \<longleftrightarrow> lives L cur past w0 (fst s) \<and> (\<forall>f \<in> set (snd s). follows L cur past f)"

lemma lives_trans: "lives L cur past u v \<Longrightarrow> lives L cur past v w \<Longrightarrow> lives L cur past u w"
  by (auto simp: lives_def)

lemma lives_meanwhile:
  assumes "lives_among L cur past w0 s"
  shows "lives_among L cur past w0 (meanwhile s)"
  using assms
proof (cases s rule: meanwhile.cases)
  case (2 w f fs)
  then show ?thesis using assms lives_trans [of L cur past w0 w "f w"] by (auto simp: lives_among_def follows_def lives_def)
qed simp

lemma among_lives:
  assumes "lives_among L cur past w0 s" "\<And>w. lives L cur past w0 w \<Longrightarrow> lives L cur past w0 (snd (g w))"
  shows "lives_among L cur past w0 (snd (among g s))"
  using lives_meanwhile [OF assms(1)] assms(2) by (auto simp: among_def lives_among_def split: prod.splits)

lemma past_meanwhile: "lives_among L cur past w0 s \<Longrightarrow> a \<in> past (fst s) n \<Longrightarrow> a \<in> past (fst (meanwhile s)) n"
  by (cases s rule: meanwhile.cases) (auto simp: lives_among_def follows_def lives_def subset_iff)

text \<open>The actions of others do not matter: the handlers keep to the life in between as well.\<close>

interpretation amid: store_client "interleaved E" "\<lambda>s. api_server E cur past \<and> lives_among L cur past w0 s"
  "\<lambda>n a s. a \<in> past (fst s) n" "life_allows L"
proof unfold_locales
  fix s n a s'
  assume s: "api_server E cur past \<and> lives_among L cur past w0 s" "kube_get (interleaved E) n s = (Inr a, s')"
  obtain w fs where m: "meanwhile s = (w, fs)" by (cases "meanwhile s")
  have lv: "lives L cur past w0 w" using lives_meanwhile [of L cur past w0 s] s(1) m by (simp add: lives_among_def)
  have "kube_get E n w = (Inr a, fst s')" using s(2) m by (cases "kube_get E n w") (auto simp: interleaved_def among_def)
  from get_lives(2) [OF _ lv this] s(1) show "a \<in> past (fst s') n" by simp
next
  fix s n a x
  assume "api_server E cur past \<and> lives_among L cur past w0 s" "a \<in> past (fst s) n"
  then show "a \<in> past (fst (snd (kube_update (interleaved E) x s))) n"
    using past_meanwhile [of L cur past w0 s a n] update_past [of E cur past a _ n x]
    by (auto simp: interleaved_def among_def split: prod.splits)
next
  fix s n a and st :: CsiAlcubStatus
  assume s: "api_server E cur past \<and> lives_among L cur past w0 s" "a \<in> past (fst s) n" "life_allows L (MaySetNode (Node st))"
  show "api_server E cur past \<and> lives_among L cur past w0 (snd (kube_update (interleaved E) (a\<lparr>Status := st\<rparr>) s))"
    using lives_meanwhile [of L cur past w0 s] past_meanwhile [of L cur past w0 s a n] s calls_lives(2) [of E cur past L w0 _ a n st]
    by (auto simp: interleaved_def among_def lives_among_def split: prod.splits)
next
  fix s n and a :: CsiAlcub
  assume s: "api_server E cur past \<and> lives_among L cur past w0 s" "a \<in> past (fst s) n" "DeletionTimestamp (Meta a) \<noteq> None"
    "Node (Status a) = []" "life_allows L MayRelease"
  show "api_server E cur past \<and> lives_among L cur past w0 (snd (kube_update (interleaved E) (a\<lparr>Meta := (Meta a)\<lparr>Finalizers := []\<rparr>\<rparr>) s))"
    using lives_meanwhile [of L cur past w0 s] past_meanwhile [of L cur past w0 s a n] s calls_lives(3) [of E cur past L w0 _ a n]
    by (auto simp: interleaved_def among_def lives_among_def split: prod.splits)
qed (auto simp: interleaved_def intro!: among_lives intro: world_frame.calls [OF lives_frame] calls_lives)

section \<open>The system\<close>

text \<open>One controller, its nodes, and the world they share. Each step is a handler, between whose calls
  others act; the argument says what others may do.\<close>

type_synonym 'w sys = "Controller \<times> NodeSrv list \<times> 'w"

inductive sys_step :: "'w env \<Rightarrow> (('w \<Rightarrow> 'w) \<Rightarrow> bool) \<Rightarrow> 'w sys \<Rightarrow> 'w sys \<Rightarrow> bool" for E :: "'w env" and others :: "('w \<Rightarrow> 'w) \<Rightarrow> bool" where
  controller: "ctl_handler (interleaved E) (c, w, fs) (c', w', fs') \<Longrightarrow> list_all others fs \<Longrightarrow> sys_step E others (c, ns, w) (c', ns, w')"
| node: "i < length ns \<Longrightarrow> node_handler (interleaved E) (ns ! i, w, fs) (s', w', fs') \<Longrightarrow> list_all others fs \<Longrightarrow>
    sys_step E others (c, ns, w) (c, ns[i := s'], w')"

inductive_cases sys_stepE: "sys_step E others s s'"

abbreviation sys_run :: "'w env \<Rightarrow> (('w \<Rightarrow> 'w) \<Rightarrow> bool) \<Rightarrow> 'w sys \<Rightarrow> 'w sys \<Rightarrow> bool" where
  "sys_run E others \<equiv> (sys_step E others)\<^sup>*\<^sup>*"

definition world :: "'w sys \<Rightarrow> 'w" where
  "world s = snd (snd s)"

definition sys_inv :: "'w env \<Rightarrow> (('w \<Rightarrow> 'w) \<Rightarrow> bool) \<Rightarrow> 'w current \<Rightarrow> 'w history \<Rightarrow> 'w sys \<Rightarrow> bool" where
  "sys_inv E others cur past s \<longleftrightarrow> api_server E cur past \<and> (\<forall>f. others f \<longrightarrow> follows life cur past f) \<and> guarded past (world s)"

lemma sys_step_lives:
  assumes "sys_step E others s s'" "sys_inv E others cur past s"
  shows "lives life cur past (world s) (world s')"
  using assms(1)
proof cases
  case (controller c w fs c' w' fs' ns)
  then have "lives_among life cur past w (w, fs)"
    using assms(2) lives_refl by (fastforce simp: lives_among_def sys_inv_def world_def list_all_iff)
  then have "lives_among life cur past w (w', fs')"
    using amid.ctl_handler [OF controller(3), of cur past life w, OF _ life_allows_all life_allows_all life_allows_all] assms(2)
    by (simp add: sys_inv_def)
  with controller show ?thesis by (simp add: lives_among_def world_def)
next
  case (node i ns w fs s1 w' fs' c)
  then have "lives_among life cur past w (w, fs)"
    using assms(2) lives_refl by (fastforce simp: lives_among_def sys_inv_def world_def list_all_iff)
  then have "lives_among life cur past w (w', fs')"
    using amid.node_handler [OF node(4), of cur past life w, OF _ life_allows_all life_allows_all] assms(2)
    by (simp add: sys_inv_def)
  with node show ?thesis by (simp add: lives_among_def world_def)
qed

text \<open>The system implements the lives of its volumes.\<close>

interpretation sys: simulation "sys_step E others" "sys_inv E others cur past" "vols_step life" "\<lambda>s. vols cur (world s)"
proof unfold_locales
  fix s s' assume s: "sys_step E others s s'" "sys_inv E others cur past s"
  note lv = sys_step_lives [OF s]
  show "sys_inv E others cur past s'" using lv s(2) by (simp add: sys_inv_def lives_def)
  show "(vols_step life)\<^sup>*\<^sup>* (vols cur (world s)) (vols cur (world s'))" using lv by (simp add: lives_def)
qed

text \<open>And the controller alone only creates, marks and releases.\<close>

interpretation ctl: simulation "ctl_handler E" "\<lambda>s. api_server E cur past \<and> guarded past (snd s)" "vols_step ctl_life"
  "\<lambda>s. vols cur (snd s)"
proof unfold_locales
  fix s s' assume s: "ctl_handler E s s'" "api_server E cur past \<and> guarded past (snd s)"
  have "lives ctl_life cur past (snd s) (snd s')"
    using own.ctl_handler [of E "fst s" "snd s" "fst s'" "snd s'" cur past ctl_life "snd s"] s
      lives_refl [of past "snd s" ctl_life cur] ctl_life_allows by simp
  then show "api_server E cur past \<and> guarded past (snd s')" "(vols_step ctl_life)\<^sup>*\<^sup>* (vols cur (snd s)) (vols cur (snd s'))"
    using s(2) by (auto simp: lives_def)
qed

section \<open>What the lives allow\<close>

lemma life_through:
  assumes "(vols_step life)\<^sup>*\<^sup>* A B" "A n \<noteq> Absent" "B n = Absent"
  shows "\<exists>C. (vols_step life)\<^sup>*\<^sup>* A C \<and> (vols_step life)\<^sup>*\<^sup>* C B \<and> C n = Present True []"
  using assms
proof (induction rule: converse_rtranclp_induct)
  case (step A A1)
  show ?case
  proof (cases "A1 n = Absent")
    case True
    with step.hyps(1) step.prems(1) have "life (A n) Absent" by (auto simp: vols_step_def split: if_splits)
    then have "A n = Present True []" by (auto elim: life_AbsentE ctl_life_AbsentE)
    with step.hyps show ?thesis by (meson converse_rtranclp_into_rtranclp rtranclp.rtrancl_refl)
  next
    case False
    from step.IH [OF False step.prems(2)] step.hyps(1) show ?thesis by (meson converse_rtranclp_into_rtranclp)
  qed
qed simp

lemma ctl_life_keeps:
  assumes "(vols_step ctl_life)\<^sup>*\<^sup>* A B" "A n = Present t m" "m \<noteq> []"
  shows "\<exists>t'. B n = Present t' m \<and> (t \<longrightarrow> t')"
  using assms(1)
proof (induction rule: rtranclp_induct)
  case (step B C)
  then obtain t' where t': "B n = Present t' m" "t \<longrightarrow> t'" by blast
  from step.hyps(2) obtain k v where k: "ctl_life (B k) v" "C = B(k := v)" by (auto simp: vols_step_def)
  show ?case
  proof (cases "k = n")
    case True
    with k t' assms(3) show ?thesis by (auto elim!: ctl_life_cases)
  next
    case False
    with k t' show ?thesis by auto
  qed
qed (use assms(2) in simp)

end
