(* ===== verification/Registry.thy ===== *)
theory Registry
  imports System
begin

text \<open>
  A concrete API server that satisfies \<open>api_server\<close>, for witnesses: the log of the writes is its
  whole state. The other services answer as in the demonstration world.
\<close>

text \<open>The writes, newest first; a version is the number of the writes before, in unary.\<close>

type_synonym reg = "(string \<times> CsiAlcub option) list"

definition ver :: "nat \<Rightarrow> string \<Rightarrow> CsiAlcub \<Rightarrow> CsiAlcub" where
  "ver i n a = a\<lparr>Meta := (Meta a)\<lparr>Name := n, ResourceVersion := replicate i (CHR ''v'')\<rparr>\<rparr>"

fun reg_cur :: "reg \<Rightarrow> string \<Rightarrow> CsiAlcub option" where
  "reg_cur [] n = None"
| "reg_cur ((m, x) # w) n = (if m = n then map_option (ver (length w) n) x else reg_cur w n)"

fun reg_past :: "reg \<Rightarrow> string \<Rightarrow> CsiAlcub set" where
  "reg_past [] n = {}"
| "reg_past ((m, x) # w) n = (if m = n then set_option (map_option (ver (length w) n) x) else {}) \<union> reg_past w n"

definition reg_env :: "reg env" where
  "reg_env = \<lparr>
     kube_get = (\<lambda>n w. (case reg_cur w n of None \<Rightarrow> Inl (ApiErr ReasonNotFound n) | Some a \<Rightarrow> Inr a, w)),
     kube_list = (\<lambda>w. (Inr [], w)),
     kube_create = (\<lambda>x w. (case reg_cur w (Name (Meta x)) of
        Some _ \<Rightarrow> (Some (ApiErr ReasonAlreadyExists (Name (Meta x))), w)
      | None \<Rightarrow> (None, (Name (Meta x), Some (x\<lparr>Meta := (Meta x)\<lparr>DeletionTimestamp := None\<rparr>\<rparr>)) # w))),
     kube_update = (\<lambda>x w. (case reg_cur w (Name (Meta x)) of
        None \<Rightarrow> (Some (ApiErr ReasonNotFound (Name (Meta x))), w)
      | Some b \<Rightarrow>
          if rversion b \<noteq> rversion x then (Some (ApiErr ReasonConflict (Name (Meta x))), w)
          else if DeletionTimestamp (Meta b) \<noteq> None \<and> Finalizers (Meta x) = [] then (None, (Name (Meta x), None) # w)
          else (None, (Name (Meta x), Some (x\<lparr>Meta := (Meta x)\<lparr>DeletionTimestamp := DeletionTimestamp (Meta b)\<rparr>\<rparr>)) # w))),
     kube_delete = (\<lambda>x w. (case reg_cur w (Name (Meta x)) of
        None \<Rightarrow> (Some (ApiErr ReasonNotFound (Name (Meta x))), w)
      | Some b \<Rightarrow>
          if Finalizers (Meta b) = [] then (None, (Name (Meta x), None) # w)
          else (None, (Name (Meta x), Some (b\<lparr>Meta := (Meta b)\<lparr>DeletionTimestamp := Some 1\<rparr>\<rparr>)) # w))),
     node_get = (\<lambda>n w. (Inl (ApiErr ReasonNotFound n), w)),
     node_list = (\<lambda>w. (Inr [demo_node], w)),
     node_update = (\<lambda>x w. (None, w)),
     sc_get = (\<lambda>n w. (Inr (Some [(''monitors'', ''10.0.0.9:6789''), (''adminSecretName'', ''ceph'')]), w)),
     secret_get = (\<lambda>ns n w. (Inr (Some [(''key'', ''s3cret'')]), w)),
     find_dns = (\<lambda>w. (''10.96.0.10'', w)),
     lookup_host = (\<lambda>h d w. (Inr [''10.0.0.9''], w)),
     run_cmd = (\<lambda>c as w. (\<lparr>Out = (if c = ''rados'' then ''http://10.0.0.1'' else ''Watchers: none''),
        Deadline = False, CmdErr = None\<rparr>, w)),
     http_do = (\<lambda>q w. (Inr \<lparr>StatusCode = 200, RespBody = Inr (demo_http q)\<rparr>, w)),
     new_uuid = (\<lambda>w. (''u1'', w)),
     likely_not_mnt = (\<lambda>p w. ((True, None), w)),
     not_mnt = (\<lambda>p w. ((True, None), w)),
     mkdir_all = (\<lambda>p w. (None, w)),
     format_mount = (\<lambda>d t f os w. (None, w)),
     umount = (\<lambda>p w. (None, w)),
     remove_all = (\<lambda>p w. (None, w))\<rparr>"

lemma reg_cur_past: "reg_cur w n = Some a \<Longrightarrow> a \<in> reg_past w n"
  by (induction w n rule: reg_cur.induct) (auto split: if_splits)

lemma reg_past_version: "a \<in> reg_past w n \<Longrightarrow> Name (Meta a) = n \<and> length (rversion a) < length w"
  by (induction w n rule: reg_past.induct) (auto simp: ver_def split: if_splits option.splits)

lemma reg_past_unique: "a \<in> reg_past w n \<Longrightarrow> b \<in> reg_past w n \<Longrightarrow> rversion a = rversion b \<Longrightarrow> a = b"
proof (induction w n rule: reg_past.induct)
  case (2 m x w n)
  have l: "length (rversion (ver (length w) n y)) = length w" for y by (simp add: ver_def)
  have e: "length (rversion a) = length (rversion b)" using 2(4) by simp
  consider "a \<in> reg_past w n" "b \<in> reg_past w n" | y where "x = Some y" "a = ver (length w) n y" "b = ver (length w) n y"
    | y where "a = ver (length w) n y" "b \<in> reg_past w n" | y where "b = ver (length w) n y" "a \<in> reg_past w n"
    using 2(2,3) by (cases x) (auto split: if_splits)
  then show ?case
  proof cases
    case 1 then show ?thesis using 2(1,4) by blast
  next
    case 2 then show ?thesis by simp
  next
    case (3 y) then show ?thesis using reg_past_version [of b w n] e l [of y] by auto
  next
    case (4 y) then show ?thesis using reg_past_version [of a w n] e l [of y] by auto
  qed
qed simp

lemma reg_stores: "stores reg_cur reg_past w ((n, x) # w) n (map_option (ver (length w) n) x)"
  by (auto simp: stores_def fun_eq_iff)

lemma reg_same: "same_store reg_cur reg_past w w"
  by (simp add: same_store_def)

lemma ver_simps [simp]: "Name (Meta (ver i n a)) = n" "Finalizers (Meta (ver i n a)) = Finalizers (Meta a)"
  "DeletionTimestamp (Meta (ver i n a)) = DeletionTimestamp (Meta a)" "Spec (ver i n a) = Spec a" "Status (ver i n a) = Status a"
  by (simp_all add: ver_def)

lemma reg_create: "may_create reg_cur reg_past x w (snd (kube_create reg_env x w))"
proof (cases "reg_cur w (Name (Meta x))")
  case None
  let ?y = "x\<lparr>Meta := (Meta x)\<lparr>DeletionTimestamp := None\<rparr>\<rparr>"
  have "\<exists>a. stored_as x a \<and> DeletionTimestamp (Meta a) = None
    \<and> stores reg_cur reg_past w ((Name (Meta x), Some ?y) # w) (Name (Meta x)) (Some a)"
    by (rule exI [of _ "ver (length w) (Name (Meta x)) ?y"])
      (use reg_stores [of w "Name (Meta x)" "Some ?y"] in \<open>simp add: stored_as_def\<close>)
  with None show ?thesis by (simp add: may_create_def reg_env_def)
qed (simp add: may_create_def reg_env_def reg_same)

lemma reg_update: "may_update reg_cur reg_past x w (snd (kube_update reg_env x w))"
proof (cases "reg_cur w (Name (Meta x))")
  case (Some b)
  let ?y = "x\<lparr>Meta := (Meta x)\<lparr>DeletionTimestamp := DeletionTimestamp (Meta b)\<rparr>\<rparr>"
  have "\<exists>a. stored_as x a \<and> DeletionTimestamp (Meta a) = DeletionTimestamp (Meta b)
    \<and> stores reg_cur reg_past w ((Name (Meta x), Some ?y) # w) (Name (Meta x)) (Some a)"
    by (rule exI [of _ "ver (length w) (Name (Meta x)) ?y"])
      (use reg_stores [of w "Name (Meta x)" "Some ?y"] in \<open>simp add: stored_as_def\<close>)
  with Some show ?thesis using reg_stores [of w "Name (Meta x)" None] reg_same
    by (auto simp: may_update_def reg_env_def)
qed (simp add: may_update_def reg_env_def reg_same)

lemma reg_delete: "may_delete reg_cur reg_past x w (snd (kube_delete reg_env x w))"
proof (cases "reg_cur w (Name (Meta x))")
  case (Some b)
  let ?y = "b\<lparr>Meta := (Meta b)\<lparr>DeletionTimestamp := Some 1\<rparr>\<rparr>"
  have "\<exists>a. stored_as b a \<and> DeletionTimestamp (Meta a) \<noteq> None
    \<and> stores reg_cur reg_past w ((Name (Meta x), Some ?y) # w) (Name (Meta x)) (Some a)"
    by (rule exI [of _ "ver (length w) (Name (Meta x)) ?y"])
      (use reg_stores [of w "Name (Meta x)" "Some ?y"] reg_past_version [OF reg_cur_past [OF Some]] in \<open>simp add: stored_as_def\<close>)
  with Some show ?thesis using reg_stores [of w "Name (Meta x)" None]
    by (auto simp: may_delete_def reg_env_def)
qed (simp add: may_delete_def reg_env_def reg_same)

lemma reg_get: "fst (kube_get reg_env n w) = Inr a \<Longrightarrow> a \<in> reg_past w n"
  by (auto simp: reg_env_def intro: reg_cur_past split: option.splits)

lemma reg_api: "api_server reg_env reg_cur reg_past"
  unfolding api_server_def
proof (intro conjI allI)
  show "world_frame reg_env (same_store reg_cur reg_past w0)" for w0
    by unfold_locales (simp_all add: reg_env_def)
qed (auto simp: reg_create reg_update reg_delete reg_cur_past reg_get dest: reg_past_version intro: reg_past_unique)

section \<open>A marked resource\<close>

text \<open>The resource \<open>pvc-1\<close>, marked for deletion, of a volume attached to a given node or to none.\<close>

definition demo_reg :: "string \<Rightarrow> reg" where
  "demo_reg m = [(''pvc-1'', Some (demo_obj\<lparr>Meta := (Meta demo_obj)\<lparr>DeletionTimestamp := Some 1\<rparr>, Status := zero_status\<lparr>Node := m\<rparr>\<rparr>)),
     (''pvc-1'', Some demo_obj)]"

lemma demo_guarded: "guarded reg_past (demo_reg m)"
  by (auto simp: guarded_def demo_reg_def demo_obj_def)

lemma demo_reg_vols: "vols reg_cur (demo_reg m) ''pvc-1'' = Present True m"
  by (simp add: vols_def demo_reg_def)

end
