(* ===== verification/Lifecycle.thy ===== *)
theory Lifecycle
  imports Registry
begin

text \<open>
  What happens when nothing goes wrong. \<open>reliable\<close> describes an API server nobody else uses and
  whose reads are fresh: reading gives the stored resource, an update at its version and a deletion are
  answered without an error and applied. Against such a server the successful calls of a volume's life,
  from its creation to the release of its resource, take the resource through the states of
  \<open>System\<close> one after the other.
\<close>

section \<open>A reliable API server\<close>

definition reliable :: "'w env \<Rightarrow> 'w current \<Rightarrow> 'w history \<Rightarrow> bool" where
  "reliable E cur past \<longleftrightarrow> api_server E cur past
     \<and> (\<forall>w n. fst (kube_get E n w) = (case cur w n of None \<Rightarrow> Inl (ApiErr ReasonNotFound n) | Some a \<Rightarrow> Inr a))
     \<and> (\<forall>x w. fst (kube_create E x w) = None \<longrightarrow>
          (\<exists>a. cur (snd (kube_create E x w)) (Name (Meta x)) = Some a \<and> stored_as x a \<and> DeletionTimestamp (Meta a) = None))
     \<and> (\<forall>x w b. cur w (Name (Meta x)) = Some b \<and> rversion b = rversion x \<longrightarrow> fst (kube_update E x w) = None
          \<and> (if DeletionTimestamp (Meta b) \<noteq> None \<and> Finalizers (Meta x) = [] then cur (snd (kube_update E x w)) (Name (Meta x)) = None
             else \<exists>a. cur (snd (kube_update E x w)) (Name (Meta x)) = Some a \<and> stored_as x a
               \<and> DeletionTimestamp (Meta a) = DeletionTimestamp (Meta b)))
     \<and> (\<forall>x w b. cur w (Name (Meta x)) = Some b \<and> Finalizers (Meta b) \<noteq> [] \<longrightarrow> fst (kube_delete E x w) = None
          \<and> (\<exists>a. cur (snd (kube_delete E x w)) (Name (Meta x)) = Some a \<and> stored_as b a \<and> DeletionTimestamp (Meta a) \<noteq> None))"

lemma reliable_api: "reliable E cur past \<Longrightarrow> api_server E cur past"
  by (simp add: reliable_def)

lemma retry_first: "fst (f w) = None \<Longrightarrow> RetryOnConflict DefaultRetry f w = (None, snd (f w))"
  by (cases "f w") (simp add: RetryOnConflict_attempts DefaultRetry_def numeral_eq_Suc)

lemma stored_name: "reliable E cur past \<Longrightarrow> cur w n = Some a \<Longrightarrow> Name (Meta a) = n"
  using reliable_api [of E cur past] unfolding api_server_def by blast

lemma rel_create:
  assumes "reliable E cur past" "fst (kube_create E x w) = None"
  obtains a where "cur (snd (kube_create E x w)) (Name (Meta x)) = Some a" "stored_as x a" "DeletionTimestamp (Meta a) = None"
  using assms unfolding reliable_def by blast

lemma rel_update:
  assumes "reliable E cur past" "cur w (Name (Meta x)) = Some b" "rversion b = rversion x"
  shows "fst (kube_update E x w) = None"
    "DeletionTimestamp (Meta b) \<noteq> None \<Longrightarrow> Finalizers (Meta x) = [] \<Longrightarrow> cur (snd (kube_update E x w)) (Name (Meta x)) = None"
    "Finalizers (Meta x) \<noteq> [] \<Longrightarrow> \<exists>a. cur (snd (kube_update E x w)) (Name (Meta x)) = Some a \<and> stored_as x a
       \<and> DeletionTimestamp (Meta a) = DeletionTimestamp (Meta b)"
proof -
  have "fst (kube_update E x w) = None
          \<and> (if DeletionTimestamp (Meta b) \<noteq> None \<and> Finalizers (Meta x) = [] then cur (snd (kube_update E x w)) (Name (Meta x)) = None
             else \<exists>a. cur (snd (kube_update E x w)) (Name (Meta x)) = Some a \<and> stored_as x a
               \<and> DeletionTimestamp (Meta a) = DeletionTimestamp (Meta b))"
    using assms unfolding reliable_def by blast
  then show "fst (kube_update E x w) = None"
    "DeletionTimestamp (Meta b) \<noteq> None \<Longrightarrow> Finalizers (Meta x) = [] \<Longrightarrow> cur (snd (kube_update E x w)) (Name (Meta x)) = None"
    "Finalizers (Meta x) \<noteq> [] \<Longrightarrow> \<exists>a. cur (snd (kube_update E x w)) (Name (Meta x)) = Some a \<and> stored_as x a
       \<and> DeletionTimestamp (Meta a) = DeletionTimestamp (Meta b)" by simp_all
qed

lemma rel_delete:
  assumes "reliable E cur past" "cur w (Name (Meta x)) = Some b" "Finalizers (Meta b) \<noteq> []"
  shows "fst (kube_delete E x w) = None \<and> (\<exists>a. cur (snd (kube_delete E x w)) (Name (Meta x)) = Some a \<and> stored_as b a
    \<and> DeletionTimestamp (Meta a) \<noteq> None)"
  using assms unfolding reliable_def by blast

lemma read_fresh:
  assumes "reliable E cur past"
  obtains w1 where "kube_get E n w = (case cur w n of None \<Rightarrow> Inl (ApiErr ReasonNotFound n) | Some a \<Rightarrow> Inr a, w1)" "cur w1 = cur w"
proof -
  have "same_store cur past w (snd (kube_get E n w))"
    using assms world_frame.calls(1) [of E "same_store cur past w" w n] by (auto simp: reliable_def api_server_def same_store_def)
  with assms show thesis by (intro that [of "snd (kube_get E n w)"]) (auto simp: reliable_def same_store_def prod_eq_iff)
qed

text \<open>Operations that do not write keep the store.\<close>

lemma calls_still:
  assumes "reliable E cur past"
  shows "world_frame E (\<lambda>w. cur w = m)"
proof -
  have f: "world_frame E (same_store cur past w)" for w using assms by (auto simp: reliable_def api_server_def)
  have r: "same_store cur past w w" for w by (simp add: same_store_def)
  have c: "cur w' = m" if "cur w = m" "same_store cur past w w'" for w w' using that by (simp add: same_store_def)
  show ?thesis by unfold_locales (rule c, assumption, rule world_frame.calls [OF f r])+
qed

interpretation still: world_frame E "\<lambda>w. reliable E cur past \<and> cur w = m"
  by unfold_locales (auto intro: world_frame.calls [OF calls_still])

section \<open>The operations of the manager\<close>

lemma Update_sets:
  assumes rel: "reliable E cur past" and "cur w n = Some a" "Finalizers (Meta a) \<noteq> []" "AlcubCon_Update E n None (Some st) w = (e, w')"
  shows "e = None \<and> (\<exists>b. cur w' n = Some b \<and> Status b = st \<and> Spec b = Spec a \<and> Finalizers (Meta b) = Finalizers (Meta a)
    \<and> DeletionTimestamp (Meta b) = DeletionTimestamp (Meta a))"
proof -
  obtain w1 where w1: "kube_get E n w = (Inr a, w1)" "cur w1 = cur w" using read_fresh [OF rel, of n w] assms(2) by auto
  let ?x = "a\<lparr>Status := st\<rparr>"
  have n: "Name (Meta a) = n" by (rule stored_name [OF rel assms(2)])
  have u: "fst (kube_update E ?x w1) = None \<and> (\<exists>b. cur (snd (kube_update E ?x w1)) n = Some b \<and> stored_as ?x b
      \<and> DeletionTimestamp (Meta b) = DeletionTimestamp (Meta a))"
    using rel_update(1,3) [OF rel, of w1 ?x a] assms(2,3) w1(2) n by simp
  with w1 assms(4) show ?thesis by (auto simp: AlcubCon_Update_def retry_first stored_as_def Let_def)
qed

lemma Delete_marks:
  assumes rel: "reliable E cur past" and "cur w n = Some a" "Finalizers (Meta a) \<noteq> []" "AlcubCon_Delete E n w = (e, w')"
  shows "e = None \<and> (\<exists>b. cur w' n = Some b \<and> stored_as a b \<and> DeletionTimestamp (Meta b) \<noteq> None)"
proof -
  obtain w1 where w1: "kube_get E n w = (Inr a, w1)" "cur w1 = cur w" using read_fresh [OF rel, of n w] assms(2) by auto
  have n: "Name (Meta a) = n" by (rule stored_name [OF rel assms(2)])
  have "fst (kube_delete E a w1) = None \<and> (\<exists>b. cur (snd (kube_delete E a w1)) n = Some b \<and> stored_as a b \<and> DeletionTimestamp (Meta b) \<noteq> None)"
    using rel_delete [OF rel, of w1 a a] assms(2,3) w1(2) n by simp
  with w1 assms(4) show ?thesis by (auto simp: AlcubCon_Delete_def retry_first)
qed

lemma Reconcile_releases:
  assumes rel: "reliable E cur past" and "cur w n = Some a" "DeletionTimestamp (Meta a) \<noteq> None" "Node (Status a) = []"
    and "AlcubCon_Reconcile E n al w = (e, al', w')"
  shows "e = None \<and> cur w' n = None"
proof -
  obtain w1 where w1: "kube_get E n w = (Inr a, w1)" "cur w1 = cur w" using read_fresh [OF rel, of n w] assms(2) by auto
  let ?x = "a\<lparr>Meta := (Meta a)\<lparr>Finalizers := []\<rparr>\<rparr>"
  have n: "Name (Meta a) = n" by (rule stored_name [OF rel assms(2)])
  have "fst (kube_update E ?x w1) = None \<and> cur (snd (kube_update E ?x w1)) n = None"
    using rel_update(1,2) [OF rel, of w1 ?x a] assms(2,3) w1(2) n by simp
  with w1 assms(3-5) show ?thesis by (auto simp: AlcubCon_Reconcile_def validBeDelete_def retry_first)
qed

lemma Reconcile_keeps:
  assumes rel: "reliable E cur past" and "cur w n = Some a" "DeletionTimestamp (Meta a) = None"
    and "AlcubCon_Reconcile E n al w = (e, al', w')"
  shows "e = None \<and> cur w' = cur w \<and> (uuidname al (Uuid (Spec a)) = None \<longrightarrow> getNameByuuid (Uuid (Spec a)) al' = n)"
proof -
  obtain w1 where w1: "kube_get E n w = (Inr a, w1)" "cur w1 = cur w" using read_fresh [OF rel, of n w] assms(2) by auto
  have "Name (Meta a) = n" by (rule stored_name [OF rel assms(2)])
  with w1 assms(3,4) show ?thesis
    by (auto simp: AlcubCon_Reconcile_def frame_simps reverseUuid_def) (simp_all add: getNameByuuid_def)
qed


lemma GetByUuid_fresh:
  assumes rel: "reliable E cur past" and "AlcubCon_GetByUuid E u al w = (x, w')" "getNameByuuid u al = n" "cur w n = Some a"
  shows "cur w' = cur w \<and> (x = None \<or> x = Some a)"
proof -
  obtain w1 where "kube_get E n w = (Inr a, w1)" "cur w1 = cur w" using read_fresh [OF rel, of n w] assms(4) by auto
  with assms(2,3) show ?thesis by (auto simp: AlcubCon_GetByUuid_def AlcubCon_GetByName_def Let_def split: if_splits)
qed

section \<open>The handlers\<close>

lemma CreateVolume_stores:
  assumes rel: "reliable E cur past" and "cur w (req_Name req) = None" "CreateVolume E req c w = (Inr v, c', w')"
  shows "\<exists>a. cur w' (req_Name req) = Some a \<and> Status a = zero_status \<and> Finalizers (Meta a) \<noteq> [] \<and> DeletionTimestamp (Meta a) = None
    \<and> Uuid (Spec a) = VolumeId v \<and> req_Name req \<noteq> [] \<and> getNameByuuid (VolumeId v) (c_alcub c') = req_Name req"
proof -
  let ?n = "req_Name req"
  have n: "?n \<noteq> []" using assms(3) by (auto simp: CreateVolume_def create_check_def split: if_splits option.splits)
  obtain w1 where "kube_get E ?n w = (Inl (ApiErr ReasonNotFound ?n), w1)" using read_fresh [OF rel, of ?n w] assms(2) by auto
  with assms(3) have "create_new E req (GetRequiredBytes (CapacityRange req)) c w1 = (Inr v, c', w')"
    by (auto simp: CreateVolume_def AlcubCon_GetByName_def Let_def split: option.splits if_splits)
  then obtain w2 sp where "createVolume E (Parameters req) ?n (VolumeId v) (GetRequiredBytes (CapacityRange req)) c w2 = ((sp, None), c', w')"
    by (auto simp: create_new_def split: option.splits prod.splits if_splits)
  then obtain s w3 where cr: "AlcubCon_Create E ?n (Some s) (c_alcub c) w3 = (None, c_alcub c', w')" "Uuid s = VolumeId v"
    by (auto simp: createVolume_def Let_def split: option.splits prod.splits if_splits sum.splits)
  then have k: "fst (kube_create E (newobj ?n s) w3) = None" "w' = snd (kube_create E (newobj ?n s) w3)"
    by (auto simp: AlcubCon_Create_def split: option.splits prod.splits)
  have i: "getNameByuuid (VolumeId v) (c_alcub c') = ?n"
    using cr by (auto simp: AlcubCon_Create_def reverseUuid_def split: option.splits prod.splits if_splits
        dest!: sym [of _ "c_alcub c'"]) (simp_all add: getNameByuuid_def)
  from rel_create [OF rel k(1)] obtain a where "cur w' ?n = Some a" "stored_as (newobj ?n s) a" "DeletionTimestamp (Meta a) = None"
    using k(2) by (auto simp: newobj_def)
  with n i cr(2) show ?thesis by (auto simp: stored_as_def newobj_def finalizers_def)
qed

lemma NodePublish_attaches:
  assumes rel: "reliable E cur past" and "getNameByuuid (np_VolumeId req) (n_alcub s) = n" "cur w n = Some a" "Finalizers (Meta a) \<noteq> []"
    and pub: "NodePublishVolume E req s w = (None, s', w')"
  shows "\<exists>b. cur w' n = Some b \<and> Node (Status b) = n_nodename s \<and> Spec b = Spec a \<and> Finalizers (Meta b) \<noteq> []
    \<and> DeletionTimestamp (Meta b) = DeletionTimestamp (Meta a)"
proof -
  have nm: "Name (Meta a) = n" by (rule stored_name [OF rel assms(3)])
  obtain x w1 where x: "AlcubCon_GetByUuid E (np_VolumeId req) (n_alcub s) w = (x, w1)" by fastforce
  with pub have "x = Some a" "cur w1 = cur w"
    using GetByUuid_fresh [OF rel x assms(2,3)] by (auto simp: NodePublishVolume_def split: option.splits)
  with pub x obtain dev ns s1 w2 w3 where p: "preMountValid E a s w1 = (Inr (dev, ns), s1, w2)" "mount_body E req dev w2 = (None, w3)"
    "mount_success E a dev ns s1 w3 = (None, s', w')"
    by (auto simp: NodePublishVolume_def split: option.splits prod.splits sum.splits)
  have "cur w2 = cur w" using still.preMountValid [OF conjI [OF rel \<open>cur w1 = cur w\<close>], of a s] p(1) by simp
  then have "cur w3 = cur w" using still.mount_body [OF conjI [OF rel], of w2 "cur w" req dev] p(2) by simp
  moreover have "n_nodename s1 = n_nodename s" by (rule own.preMount_name [OF p(1)])
  ultimately show ?thesis
    using p(3) Update_sets [OF rel _ assms(4), of w3 n "mount_status s1 dev ns (Status a)" None w'] assms(3,4) nm
    by (auto simp: mount_success_def mount_status_def Let_def split: prod.splits)
qed

lemma DeleteVolume_marks:
  assumes rel: "reliable E cur past" and "getNameByuuid vid (c_alcub c) = n" "cur w n = Some a" "Finalizers (Meta a) \<noteq> []" "vid \<noteq> []" "n \<noteq> []"
    and del: "DeleteVolume E vid c w = (None, c', w')"
  shows "\<exists>b. cur w' n = Some b \<and> stored_as a b \<and> DeletionTimestamp (Meta b) \<noteq> None"
proof -
  have nm: "Name (Meta a) = n" by (rule stored_name [OF rel assms(3)])
  obtain x w1 where x: "AlcubCon_GetByUuid E vid (c_alcub c) w = (x, w1)" by fastforce
  obtain u where "kube_get E n w = (Inr a, u)" using read_fresh [OF rel, of n w] assms(3) by auto
  with x assms(2,5,6) have "x = Some a" by (auto simp: AlcubCon_GetByUuid_def AlcubCon_GetByName_def Let_def)
  with del x obtain r1 w2 where d: "Rbd_DeleteImage E (c_rbd c) (RbdSc (Spec a)) (Image (Spec a)) w1 = (None, r1, w2)"
    "AlcubCon_Delete E n w2 = (None, w')"
    using nm by (auto simp: DeleteVolume_def deleteVolume_def split: option.splits prod.splits)
  have "cur w2 = cur w"
    using still.Rbd_DeleteImage [OF conjI [OF rel conjunct1 [OF GetByUuid_fresh [OF rel x assms(2,3)]]],
        of "c_rbd c" "RbdSc (Spec a)" "Image (Spec a)"] d(1) by auto
  then show ?thesis using Delete_marks [OF rel _ assms(4) d(2)] assms(3) by simp
qed

lemma NodeUnpublish_detaches:
  assumes rel: "reliable E cur past" and "getNameByuuid (nu_VolumeId req) (n_alcub s) = n" "cur w n = Some a" "Finalizers (Meta a) \<noteq> []"
    and un: "NodeUnpublishVolume E req s w = (None, s', w')"
  shows "\<exists>b. cur w' n = Some b \<and> Node (Status b) = [] \<and> Spec b = Spec a \<and> Finalizers (Meta b) \<noteq> []
    \<and> DeletionTimestamp (Meta b) = DeletionTimestamp (Meta a)"
proof -
  have nm: "Name (Meta a) = n" by (rule stored_name [OF rel assms(3)])
  obtain x w1 where x: "AlcubCon_GetByUuid E (nu_VolumeId req) (n_alcub s) w = (x, w1)" by fastforce
  with un have "x = Some a" "cur w1 = cur w"
    using GetByUuid_fresh [OF rel x assms(2,3)] by (auto simp: NodeUnpublishVolume_def split: option.splits)
  with un x obtain w2 s1 w3 where p: "unmount_body E (nu_TargetPath req) w1 = (None, w2)" "detachDevice E a s w2 = (None, s1, w3)"
    "AlcubCon_Update E (Name (Meta a)) None (Some ((Status a)\<lparr>Node := []\<rparr>)) w3 = (None, w')"
    by (auto simp: NodeUnpublishVolume_def unmount_success_def split: option.splits prod.splits)
  have "cur w2 = cur w" using still.unmount_body [OF conjI [OF rel \<open>cur w1 = cur w\<close>], of "nu_TargetPath req"] p(1) by simp
  then have "cur w3 = cur w" using still.detachDevice [OF conjI [OF rel], of w2 "cur w" a s] p(2) by simp
  then show ?thesis using Update_sets [OF rel _ assms(4) p(3) [unfolded nm]] assms(3,4) by auto
qed


lemma NodePublish_index: "NodePublishVolume E req s w = (r, s', w') \<Longrightarrow> n_alcub s' = n_alcub s"
  by (auto simp: NodePublishVolume_def preMountValid_def attachDevice_def mount_failed_def detachDevice_def mount_success_def
      split: option.splits prod.splits sum.splits if_splits)

section \<open>A whole life\<close>

text \<open>C7: From creation to release. Against a reliable API server a volume that is created, seen by a node,
  published there, deleted, unpublished and then reconciled, each call with success, goes through these
  states one after the other: without a resource, unattached, attached to that node, attached and marked,
  marked and unattached, and again without a resource.\<close>

theorem volume_life_cycle:
  assumes rel: "reliable E cur past" and absent: "cur w0 n = None"
    and create: "CreateVolume E req c w0 = (Inr v, c1, w1)" "req_Name req = n"
    and seen: "AlcubCon_Reconcile E n (n_alcub s) w1 = (e, al, w2)" "uuidname (n_alcub s) (VolumeId v) = None"
    and publish: "NodePublishVolume E pub (s\<lparr>n_alcub := al\<rparr>) w2 = (None, s1, w3)" "np_VolumeId pub = VolumeId v"
    and delete: "DeleteVolume E (VolumeId v) c1 w3 = (None, c2, w4)"
    and unpublish: "NodeUnpublishVolume E unpub s1 w4 = (None, s2, w5)" "nu_VolumeId unpub = VolumeId v"
    and reconcile: "AlcubCon_Reconcile E n (c_alcub c2) w5 = (e', al', w6)"
  shows "map (\<lambda>w. vols cur w n) [w0, w1, w2, w3, w4, w5, w6] =
      [Absent, Present False [], Present False [], Present False (n_nodename s), Present True (n_nodename s), Present True [], Absent]
    \<and> e = None \<and> e' = None"
proof -
  obtain a1 where a1: "cur w1 n = Some a1" "Status a1 = zero_status" "Finalizers (Meta a1) \<noteq> []" "DeletionTimestamp (Meta a1) = None"
    "Uuid (Spec a1) = VolumeId v" "n \<noteq> []" "getNameByuuid (VolumeId v) (c_alcub c1) = n"
    using CreateVolume_stores [OF rel _ create(1)] absent create(2) by auto
  have a2: "e = None" "cur w2 = cur w1" "getNameByuuid (VolumeId v) al = n"
    using Reconcile_keeps [OF rel a1(1,4) seen(1)] seen(2) a1(5) by auto
  obtain a3 where a3: "cur w3 n = Some a3" "Node (Status a3) = n_nodename s" "Finalizers (Meta a3) \<noteq> []" "DeletionTimestamp (Meta a3) = None"
    using NodePublish_attaches [OF rel _ _ a1(3) publish(1), of n] a1(1,4) a2(2,3) publish(2) by auto
  have vid: "VolumeId v \<noteq> []"
    using publish by (auto simp: NodePublishVolume_def publish_check_def split: option.splits if_splits)
  obtain a4 where a4: "cur w4 n = Some a4" "stored_as a3 a4" "DeletionTimestamp (Meta a4) \<noteq> None"
    using DeleteVolume_marks [OF rel a1(7) a3(1,3) vid a1(6) delete] by auto
  have idx: "getNameByuuid (nu_VolumeId unpub) (n_alcub s1) = n"
    using NodePublish_index [OF publish(1)] a2(3) unpublish(2) by simp
  have "Finalizers (Meta a4) \<noteq> []" using a3(3) a4(2) by (simp add: stored_as_def)
  then obtain a5 where a5: "cur w5 n = Some a5" "Node (Status a5) = []" "DeletionTimestamp (Meta a5) \<noteq> None"
    using NodeUnpublish_detaches [OF rel idx a4(1) _ unpublish(1)] a4(3) by auto
  have a6: "e' = None" "cur w6 n = None" using Reconcile_releases [OF rel a5(1,3,2) reconcile] by auto
  have "Node (Status a4) = n_nodename s" using a3(2) a4(2) by (simp add: stored_as_def)
  with absent a1(1,2,4) a2(1,2) a3(1,2,4) a4(1,3) a5 a6 show ?thesis by (simp add: vols_def zero_status_def)
qed


section \<open>Witness\<close>

lemma reg_reliable: "reliable reg_env reg_cur reg_past"
  unfolding reliable_def
proof (intro conjI allI impI)
  show "api_server reg_env reg_cur reg_past" by (rule reg_api)
  show "fst (kube_get reg_env n w) = (case reg_cur w n of None \<Rightarrow> Inl (ApiErr ReasonNotFound n) | Some a \<Rightarrow> Inr a)" for w n
    by (simp add: reg_env_def)
next
  fix x :: CsiAlcub and w :: reg assume "fst (kube_create reg_env x w) = None"
  then show "\<exists>a. reg_cur (snd (kube_create reg_env x w)) (Name (Meta x)) = Some a \<and> stored_as x a \<and> DeletionTimestamp (Meta a) = None"
    by (auto simp: reg_env_def stored_as_def split: option.splits)
next
  fix x :: CsiAlcub and w :: reg and b assume "reg_cur w (Name (Meta x)) = Some b \<and> rversion b = rversion x"
  then show "fst (kube_update reg_env x w) = None"
    "if DeletionTimestamp (Meta b) \<noteq> None \<and> Finalizers (Meta x) = [] then reg_cur (snd (kube_update reg_env x w)) (Name (Meta x)) = None
      else \<exists>a. reg_cur (snd (kube_update reg_env x w)) (Name (Meta x)) = Some a \<and> stored_as x a \<and> DeletionTimestamp (Meta a) = DeletionTimestamp (Meta b)"
    by (auto simp: reg_env_def stored_as_def)
next
  fix x :: CsiAlcub and w :: reg and b assume b: "reg_cur w (Name (Meta x)) = Some b \<and> Finalizers (Meta b) \<noteq> []"
  then have "Name (Meta b) = Name (Meta x)" using reg_past_version [OF reg_cur_past] by blast
  with b show "fst (kube_delete reg_env x w) = None"
    "\<exists>a. reg_cur (snd (kube_delete reg_env x w)) (Name (Meta x)) = Some a \<and> stored_as b a \<and> DeletionTimestamp (Meta a) \<noteq> None"
    by (auto simp: reg_env_def stored_as_def)
qed

lemma reg_sel:
  "kube_get reg_env n w = (case reg_cur w n of None \<Rightarrow> Inl (ApiErr ReasonNotFound n) | Some a \<Rightarrow> Inr a, w)"
  "kube_create reg_env x w = (case reg_cur w (Name (Meta x)) of
        Some _ \<Rightarrow> (Some (ApiErr ReasonAlreadyExists (Name (Meta x))), w)
      | None \<Rightarrow> (None, (Name (Meta x), Some (x\<lparr>Meta := (Meta x)\<lparr>DeletionTimestamp := None\<rparr>\<rparr>)) # w))"
  "node_list reg_env w = (Inr [demo_node], w)" "new_uuid reg_env w = (''u1'', w)"
  "run_cmd reg_env c as w = (\<lparr>Out = (if c = ''rados'' then ''http://10.0.0.1'' else ''Watchers: none''), Deadline = False, CmdErr = None\<rparr>, w)"
  "http_do reg_env q w = (Inr \<lparr>StatusCode = 200, RespBody = Inr (demo_http q)\<rparr>, w)"
  "likely_not_mnt reg_env p w = ((True, None), w)" "format_mount reg_env d t f os w = (None, w)"
  "not_mnt reg_env p w = ((True, None), w)" "remove_all reg_env p w = (None, w)"
  by (simp_all add: reg_env_def)

lemma reg_class:
  "class_options reg_env NewRbd sc w = (Inr (demo_opts\<lparr>opt_userID := ''admin''\<rparr>), NewRbd\<lparr>dnsip := ''10.96.0.10''\<rparr>, w)"
  "class_options reg_env (NewRbd\<lparr>dnsip := ''10.96.0.10''\<rparr>) sc w = (Inr (demo_opts\<lparr>opt_userID := ''admin''\<rparr>), NewRbd\<lparr>dnsip := ''10.96.0.10''\<rparr>, w)"
  using demo_monitor
  by (simp_all add: class_options_def NewRbd_def reg_env_def parseParameters_def gm_items_def
      parse_init_def param_step_def param_monitors_def parse_finish_def parsePVSecret_def demo_opts_def
      ToLower_def lower_char_def is_upper_def char_of_def bit_0 rbd_consts Let_def)

lemma reg_ops:
  "nil_conf (\<lambda>d. GetImageStatus reg_env demo_client d ''rbd'' ''pvc-1'') w = (True, demo_client, w)"
  "nil_conf (\<lambda>d. GetNode reg_env demo_client d ''node-1'') w = (Inr [''http://10.0.0.2'', ''http://10.0.0.1''], demo_client, w)"
  "nil_conf (\<lambda>d. DoConn reg_env demo_client d ''rbd'' ''pvc-1'') w = (Inr ''/dev/rbd0'', demo_client, w)"
  "nil_conf (\<lambda>d. DoDisConn reg_env demo_client d ''rbd'' ''pvc-1'') w = (None, demo_client, w)"
  by (simp_all add: nil_conf_def GetImageStatus_def status_fn_def GetNode_def peers_fn_def DoConn_def conn_fn_def
      DoDisConn_def disconn_fn_def demo_do request_def reg_sel demo_http_def op_body_def ToJSON_field_def
      field_step_def ToJSON_strings_def elem_step_def demo_dyn_def demo_url ToLower_def lower_char_def is_upper_def
      path_Join_def path_Clean_def devpath_def Let_def)

definition life_spec :: CsiAlcubSpec where
  "life_spec = \<lparr>Uuid = ''u1'', Capacity = 1048577, RbdSc = ''general'', Pool = ''rbd'', Image = ''pvc-1''\<rparr>"

definition life_rbd :: Rbd where
  "life_rbd = NewRbd\<lparr>dnsip := ''10.96.0.10''\<rparr>"

lemma life_created:
  "\<exists>c1 w1. CreateVolume reg_env demo_req demo_ctl0 [] = (Inr \<lparr>VolumeId = ''u1'', CapacityBytes = 1048577, VolumeContext = demo_params_sc,
      ContentSource = None, AccessibleTopology = None\<rparr>, c1, w1) \<and> c_rbd c1 = life_rbd
     \<and> reg_cur w1 ''pvc-1'' = Some (ver 0 ''pvc-1'' (newobj ''pvc-1'' life_spec))"
  by (simp add: CreateVolume_def create_check_def req_topologies_def AlcubCon_GetByName_def create_new_def
      LabledNodes_def fold_filter inMaps_iff createVolume_def gm_get_def gm_items_def scParam_def demo_ctl0_def demo_ctl_def
      NewController_def Rbd_CreateImage_def reg_class RBDUtil_CreateImage_def RoundUpSize_def MiB_def
      i64_div_def execCommand_def reg_sel demo_node_def AlcubCon_Create_def reverseUuid_def
      NewAlcubCon_def newobj_def Let_def GetRequiredBytes_def demo_req_def demo_params_sc_def life_rbd_def life_spec_def
      demo_opts_def parse_init_def ver_def)

text \<open>The handlers succeed wherever the resource is stored and the index leads to it.\<close>

lemmas reg_sets = Update_sets [OF reg_reliable]
lemmas reg_marks = Delete_marks [OF reg_reliable]
lemmas reg_name = stored_name [OF reg_reliable]
lemmas reg_keeps = Reconcile_keeps [OF reg_reliable]
lemmas reg_attaches = NodePublish_attaches [OF reg_reliable]
lemmas reg_deletes = DeleteVolume_marks [OF reg_reliable]

lemma life_found:
  assumes "reg_cur w ''pvc-1'' = Some a" "getNameByuuid ''u1'' al = ''pvc-1''"
  shows "AlcubCon_GetByUuid reg_env ''u1'' al w = (Some a, w)"
  using assms by (simp add: AlcubCon_GetByUuid_def AlcubCon_GetByName_def reg_sel(1))

lemma life_updates:
  assumes "reg_cur w ''pvc-1'' = Some a" "Finalizers (Meta a) \<noteq> []"
  shows "\<exists>w'. AlcubCon_Update reg_env ''pvc-1'' None (Some st) w = (None, w')"
  using reg_sets [OF assms surjective_pairing]
  by (intro exI [of _ "snd (AlcubCon_Update reg_env ''pvc-1'' None (Some st) w)"]) (simp add: prod_eq_iff)

lemma life_premount:
  assumes "Pool (Spec a) = ''rbd''" "Image (Spec a) = ''pvc-1''" "n_store s = demo_client" "n_nodename s = ''node-1''"
  shows "preMountValid reg_env a s w = (Inr (''/dev/rbd0'', [''http://10.0.0.2'', ''http://10.0.0.1'']), s\<lparr>n_store := demo_client\<rparr>, w)"
  using assms by (simp add: preMountValid_def attachDevice_def reg_ops)

lemma life_detach:
  assumes "Pool (Spec a) = ''rbd''" "Image (Spec a) = ''pvc-1''" "n_store s = demo_client"
  shows "detachDevice reg_env a s w = (None, s\<lparr>n_store := demo_client\<rparr>, w)"
  using assms by (simp add: detachDevice_def reg_ops)

lemma life_mount: "mount_body reg_env req dev w = (None, w)" "unmount_body reg_env p w = (None, w)"
  by (simp_all add: mount_body_def unmount_body_def reg_sel(7-10) Let_def)

lemma life_remove: "Rbd_DeleteImage reg_env life_rbd sc img w = (None, life_rbd, w)"
  by (simp add: Rbd_DeleteImage_def life_rbd_def reg_class RBDUtil_DeleteImage_def rbdStatus_def execCommand_def reg_sel(5)
      rbd_consts str_Contains_def)

lemma life_published:
  assumes a: "reg_cur w ''pvc-1'' = Some a" "Finalizers (Meta a) \<noteq> []" and "Pool (Spec a) = ''rbd''" "Image (Spec a) = ''pvc-1''"
    and "getNameByuuid ''u1'' (n_alcub s) = ''pvc-1''" "n_store s = demo_client" "n_nodename s = ''node-1''"
  shows "\<exists>w'. NodePublishVolume reg_env demo_publish s w = (None, s\<lparr>n_store := demo_client\<rparr>, w')"
proof -
  obtain w' where "AlcubCon_Update reg_env ''pvc-1'' None (Some (mount_status (s\<lparr>n_store := demo_client\<rparr>) ''/dev/rbd0''
      [''http://10.0.0.2'', ''http://10.0.0.1''] (Status a))) w = (None, w')" using life_updates [OF a] by blast
  moreover have "publish_check demo_publish = None" "np_VolumeId demo_publish = ''u1''"
    by (simp_all add: demo_publish_def publish_check_def)
  ultimately show ?thesis
    by (simp add: NodePublishVolume_def life_found [OF a(1) assms(5)] life_premount [OF assms(3,4,6,7)] life_mount
        mount_success_def reg_name [OF a(1)])
qed

lemma life_deleted:
  assumes a: "reg_cur w ''pvc-1'' = Some a" "Finalizers (Meta a) \<noteq> []" and "getNameByuuid ''u1'' (c_alcub c) = ''pvc-1''" "c_rbd c = life_rbd"
  shows "\<exists>w'. DeleteVolume reg_env ''u1'' c w = (None, c\<lparr>c_rbd := life_rbd\<rparr>, w')"
proof -
  obtain e w' where d: "AlcubCon_Delete reg_env ''pvc-1'' w = (e, w')" by fastforce
  then have "AlcubCon_Delete reg_env ''pvc-1'' w = (None, w')" using reg_marks [OF a d] by simp
  with assms(4) show ?thesis
    by (simp add: DeleteVolume_def life_found [OF a(1) assms(3)] deleteVolume_def life_remove reg_name [OF a(1)])
qed

lemma life_unpublished:
  assumes a: "reg_cur w ''pvc-1'' = Some a" "Finalizers (Meta a) \<noteq> []" and "Pool (Spec a) = ''rbd''" "Image (Spec a) = ''pvc-1''"
    and "getNameByuuid ''u1'' (n_alcub s) = ''pvc-1''" "n_store s = demo_client" "Node (Status a) = n_nodename s"
  shows "\<exists>s' w'. NodeUnpublishVolume reg_env demo_unpublish s w = (None, s', w')"
proof -
  obtain w' where "AlcubCon_Update reg_env ''pvc-1'' None (Some ((Status a)\<lparr>Node := []\<rparr>)) w = (None, w')"
    using life_updates [OF a] by blast
  moreover have "unpublish_check demo_unpublish = None" "nu_VolumeId demo_unpublish = ''u1''"
    by (simp_all add: demo_unpublish_def unpublish_check_def)
  ultimately show ?thesis using assms(7)
    by (simp add: NodeUnpublishVolume_def life_found [OF a(1) assms(5)] preUnmountValid_def life_mount unmount_success_def
        life_detach [OF assms(3,4,6)] reg_name [OF a(1)])
qed

text \<open>A whole life of the volume \<open>pvc-1\<close>, from the empty store.\<close>

theorem volume_life_cycle_witness:
  "\<exists>c1 w1 al w2 s1 w3 c2 w4 s2 w5 al' w6. CreateVolume reg_env demo_req demo_ctl0 [] =
       (Inr \<lparr>VolumeId = ''u1'', CapacityBytes = 1048577, VolumeContext = demo_params_sc, ContentSource = None, AccessibleTopology = None\<rparr>, c1, w1)
     \<and> AlcubCon_Reconcile reg_env ''pvc-1'' NewAlcubCon w1 = (None, al, w2)
     \<and> NodePublishVolume reg_env demo_publish (demo_srv\<lparr>n_alcub := al\<rparr>) w2 = (None, s1, w3)
     \<and> DeleteVolume reg_env ''u1'' c1 w3 = (None, c2, w4)
     \<and> NodeUnpublishVolume reg_env demo_unpublish s1 w4 = (None, s2, w5)
     \<and> AlcubCon_Reconcile reg_env ''pvc-1'' (c_alcub c2) w5 = (None, al', w6)
     \<and> map (\<lambda>w. vols reg_cur w ''pvc-1'') [[], w1, w2, w3, w4, w5, w6] =
      [Absent, Present False [], Present False [], Present False ''node-1'', Present True ''node-1'', Present True [], Absent]"
proof -
  let ?v = "\<lparr>VolumeId = ''u1'', CapacityBytes = 1048577, VolumeContext = demo_params_sc, ContentSource = None, AccessibleTopology = None\<rparr>"
  let ?s = "demo_srv\<lparr>n_alcub := NewAlcubCon\<rparr>"
  obtain c1 w1 where c: "CreateVolume reg_env demo_req demo_ctl0 [] = (Inr ?v, c1, w1)" "c_rbd c1 = life_rbd"
    "reg_cur w1 ''pvc-1'' = Some (ver 0 ''pvc-1'' (newobj ''pvc-1'' life_spec))" using life_created by auto
  let ?a = "ver 0 ''pvc-1'' (newobj ''pvc-1'' life_spec)"
  have a: "Finalizers (Meta ?a) \<noteq> []" "DeletionTimestamp (Meta ?a) = None" "Pool (Spec ?a) = ''rbd''" "Image (Spec ?a) = ''pvc-1''"
    "Uuid (Spec ?a) = ''u1''" by (simp_all add: newobj_def finalizers_def life_spec_def)
  have q: "req_Name demo_req = ''pvc-1''" by (simp add: demo_req_def)
  have ix: "getNameByuuid ''u1'' (c_alcub c1) = ''pvc-1''" using CreateVolume_stores [OF reg_reliable _ c(1)] q by auto
  obtain e al w2 where r: "AlcubCon_Reconcile reg_env ''pvc-1'' (n_alcub ?s) w1 = (e, al, w2)" by (metis prod_cases3)
  have un: "uuidname (n_alcub ?s) ''u1'' = None" by (simp add: NewAlcubCon_def)
  have k: "e = None" "reg_cur w2 = reg_cur w1" "getNameByuuid ''u1'' al = ''pvc-1''"
    using reg_keeps [OF c(3) a(2) r] un a(5) by auto
  let ?seen = "?s\<lparr>n_alcub := al\<rparr>"
  let ?pub = "?seen\<lparr>n_store := demo_client\<rparr>"
  have n: "n_store ?seen = demo_client" "n_nodename ?seen = ''node-1''" "n_alcub ?seen = al" "n_nodename ?s = ''node-1''"
    "n_store ?pub = demo_client" "n_nodename ?pub = ''node-1''" "n_alcub ?pub = al" by (simp_all add: demo_srv_def)
  have w2: "reg_cur w2 ''pvc-1'' = Some ?a" using c(3) k(2) by simp
  obtain w3 where p: "NodePublishVolume reg_env demo_publish ?seen w2 = (None, ?pub, w3)"
    using life_published [OF w2 a(1,3,4), of ?seen] k(3) n by auto
  have v: "np_VolumeId demo_publish = ''u1''" "nu_VolumeId demo_unpublish = ''u1''" by (simp_all add: demo_publish_def demo_unpublish_def)
  obtain b where b: "reg_cur w3 ''pvc-1'' = Some b" "Node (Status b) = ''node-1''" "Spec b = Spec ?a" "Finalizers (Meta b) \<noteq> []"
    using reg_attaches [OF _ w2 a(1) p] v k(3) n by auto
  obtain w4 where d: "DeleteVolume reg_env ''u1'' c1 w3 = (None, c1\<lparr>c_rbd := life_rbd\<rparr>, w4)"
    using life_deleted [OF b(1,4) ix c(2)] by auto
  obtain b' where b': "reg_cur w4 ''pvc-1'' = Some b'" "stored_as b b'" using reg_deletes [OF ix b(1,4) _ _ d] by auto
  have b'': "Finalizers (Meta b') \<noteq> []" "Pool (Spec b') = ''rbd''" "Image (Spec b') = ''pvc-1''" "Node (Status b') = n_nodename ?pub"
    using b b'(2) a(3,4) n by (simp_all add: stored_as_def)
  obtain s2 w5 where u: "NodeUnpublishVolume reg_env demo_unpublish ?pub w4 = (None, s2, w5)"
    using life_unpublished [OF b'(1) b''(1-3) _ n(5) b''(4)] k(3) n(7) by auto
  obtain e' al' w6 where r': "AlcubCon_Reconcile reg_env ''pvc-1'' (c_alcub (c1\<lparr>c_rbd := life_rbd\<rparr>)) w5 = (e', al', w6)" by (metis prod_cases3)
  have i: "VolumeId ?v = ''u1''" by simp
  have ab: "reg_cur [] ''pvc-1'' = None" by simp
  have L: "map (\<lambda>w. vols reg_cur w ''pvc-1'') [[], w1, w2, w3, w4, w5, w6] =
      [Absent, Present False [], Present False [], Present False (n_nodename ?s), Present True (n_nodename ?s), Present True [], Absent]
    \<and> e = None \<and> e' = None"
    by (rule volume_life_cycle [where E = reg_env and cur = reg_cur and past = reg_past, OF reg_reliable ab c(1) q r _ p _ _ u _ r']) (simp_all only: i un v d)
  have s: "n_alcub ?s = NewAlcubCon" "?seen = demo_srv\<lparr>n_alcub := al\<rparr>" by simp_all
  show ?thesis
    by (intro exI conjI) (rule c(1), rule r [unfolded k(1) s], rule p [unfolded s], rule d, rule u [unfolded s],
      rule r' [unfolded conjunct2 [OF conjunct2 [OF L]]], rule conjunct1 [OF L, unfolded n(4)])
qed

end
