(* ===== verification/WorkQueue.thy ===== *)
theory WorkQueue
  imports Prelude
begin

text \<open>
  The work queue of a reconciler (\<open>client-go/util/workqueue\<close>) and the workers that take names
  from it (\<open>controller-runtime/pkg/internal/controller\<close>), both vendored. The program hands its
  two reconcilers to such workers; that an event is never lost, that a resource is never reconciled
  twice at once and that a failed reconciliation is repeated are promises of this code that the
  program relies on.

  The queue is a record of the fields of \<open>Type\<close>, of the entries the delaying queue waits with,
  and of the failures the rate limiter counts; durations are nanoseconds. The steps of the workers are
  a relation: the informer's events, the expiry of a delay, and for each worker taking a name,
  reconciling it and being done with it. A log notes what happened, newest first.
\<close>

section \<open>queue.go\<close>

record 't workqueue =
  queue :: "'t list"
  dirty :: "'t set"
  processing :: "'t set"
  shuttingDown :: bool
  delayed :: "'t set"
  failures :: "'t \<Rightarrow> nat"

definition newQueue :: "'t workqueue" where
  "newQueue = \<lparr>queue = [], dirty = {}, processing = {}, shuttingDown = False, delayed = {}, failures = (\<lambda>_. 0)\<rparr>"

definition wq_Add :: "'t \<Rightarrow> 't workqueue \<Rightarrow> 't workqueue" where
  "wq_Add item q =
     (if shuttingDown q then q
      else if item \<in> dirty q then q
      else let q1 = q\<lparr>dirty := insert item (dirty q)\<rparr> in
        if item \<in> processing q1 then q1
        else q1\<lparr>queue := queue q1 @ [item]\<rparr>)"

text \<open>\<open>Get\<close> blocks (\<open>None\<close>) on an empty queue; when it is also shutting down it returns no
  item.\<close>

definition wq_Get :: "'t workqueue \<Rightarrow> ('t option \<times> 't workqueue) option" where
  "wq_Get q = (case queue q of
     [] \<Rightarrow> if shuttingDown q then Some (None, q) else None
   | item # rest \<Rightarrow> Some (Some item,
       q\<lparr>queue := rest, processing := insert item (processing q), dirty := dirty q - {item}\<rparr>))"

definition wq_Done :: "'t \<Rightarrow> 't workqueue \<Rightarrow> 't workqueue" where
  "wq_Done item q =
     (let q1 = q\<lparr>processing := processing q - {item}\<rparr> in
      if item \<in> dirty q1 then q1\<lparr>queue := queue q1 @ [item]\<rparr> else q1)"

definition wq_ShutDown :: "'t workqueue \<Rightarrow> 't workqueue" where
  "wq_ShutDown q = q\<lparr>shuttingDown := True\<rparr>"

section \<open>delaying_queue.go, rate_limiting_queue.go, default_rate_limiters.go\<close>

definition wq_AddAfter :: "'t \<Rightarrow> int \<Rightarrow> 't workqueue \<Rightarrow> 't workqueue" where
  "wq_AddAfter item duration q =
     (if shuttingDown q then q
      else if duration \<le> 0 then wq_Add item q
      else q\<lparr>delayed := insert item (delayed q)\<rparr>)"

text \<open>One entry of the waiting loop has become ready.\<close>

definition wq_ready :: "'t \<Rightarrow> 't workqueue \<Rightarrow> 't workqueue" where
  "wq_ready item q = (wq_Add item q)\<lparr>delayed := delayed q - {item}\<rparr>"

definition baseDelay :: int where "baseDelay = 5 * 1000000"
definition maxDelay :: int where "maxDelay = 1000 * 1000000000"

text \<open>\<open>ItemExponentialFailureRateLimiter.When\<close>; the product is exact in a \<open>float64\<close>.\<close>

definition backoff :: "nat \<Rightarrow> int" where
  "backoff e = (let b = baseDelay * 2 ^ e in
     if b > 2 ^ 63 - 1 then maxDelay else if b > maxDelay then maxDelay else b)"

text \<open>\<open>When\<close> of the default limiter: the maximum of the exponential delay and that of the token
  bucket, which is an argument.\<close>

definition limiter_When :: "int \<Rightarrow> 't \<Rightarrow> 't workqueue \<Rightarrow> int \<times> 't workqueue" where
  "limiter_When bucket item q =
     (max (backoff (failures q item)) bucket, q\<lparr>failures := (failures q)(item := failures q item + 1)\<rparr>)"

definition wq_AddRateLimited :: "int \<Rightarrow> 't \<Rightarrow> 't workqueue \<Rightarrow> 't workqueue" where
  "wq_AddRateLimited bucket item q = (let (d, q1) = limiter_When bucket item q in wq_AddAfter item d q1)"

definition wq_Forget :: "'t \<Rightarrow> 't workqueue \<Rightarrow> 't workqueue" where
  "wq_Forget item q = q\<lparr>failures := (failures q)(item := 0)\<rparr>"

section \<open>controller.go: the workers\<close>

record reconcile_Result =
  Requeue :: bool
  RequeueAfter :: int

text \<open>\<open>reconcileHandler\<close> after the call of the reconciler.\<close>

definition after_reconcile :: "int \<Rightarrow> 't \<Rightarrow> reconcile_Result \<times> error option \<Rightarrow> 't workqueue \<Rightarrow> 't workqueue" where
  "after_reconcile bucket req r q = (case r of
     (result, Some err) \<Rightarrow> wq_AddRateLimited bucket req q
   | (result, None) \<Rightarrow>
       if RequeueAfter result > 0 then wq_AddAfter req (RequeueAfter result) (wq_Forget req q)
       else if Requeue result then wq_AddRateLimited bucket req q
       else wq_Forget req q)"

datatype 't worker = Idle | Got 't | Handled 't

datatype 't happening = Event 't | Began 't | Ended 't bool

record ('t, 's) reconciler =
  rq :: "'t workqueue"
  workers :: "'t worker list"
  rs :: 's
  rlog :: "'t happening list"

text \<open>The steps: an event of the informer (\<open>EnqueueRequestForObject\<close>), an expired delay, the three
  parts of \<open>processNextWorkItem\<close>, the shutdown, and a change of the state by others. A panic of the
  reconciler ends the process: there is no step after it.\<close>

inductive rc_step :: "('t \<Rightarrow> 's \<Rightarrow> (reconcile_Result \<times> error option) \<times> 's) \<Rightarrow> ('t, 's) reconciler \<Rightarrow> ('t, 's) reconciler \<Rightarrow> bool"
  for recon :: "'t \<Rightarrow> 's \<Rightarrow> (reconcile_Result \<times> error option) \<times> 's" where
  event: "rc_step recon c (c\<lparr>rq := wq_Add n (rq c), rlog := Event n # rlog c\<rparr>)"
| ready: "n \<in> delayed (rq c) \<Longrightarrow> \<not> shuttingDown (rq c) \<Longrightarrow> rc_step recon c (c\<lparr>rq := wq_ready n (rq c)\<rparr>)"
| take: "i < length (workers c) \<Longrightarrow> workers c ! i = Idle \<Longrightarrow> wq_Get (rq c) = Some (Some n, q) \<Longrightarrow>
    rc_step recon c (c\<lparr>rq := q, workers := (workers c)[i := Got n], rlog := Began n # rlog c\<rparr>)"
| handle: "i < length (workers c) \<Longrightarrow> workers c ! i = Got n \<Longrightarrow> recon n (rs c) = ((res, err), s) \<Longrightarrow> \<forall>m. err \<noteq> Some (GoPanic m) \<Longrightarrow>
    rc_step recon c (c\<lparr>rq := after_reconcile b n (res, err) (rq c), workers := (workers c)[i := Handled n], rs := s,
      rlog := Ended n (err = None) # rlog c\<rparr>)"
| finish: "i < length (workers c) \<Longrightarrow> workers c ! i = Handled n \<Longrightarrow>
    rc_step recon c (c\<lparr>rq := wq_Done n (rq c), workers := (workers c)[i := Idle]\<rparr>)"
| shutdown: "rc_step recon c (c\<lparr>rq := wq_ShutDown (rq c)\<rparr>)"
| outside: "rc_step recon c (c\<lparr>rs := s\<rparr>)"

text \<open>What a started controller is: \<open>MaxConcurrentReconciles\<close> idle workers on an empty queue.\<close>

definition rc_start :: "nat \<Rightarrow> 's \<Rightarrow> ('t, 's) reconciler" where
  "rc_start maxc s = \<lparr>rq = newQueue, workers = replicate maxc Idle, rs = s, rlog = []\<rparr>"

section \<open>The queue\<close>

text \<open>Between calls the queue holds exactly the dirty items that nobody processes, each once.\<close>

definition wq_ok :: "'t workqueue \<Rightarrow> bool" where
  "wq_ok q \<longleftrightarrow> distinct (queue q) \<and> set (queue q) = dirty q - processing q"

lemma wq_ok_new: "wq_ok newQueue"
  by (simp add: wq_ok_def newQueue_def)

lemma wq_Add_frame [frame_simps]:
  "processing (wq_Add n q) = processing q" "shuttingDown (wq_Add n q) = shuttingDown q"
  "delayed (wq_Add n q) = delayed q" "failures (wq_Add n q) = failures q"
  "dirty (wq_Add n q) = (if shuttingDown q then dirty q else insert n (dirty q))"
  by (auto simp: wq_Add_def Let_def)

lemma wq_Add_queue: "\<exists>xs. queue (wq_Add n q) = queue q @ xs"
  by (auto simp: wq_Add_def Let_def)

lemma wq_ok_Add: "wq_ok q \<Longrightarrow> wq_ok (wq_Add n q)"
  by (auto simp: wq_ok_def wq_Add_def Let_def)

text \<open>What \<open>AddAfter\<close>, \<open>AddRateLimited\<close> and \<open>Forget\<close> do to the fields the workers use.\<close>

lemma backoff_bounds: "baseDelay \<le> backoff e" "backoff e \<le> maxDelay"
proof -
  have "(1::int) \<le> 2 ^ e" by simp
  then show "baseDelay \<le> backoff e" "backoff e \<le> maxDelay"
    by (auto simp: backoff_def baseDelay_def maxDelay_def Let_def)
qed

lemma AddRateLimited_eq:
  "wq_AddRateLimited b n q = (if shuttingDown q then q\<lparr>failures := (failures q)(n := failures q n + 1)\<rparr>
     else q\<lparr>delayed := insert n (delayed q), failures := (failures q)(n := failures q n + 1)\<rparr>)"
  using backoff_bounds(1) [of "failures q n"]
  by (auto simp: wq_AddRateLimited_def limiter_When_def wq_AddAfter_def baseDelay_def)

lemma after_reconcile_fields:
  "processing (after_reconcile b n r q) = processing q" "shuttingDown (after_reconcile b n r q) = shuttingDown q"
  "dirty (after_reconcile b n r q) = dirty q" "queue (after_reconcile b n r q) = queue q"
  "delayed q \<subseteq> delayed (after_reconcile b n r q)"
  "\<not> shuttingDown q \<Longrightarrow> snd r \<noteq> None \<Longrightarrow> n \<in> delayed (after_reconcile b n r q)"
  by (cases r; auto simp: after_reconcile_def AddRateLimited_eq wq_AddAfter_def wq_Forget_def split: option.splits)+


section \<open>The invariant of the workers\<close>

fun item_of :: "'t worker \<Rightarrow> 't option" where
  "item_of Idle = None"
| "item_of (Got n) = Some n"
| "item_of (Handled n) = Some n"

text \<open>The names that have had an event or a failed reconciliation since a worker last took them.\<close>

fun owed :: "'t happening list \<Rightarrow> 't set" where
  "owed [] = {}"
| "owed (Event n # l) = insert n (owed l)"
| "owed (Began n # l) = owed l - {n}"
| "owed (Ended n ok # l) = (if ok then owed l else insert n (owed l))"

text \<open>The workers that hold a name.\<close>

definition holders :: "'t worker list \<Rightarrow> 't \<Rightarrow> nat set" where
  "holders ws n = {i. i < length ws \<and> item_of (ws ! i) = Some n}"

definition rc_inv :: "('t, 's) reconciler \<Rightarrow> bool" where
  "rc_inv c \<longleftrightarrow> wq_ok (rq c) \<and> processing (rq c) = {n. holders (workers c) n \<noteq> {}}
     \<and> (\<forall>n. \<exists>i. holders (workers c) n \<subseteq> {i})
     \<and> (\<not> shuttingDown (rq c) \<longrightarrow> owed (rlog c) \<subseteq> dirty (rq c) \<union> delayed (rq c))"

lemma rc_inv_start: "rc_inv (rc_start k s)"
  by (auto simp: rc_inv_def rc_start_def newQueue_def wq_ok_def holders_def)

lemma holders_update:
  "i < length ws \<Longrightarrow> holders (ws[i := v]) n = (if item_of v = Some n then insert i (holders ws n) else holders ws n - {i})"
  by (auto simp: holders_def nth_list_update)

lemma holder: "i < length ws \<Longrightarrow> item_of (ws ! i) = Some n \<Longrightarrow> i \<in> holders ws n"
  by (simp add: holders_def)

text \<open>A worker that keeps its name changes nothing; an idle one that takes a free name, and one that gives
  its name back, change who holds it.\<close>

lemma holders_keep:
  assumes "i < length ws" "item_of (ws ! i) = item_of v"
  shows "holders (ws[i := v]) = holders ws"
  using assms by (auto simp: holders_def nth_list_update fun_eq_iff)

lemma holders_take:
  assumes "i < length ws" "ws ! i = Idle" "holders ws n = {}"
  shows "holders (ws[i := Got n]) m = (if m = n then {i} else holders ws m)"
  using assms by (auto simp: holders_def nth_list_update)

lemma holders_give:
  assumes "i < length ws" "item_of (ws ! i) = Some n" "holders ws n \<subseteq> {k}"
  shows "holders (ws[i := Idle]) m = (if m = n then {} else holders ws m)"
  using assms by (auto simp: holders_def nth_list_update)

lemma rc_step_inv:
  assumes "rc_step recon c c'" "rc_inv c"
  shows "rc_inv c'"
  using assms
proof cases
  case (event n)
  with assms(2) show ?thesis by (auto simp: rc_inv_def frame_simps intro: wq_ok_Add)
next
  case (ready n)
  moreover have "wq_ok (wq_ready n q) \<longleftrightarrow> wq_ok (wq_Add n q)" for q :: "'a workqueue" by (simp add: wq_ready_def wq_ok_def)
  ultimately show ?thesis using assms(2) by (auto simp: rc_inv_def wq_ready_def frame_simps intro: wq_ok_Add)
next
  case (take i n q)
  then obtain rest where q: "queue (rq c) = n # rest"
    "q = (rq c)\<lparr>queue := rest, processing := insert n (processing (rq c)), dirty := dirty (rq c) - {n}\<rparr>"
    by (auto simp: wq_Get_def split: list.splits if_splits)
  have n: "n \<notin> processing (rq c)" "n \<in> dirty (rq c)" "n \<notin> set rest"
    using assms(2) q(1) by (auto simp: rc_inv_def wq_ok_def)
  then have h: "holders (workers c) n = {}" using assms(2) by (auto simp: rc_inv_def)
  show ?thesis using take assms(2) q n by (auto simp: rc_inv_def holders_take [OF take(2,3) h] wq_ok_def)
next
  case (handle i n res err s b)
  have "holders ((workers c)[i := Handled n]) = holders (workers c)" by (rule holders_keep) (use handle in auto)
  with handle assms(2) after_reconcile_fields(5) [of "rq c" b n "(res, err)"] after_reconcile_fields(6) [of "rq c" "(res, err)" n b]
  show ?thesis by (auto simp: rc_inv_def wq_ok_def after_reconcile_fields(1-4))
next
  case (finish i n)
  obtain k where k: "holders (workers c) n \<subseteq> {k}" using assms(2) unfolding rc_inv_def by blast
  have p: "n \<in> processing (rq c)" using assms(2) finish holder [of i "workers c" n] by (auto simp: rc_inv_def)
  show ?thesis using finish assms(2) p
    by (auto simp: rc_inv_def holders_give [OF finish(2) _ k] wq_ok_def wq_Done_def Let_def)
next
  case shutdown
  with assms(2) show ?thesis by (simp add: rc_inv_def wq_ok_def wq_ShutDown_def)
next
  case (outside s)
  with assms(2) show ?thesis by (simp add: rc_inv_def)
qed

interpretation rc: preserved "rc_step recon" rc_inv
  by unfold_locales (rule rc_step_inv)


section \<open>First come, first served\<close>

fun begun :: "'t happening list \<Rightarrow> 't list" where
  "begun [] = []"
| "begun (Began n # l) = n # begun l"
| "begun (_ # l) = begun l"

lemma begun_append: "begun (l @ l') = begun l @ begun l'"
  by (induction l rule: begun.induct) auto

text \<open>The queue only loses its head, to a worker, and only grows at its end.\<close>

lemma rc_step_queue:
  assumes "rc_step recon c c'"
  shows "\<exists>l xs. rlog c' = l @ rlog c \<and> queue (rq c) @ xs = rev (begun l) @ queue (rq c')"
  using assms
proof cases
  case (event n)
  then show ?thesis using wq_Add_queue [of n "rq c"] by (auto intro!: exI [of _ "[Event n]"])
next
  case (ready n)
  obtain xs where "queue (wq_Add n (rq c)) = queue (rq c) @ xs" using wq_Add_queue [of n "rq c"] by auto
  with ready(1) show ?thesis by (intro exI [of _ "[]"] exI [of _ xs]) (simp add: wq_ready_def)
next
  case (take i n q)
  then show ?thesis by (intro exI [of _ "[Began n]"] exI [of _ "[]"]) (auto simp: wq_Get_def split: list.splits if_splits)
next
  case (handle i n res err s b)
  then show ?thesis by (intro exI [of _ "[Ended n (err = None)]"] exI [of _ "[]"]) (simp add: after_reconcile_fields)
next
  case (finish i n)
  then show ?thesis by (auto simp: wq_Done_def Let_def intro!: exI [of _ "[]"])
qed (auto simp: wq_ShutDown_def intro!: exI [of _ "[]"])

lemma rc_run_queue:
  assumes "(rc_step recon)\<^sup>*\<^sup>* c c'"
  shows "\<exists>l xs. rlog c' = l @ rlog c \<and> queue (rq c) @ xs = rev (begun l) @ queue (rq c')"
  using assms
proof (induction rule: rtranclp_induct)
  case base
  then show ?case by (intro exI [of _ "[]"]) simp
next
  case (step c1 c2)
  then obtain l1 x1 l2 x2 where "rlog c1 = l1 @ rlog c" "queue (rq c) @ x1 = rev (begun l1) @ queue (rq c1)"
    "rlog c2 = l2 @ rlog c1" "queue (rq c1) @ x2 = rev (begun l2) @ queue (rq c2)" using rc_step_queue by blast
  then show ?case by (intro exI [of _ "l2 @ l1"] exI [of _ "x1 @ x2"]) (simp add: begun_append, metis append.assoc)
qed

section \<open>Dropped errors\<close>

text \<open>A name nobody asked for: not queued, not delayed, and no worker is about to reconcile it.\<close>

definition unasked :: "'t \<Rightarrow> ('t, 's) reconciler \<Rightarrow> bool" where
  "unasked n c \<longleftrightarrow> n \<notin> dirty (rq c) \<and> n \<notin> delayed (rq c) \<and> n \<notin> set (queue (rq c)) \<and> Got n \<notin> set (workers c)"

lemma after_reconcile_other: "m \<noteq> n \<Longrightarrow> n \<in> delayed (after_reconcile b m r q) \<longleftrightarrow> n \<in> delayed q"
  by (cases r) (auto simp: after_reconcile_def AddRateLimited_eq wq_AddAfter_def wq_Forget_def frame_simps split: option.splits)

lemma Got_update: "Got n \<in> set (ws[i := v]) \<Longrightarrow> Got n \<in> set ws \<or> v = Got n"
  using set_update_subset_insert [of ws i v] by auto

lemma wq_Add_other: "m \<noteq> n \<Longrightarrow> n \<in> set (queue (wq_Add m q)) \<longleftrightarrow> n \<in> set (queue q)"
  by (auto simp: wq_Add_def Let_def)

lemma unasked_step:
  assumes "rc_step recon c c'" "unasked n c" "Event n \<notin> set l" "rlog c' = l @ rlog c"
  shows "unasked n c' \<and> n \<notin> set (begun l)"
  using assms(1)
proof cases
  case (event m)
  with assms(3,4) have "m \<noteq> n" "l = [Event m]" by auto
  with event assms(2) show ?thesis by (auto simp: unasked_def frame_simps wq_Add_other)
next
  case (ready m)
  then have "m \<noteq> n" using assms(2) by (auto simp: unasked_def)
  with ready assms(2,4) show ?thesis by (auto simp: unasked_def wq_ready_def frame_simps wq_Add_other)
next
  case (take i m q)
  then have "m \<noteq> n" using assms(2) by (auto simp: unasked_def wq_Get_def split: list.splits if_splits)
  with take assms(2,4) show ?thesis
    by (auto simp: unasked_def wq_Get_def split: list.splits if_splits dest!: Got_update)
next
  case (handle i m res err s b)
  then have "Got m \<in> set (workers c)" using nth_mem [of i "workers c"] by simp
  then have "m \<noteq> n" using assms(2) by (auto simp: unasked_def)
  with handle assms(2,4) show ?thesis
    by (auto simp: unasked_def after_reconcile_fields after_reconcile_other dest!: Got_update)
next
  case (finish i m)
  with assms(2,4) show ?thesis by (auto simp: unasked_def wq_Done_def Let_def dest!: Got_update)
qed (use assms(2,4) in \<open>auto simp: unasked_def wq_ShutDown_def\<close>)

lemma unasked_run:
  assumes "(rc_step recon)\<^sup>*\<^sup>* c c'" "unasked n c" "rlog c' = l @ rlog c" "Event n \<notin> set l"
  shows "unasked n c' \<and> n \<notin> set (begun l)"
  using assms(1,3,4)
proof (induction arbitrary: l rule: rtranclp_induct)
  case (step c1 c2)
  obtain l1 where l1: "rlog c1 = l1 @ rlog c" using rc_run_queue [OF step.hyps(1)] by auto
  obtain l2 where l2: "rlog c2 = l2 @ rlog c1" using rc_step_queue [OF step.hyps(2)] by auto
  have "l = l2 @ l1" using l1 l2 step.prems(1) by simp
  with step.IH [OF l1] unasked_step [OF step.hyps(2) _ _ l2, of n] step.prems(2) show ?case by (simp add: begun_append)
qed (use assms(2) in simp)

text \<open>A reconciler that answers a failure as if it were a success. The workers then forget the name: it
  is not taken again until its next event.\<close>

locale forgetful =
  fixes recon :: "'t \<Rightarrow> 's \<Rightarrow> (reconcile_Result \<times> error option) \<times> 's" and fails :: "'t \<Rightarrow> 's \<Rightarrow> bool"
  assumes quiet: "fails n s \<Longrightarrow> fst (recon n s) = (\<lparr>Requeue = False, RequeueAfter = 0\<rparr>, None)"
begin

lemma failure_unasked:
  assumes "rc_inv c" "rc_step recon c c1" "rlog c1 = Ended n ok # rlog c" "fails n (rs c)" "n \<notin> dirty (rq c)" "n \<notin> delayed (rq c)"
  shows "ok \<and> unasked n c1 \<and> failures (rq c1) n = 0"
  using assms(2)
proof cases
  case (handle i m res err s b)
  then have m: "m = n" "ok \<longleftrightarrow> err = None" using assms(3) by auto
  have r: "res = \<lparr>Requeue = False, RequeueAfter = 0\<rparr>" "err = None" using quiet [OF assms(4)] handle m by auto
  obtain k where k: "holders (workers c) n \<subseteq> {k}" using assms(1) unfolding rc_inv_def by blast
  have "Got n \<notin> set ((workers c)[i := Handled n])"
  proof
    assume "Got n \<in> set ((workers c)[i := Handled n])"
    then obtain j where j: "j < length (workers c)" "(workers c)[i := Handled n] ! j = Got n" by (auto simp: in_set_conv_nth)
    then have "j \<noteq> i" "workers c ! j = Got n" using handle(2) by (auto simp: nth_list_update split: if_splits)
    with j k handle m holder [of j "workers c" n] holder [of i "workers c" n] show False by auto
  qed
  moreover have "n \<notin> set (queue (rq c))" using assms(1,5) by (auto simp: rc_inv_def wq_ok_def)
  ultimately show ?thesis using handle m r assms(5,6) by (simp add: unasked_def after_reconcile_def wq_Forget_def)
qed (use assms(3) in auto)

lemma not_repeated:
  assumes "(rc_step recon)\<^sup>*\<^sup>* (rc_start k s) c" "rc_step recon c c1" "rlog c1 = Ended n ok # rlog c"
    and "fails n (rs c)" "n \<notin> dirty (rq c)" "n \<notin> delayed (rq c)"
    and "(rc_step recon)\<^sup>*\<^sup>* c1 c2" "rlog c2 = l @ rlog c1" "Event n \<notin> set l"
  shows "ok \<and> failures (rq c1) n = 0 \<and> n \<notin> set (begun l)"
  using failure_unasked [OF rc.run_inv [OF assms(1) rc_inv_start] assms(2-6)] unasked_run [OF assms(7) _ assms(8,9)] by blast

end

section \<open>Properties\<close>

text \<open>C12: In every run of the workers of a started controller: no two workers hold the same name, so a
  resource is never reconciled twice at once; and until the queue is shut down, every name that had an
  event or a failed reconciliation since a worker last took it is in the queue, or held by a worker that
  will put it back there, or waits for its delay.\<close>

theorem work_not_lost:
  assumes "(rc_step recon)\<^sup>*\<^sup>* (rc_start k s) c"
  shows "(i < length (workers c) \<and> j < length (workers c) \<and> item_of (workers c ! i) = Some n \<and> item_of (workers c ! j) = Some n \<longrightarrow> i = j)
    \<and> (\<not> shuttingDown (rq c) \<and> n \<in> owed (rlog c) \<longrightarrow>
         n \<in> set (queue (rq c)) \<or> (n \<in> dirty (rq c) \<and> (\<exists>i < length (workers c). item_of (workers c ! i) = Some n)) \<or> n \<in> delayed (rq c))"
proof -
  have inv: "rc_inv c" by (rule rc.run_inv [OF assms rc_inv_start])
  then obtain m where m: "holders (workers c) n \<subseteq> {m}" unfolding rc_inv_def by blast
  have p: "x \<in> processing (rq c) \<longleftrightarrow> holders (workers c) x \<noteq> {}" for x using inv by (simp add: rc_inv_def)
  have "i = j" if "i \<in> holders (workers c) n" "j \<in> holders (workers c) n" using m that by auto
  moreover have "n \<in> dirty (rq c) \<or> n \<in> delayed (rq c)" if "\<not> shuttingDown (rq c)" "n \<in> owed (rlog c)"
    using inv that unfolding rc_inv_def by blast
  moreover have "n \<in> set (queue (rq c)) \<or> holders (workers c) n \<noteq> {}" if "n \<in> dirty (rq c)"
    using inv that p by (auto simp: rc_inv_def wq_ok_def)
  ultimately show ?thesis by (auto simp: holders_def)
qed

text \<open>C13: Nobody starves: a name at place \<open>k\<close> of the queue (counted from zero) is taken by a worker at
  the latest when the workers have taken \<open>k + 1\<close> names, whatever else is queued meanwhile.\<close>

theorem queue_fair:
  assumes "(rc_step recon)\<^sup>*\<^sup>* c c'" "k < length (queue (rq c))" "rlog c' = l @ rlog c" "k < length (begun l)"
  shows "rev (begun l) ! k = queue (rq c) ! k"
proof -
  obtain xs where "queue (rq c) @ xs = rev (begun l) @ queue (rq c')" using rc_run_queue [OF assms(1)] assms(3) by auto
  with assms(2,4) show ?thesis by (metis length_rev nth_append)
qed

text \<open>A reconciliation that keeps failing is repeated after delays that double from five milliseconds
  and stay at a thousand seconds from the eighteenth failure on.\<close>

theorem backoff_schedule: "backoff e = (if e < 18 then 5000000 * 2 ^ e else 1000000000000)"
proof (cases "e < 18")
  case True
  then have "(2::int) ^ e \<le> 2 ^ 17" by (intro power_increasing) auto
  with True show ?thesis by (simp add: backoff_def baseDelay_def maxDelay_def Let_def)
next
  case False
  then have "(2::int) ^ 18 \<le> 2 ^ e" by (intro power_increasing) auto
  with False show ?thesis by (simp add: backoff_def baseDelay_def maxDelay_def Let_def)
qed


section \<open>Witnesses\<close>

definition demo_recon :: "nat \<Rightarrow> unit \<Rightarrow> (reconcile_Result \<times> error option) \<times> unit" where
  "demo_recon n s = ((\<lparr>Requeue = False, RequeueAfter = 0\<rparr>, None), s)"

text \<open>Two events, then both workers take a name.\<close>

definition demo_two :: "(nat, unit) reconciler" where
  "demo_two = (rc_start 2 ())\<lparr>rq := newQueue\<lparr>queue := [7, 8], dirty := {7, 8}\<rparr>, rlog := [Event 8, Event 7]\<rparr>"

definition demo_taken :: "(nat, unit) reconciler" where
  "demo_taken = demo_two\<lparr>rq := newQueue\<lparr>processing := {8, 7}\<rparr>, workers := [Got 7, Got 8], rlog := [Began 8, Began 7, Event 8, Event 7]\<rparr>"

lemma demo_events: "(rc_step demo_recon)\<^sup>*\<^sup>* (rc_start 2 ()) demo_two"
proof -
  let ?c = "rc_start 2 ()" let ?d = "?c\<lparr>rq := wq_Add 7 (rq ?c), rlog := Event 7 # rlog ?c\<rparr>"
  have "rc_step demo_recon ?c ?d" "rc_step demo_recon ?d (?d\<lparr>rq := wq_Add 8 (rq ?d), rlog := Event 8 # rlog ?d\<rparr>)"
    by (rule rc_step.event)+
  moreover have "?d\<lparr>rq := wq_Add 8 (rq ?d), rlog := Event 8 # rlog ?d\<rparr> = demo_two"
    by (simp add: demo_two_def rc_start_def wq_Add_def newQueue_def insert_commute)
  ultimately show ?thesis by (metis r_into_rtranclp rtranclp_trans)
qed

lemma demo_takes: "(rc_step demo_recon)\<^sup>*\<^sup>* demo_two demo_taken"
proof -
  let ?q = "newQueue\<lparr>queue := [8], dirty := {8}, processing := {7}\<rparr>"
  let ?c = "demo_two\<lparr>rq := ?q, workers := [Got 7, Idle], rlog := Began 7 # rlog demo_two\<rparr>"
  have "rc_step demo_recon demo_two (demo_two\<lparr>rq := ?q, workers := (workers demo_two)[0 := Got 7], rlog := Began 7 # rlog demo_two\<rparr>)"
    by (rule rc_step.take) (auto simp: demo_two_def rc_start_def wq_Get_def newQueue_def)
  then have 1: "rc_step demo_recon demo_two ?c" by (simp add: demo_two_def rc_start_def numeral_2_eq_2)
  have "rc_step demo_recon ?c (?c\<lparr>rq := newQueue\<lparr>processing := {8, 7}\<rparr>, workers := (workers ?c)[1 := Got 8], rlog := Began 8 # rlog ?c\<rparr>)"
    by (rule rc_step.take) (auto simp: demo_two_def rc_start_def wq_Get_def newQueue_def)
  then have 2: "rc_step demo_recon ?c demo_taken" by (simp add: demo_taken_def demo_two_def rc_start_def)
  from 1 2 show ?thesis by (metis r_into_rtranclp rtranclp_trans)
qed

theorem work_not_lost_witness: "7 \<in> owed (rlog demo_two) \<and> 7 \<in> set (queue (rq demo_two))"
  using work_not_lost [OF demo_events, of 0 0 7] by (simp add: demo_two_def newQueue_def)

theorem queue_fair_witness: "rev (begun [Began 8, Began 7]) ! 1 = queue (rq demo_two) ! 1"
  by (rule queue_fair [OF demo_takes]) (simp_all add: demo_two_def demo_taken_def)

text \<open>One event, taken and reconciled by the only worker.\<close>

lemma one_round:
  assumes "fst (recon n s) = (\<lparr>Requeue = False, RequeueAfter = 0\<rparr>, None)"
  shows "\<exists>c c1. (rc_step recon)\<^sup>*\<^sup>* (rc_start 1 s) c \<and> rc_step recon c c1 \<and> rlog c1 = Ended n True # rlog c \<and> rs c = s
    \<and> n \<notin> dirty (rq c) \<and> n \<notin> delayed (rq c) \<and> rlog c = [Began n, Event n]"
proof -
  let ?c0 = "rc_start 1 s" let ?c1 = "?c0\<lparr>rq := wq_Add n (rq ?c0), rlog := Event n # rlog ?c0\<rparr>"
  let ?q = "newQueue\<lparr>processing := {n}\<rparr>"
  let ?c2 = "?c1\<lparr>rq := ?q, workers := (workers ?c1)[0 := Got n], rlog := Began n # rlog ?c1\<rparr>"
  let ?r = "(\<lparr>Requeue = False, RequeueAfter = 0\<rparr>, None)"
  have 1: "rc_step recon ?c0 ?c1" by (rule rc_step.event)
  have 2: "rc_step recon ?c1 ?c2" by (rule rc_step.take) (auto simp: rc_start_def wq_Get_def wq_Add_def newQueue_def)
  have r: "recon n (rs ?c2) = (?r, snd (recon n s))" using assms by (simp add: rc_start_def prod_eq_iff)
  have 3: "rc_step recon ?c2 (?c2\<lparr>rq := after_reconcile 0 n ?r (rq ?c2), workers := (workers ?c2)[0 := Handled n],
      rs := snd (recon n s), rlog := Ended n (None = (None :: error option)) # rlog ?c2\<rparr>)"
    by (rule rc_step.handle [where recon = recon and n = n and c = ?c2, OF _ _ r]) (simp_all add: rc_start_def)
  have "(rc_step recon)\<^sup>*\<^sup>* ?c0 ?c1" by (rule r_into_rtranclp) (rule 1)
  then have 4: "(rc_step recon)\<^sup>*\<^sup>* ?c0 ?c2" by (rule rtranclp.rtrancl_into_rtrancl) (rule 2)
  show ?thesis by (rule exI [of _ ?c2], rule exI, rule conjI [OF 4], rule conjI [OF 3]) (simp add: rc_start_def newQueue_def)
qed

end
