(* ===== verification/Reconcilers.thy ===== *)
theory Reconcilers
  imports Lifecycle WorkQueue
begin

text \<open>
  The two reconcilers of the program (\<open>AlcubCon.Reconcile\<close> of \<open>pkg/manager\<close> and
  \<open>Node.Reconcile\<close> of \<open>pkg/controlrpc\<close>) under the workers of \<open>WorkQueue\<close>, which run
  them. The workers repeat a reconciliation that returns an error. Both reconcilers drop the error of the
  write they exist for: the workers then take the failure for a success and forget it.
\<close>

section \<open>The reconcilers as the workers call them\<close>

definition no_requeue :: reconcile_Result where
  "no_requeue = \<lparr>Requeue = False, RequeueAfter = 0\<rparr>"

definition alcub_recon :: "'w env \<Rightarrow> string \<Rightarrow> AlcubCon \<times> 'w \<Rightarrow> (reconcile_Result \<times> error option) \<times> AlcubCon \<times> 'w" where
  "alcub_recon E name s = (case AlcubCon_Reconcile E name (fst s) (snd s) of (err, al, w) \<Rightarrow> ((no_requeue, err), al, w))"

definition node_recon :: "'w env \<Rightarrow> NodeMgr \<Rightarrow> string \<Rightarrow> 'w \<Rightarrow> (reconcile_Result \<times> error option) \<times> 'w" where
  "node_recon E n name w = (case Node_Reconcile E n name w of (err, w1) \<Rightarrow> ((no_requeue, err), w1))"

section \<open>Failures they do not report\<close>

text \<open>The resource may go, but removing its finalizers fails.\<close>

definition release_fails :: "'w env \<Rightarrow> string \<Rightarrow> AlcubCon \<times> 'w \<Rightarrow> bool" where
  "release_fails E name s = (case kube_get E name (snd s) of
     (Inr a, w1) \<Rightarrow> DeletionTimestamp (Meta a) \<noteq> None \<and> validBeDelete a = None
       \<and> fst (RetryOnConflict DefaultRetry (kube_update E (a\<lparr>Meta := (Meta a)\<lparr>Finalizers := []\<rparr>\<rparr>)) w1) \<noteq> None
   | _ \<Rightarrow> False)"

text \<open>The node was read, but the update of its labels fails (with an error, not a panic).\<close>

definition labels_fail :: "'w env \<Rightarrow> NodeMgr \<Rightarrow> string \<Rightarrow> 'w \<Rightarrow> bool" where
  "labels_fail E n name w = (case node_get E name w of
     (Inr x, w1) \<Rightarrow> (case fst (updateNode E name (snd (reconcile_fns n (Inr x))) w1) of
         None \<Rightarrow> False | Some (GoPanic m) \<Rightarrow> False | Some _ \<Rightarrow> True)
   | _ \<Rightarrow> False)"

interpretation alcubs: forgetful "alcub_recon E" "release_fails E"
  by unfold_locales
    (auto simp: alcub_recon_def release_fails_def AlcubCon_Reconcile_def no_requeue_def split: prod.splits sum.splits)

interpretation labels: forgetful "node_recon E nm" "labels_fail E nm"
proof unfold_locales
  fix name w assume "labels_fail E nm name w"
  then show "fst (node_recon E nm name w) = (\<lparr>Requeue = False, RequeueAfter = 0\<rparr>, None)"
    by (auto simp: node_recon_def labels_fail_def Node_Reconcile_def reconcile_fns_def no_requeue_def Let_def
        split: prod.splits sum.splits option.splits error.splits)
qed

section \<open>Properties\<close>

text \<open>C11: A failed release is forgotten. When the resource is marked and not attached but the update that
  removes its finalizers fails, the workers take the reconciliation for a success: they reset its count of
  failures and do not reconcile the resource again until its next event, although they repeat every
  reconciliation that returns an error.\<close>

theorem release_forgotten:
  assumes "(rc_step (alcub_recon E))\<^sup>*\<^sup>* (rc_start k s) c" "rc_step (alcub_recon E) c c1" "rlog c1 = Ended n ok # rlog c"
    and "release_fails E n (rs c)" "n \<notin> dirty (rq c)" "n \<notin> delayed (rq c)"
    and "(rc_step (alcub_recon E))\<^sup>*\<^sup>* c1 c2" "rlog c2 = l @ rlog c1" "Event n \<notin> set l"
  shows "ok \<and> failures (rq c1) n = 0 \<and> n \<notin> set (begun l)"
  by (rule alcubs.not_repeated [OF assms])

text \<open>A failed update of a node's labels is forgotten in the same way: the reconciler of the nodes drops
  the error of the deferred update.\<close>

theorem labels_forgotten:
  assumes "(rc_step (node_recon E nm))\<^sup>*\<^sup>* (rc_start k s) c" "rc_step (node_recon E nm) c c1" "rlog c1 = Ended n ok # rlog c"
    and "labels_fail E nm n (rs c)" "n \<notin> dirty (rq c)" "n \<notin> delayed (rq c)"
    and "(rc_step (node_recon E nm))\<^sup>*\<^sup>* c1 c2" "rlog c2 = l @ rlog c1" "Event n \<notin> set l"
  shows "ok \<and> failures (rq c1) n = 0 \<and> n \<notin> set (begun l)"
  by (rule labels.not_repeated [OF assms])

section \<open>Witnesses\<close>

text \<open>A server that answers every update with an error.\<close>

definition sick_env :: "reg env" where
  "sick_env = reg_env\<lparr>kube_update := (\<lambda>x w. (Some (ApiErr ReasonOther ''etcd''), w)),
     node_get := (\<lambda>n w. (Inr demo_node, w)), node_update := (\<lambda>x w. (Some (ApiErr ReasonOther ''etcd''), w))\<rparr>"

lemma sick_release: "release_fails sick_env ''pvc-1'' (NewAlcubCon, demo_reg [])"
  by (simp add: release_fails_def sick_env_def reg_env_def demo_reg_def validBeDelete_def ver_def zero_status_def demo_obj_def
      RetryOnConflict_attempts DefaultRetry_def numeral_eq_Suc Let_def)

lemma sick_labels: "labels_fail sick_env demo_mgr ''node-1'' []"
  by (simp add: labels_fail_def sick_env_def reg_env_def updateNode_def update_once_def reconcile_fns_def labelController_def
      demo_node_def demo_mgr_def tempReplace_def tempNodeKey_def ReplaceAll.simps
      RetryOnConflict_attempts DefaultRetry_def numeral_eq_Suc Let_def gm_get_def gm_items_def)

theorem release_forgotten_witness:
  "\<exists>c c1. (rc_step (alcub_recon sick_env))\<^sup>*\<^sup>* (rc_start 1 (NewAlcubCon, demo_reg [])) c \<and> rc_step (alcub_recon sick_env) c c1
     \<and> rlog c1 = [Ended ''pvc-1'' True, Began ''pvc-1'', Event ''pvc-1''] \<and> failures (rq c1) ''pvc-1'' = 0"
proof -
  have q: "fst (alcub_recon sick_env ''pvc-1'' (NewAlcubCon, demo_reg [])) = (\<lparr>Requeue = False, RequeueAfter = 0\<rparr>, None)"
    by (rule alcubs.quiet [OF sick_release])
  obtain c c1 where c: "(rc_step (alcub_recon sick_env))\<^sup>*\<^sup>* (rc_start 1 (NewAlcubCon, demo_reg [])) c" "rc_step (alcub_recon sick_env) c c1"
    "rlog c1 = Ended ''pvc-1'' True # rlog c" "rs c = (NewAlcubCon, demo_reg [])" "''pvc-1'' \<notin> dirty (rq c)" "''pvc-1'' \<notin> delayed (rq c)"
    "rlog c = [Began ''pvc-1'', Event ''pvc-1'']" using one_round [where recon = "alcub_recon sick_env", OF q] by blast
  have "failures (rq c1) ''pvc-1'' = 0"
    using release_forgotten [OF c(1-3) _ c(5,6) rtranclp.rtrancl_refl, of "[]"] sick_release c(4) by simp
  with c show ?thesis by auto
qed

theorem labels_forgotten_witness:
  "\<exists>c c1. (rc_step (node_recon sick_env demo_mgr))\<^sup>*\<^sup>* (rc_start 1 []) c
     \<and> rc_step (node_recon sick_env demo_mgr) c c1
     \<and> rlog c1 = [Ended ''node-1'' True, Began ''node-1'', Event ''node-1''] \<and> failures (rq c1) ''node-1'' = 0"
proof -
  let ?r = "node_recon sick_env demo_mgr"
  have q: "fst (?r ''node-1'' []) = (\<lparr>Requeue = False, RequeueAfter = 0\<rparr>, None)" by (rule labels.quiet [OF sick_labels])
  obtain c c1 where c: "(rc_step ?r)\<^sup>*\<^sup>* (rc_start 1 []) c" "rc_step ?r c c1"
    "rlog c1 = Ended ''node-1'' True # rlog c" "rs c = []" "''node-1'' \<notin> dirty (rq c)" "''node-1'' \<notin> delayed (rq c)"
    "rlog c = [Began ''node-1'', Event ''node-1'']" using one_round [where recon = ?r, OF q] by blast
  have "failures (rq c1) ''node-1'' = 0"
    using labels_forgotten [OF c(1-3) _ c(5,6) rtranclp.rtrancl_refl, of "[]"] sick_labels c(4) by simp
  with c show ?thesis by auto
qed


section \<open>Releases that succeed\<close>

text \<open>Reconciling a resource leaves the others alone.\<close>

lemma Reconcile_other:
  assumes rel: "reliable E cur past" and "AlcubCon_Reconcile E m al w = (e, al', w')" "n \<noteq> m"
  shows "cur w' n = cur w n"
proof -
  obtain w1 where w1: "kube_get E m w = (case cur w m of None \<Rightarrow> Inl (ApiErr ReasonNotFound m) | Some a \<Rightarrow> Inr a, w1)" "cur w1 = cur w"
    using read_fresh [OF rel, of m w] by auto
  show ?thesis
  proof (cases "cur w m")
    case None
    with assms(2) w1 show ?thesis by (auto simp: AlcubCon_Reconcile_def)
  next
    case (Some a)
    have nm: "Name (Meta a) = m" by (rule stored_name [OF rel Some])
    let ?x = "a\<lparr>Meta := (Meta a)\<lparr>Finalizers := []\<rparr>\<rparr>"
    have u: "fst (kube_update E ?x w1) = None" using rel_update(1) [OF rel, of w1 ?x a] Some w1(2) nm by simp
    have "may_update cur past ?x w1 (snd (kube_update E ?x w1))" using rel by (simp add: reliable_def api_server_def)
    then have "cur (snd (kube_update E ?x w1)) n = cur w n"
      using nm assms(3) w1(2) by (auto simp: may_update_def same_store_def stores_def split: if_splits)
    with assms(2) w1 Some u show ?thesis by (auto simp: AlcubCon_Reconcile_def retry_first split: if_splits)
  qed
qed

fun ended :: "'t happening list \<Rightarrow> 't list" where
  "ended [] = []"
| "ended (Ended n ok # l) = n # ended l"
| "ended (_ # l) = ended l"

lemma ended_append: "ended (l @ l') = ended l @ ended l'"
  by (induction l rule: ended.induct) auto

text \<open>Steps of the workers while nobody else touches the resource of a name.\<close>

definition calm_step :: "'w env \<Rightarrow> 'w current \<Rightarrow> string \<Rightarrow> (string, AlcubCon \<times> 'w) reconciler \<Rightarrow> (string, AlcubCon \<times> 'w) reconciler \<Rightarrow> bool" where
  "calm_step E cur n c c' \<longleftrightarrow> rc_step (alcub_recon E) c c'
     \<and> (rlog c' = rlog c \<longrightarrow> cur (snd (rs c')) n = cur (snd (rs c)) n)"

definition releasing :: "'w current \<Rightarrow> string \<Rightarrow> CsiAlcub \<Rightarrow> (string, AlcubCon \<times> 'w) reconciler \<Rightarrow> string list \<Rightarrow> bool" where
  "releasing cur n a c done \<longleftrightarrow> cur (snd (rs c)) n = (if n \<in> set done then None else Some a)"

lemma calm_releasing:
  assumes "reliable E cur past" "calm_step E cur n c c'" "DeletionTimestamp (Meta a) \<noteq> None" "Node (Status a) = []"
    and "releasing cur n a c xs" "rlog c' = l @ rlog c"
  shows "releasing cur n a c' (ended l @ xs)"
proof -
  have "rc_step (alcub_recon E) c c'" using assms(2) by (simp add: calm_step_def)
  then show ?thesis
  proof cases
    case (handle i m res err s b)
    then have l: "l = [Ended m (err = None)]" using assms(6) by simp
    obtain al w where s: "s = (al, w)" by (cases s)
    with handle have r: "AlcubCon_Reconcile E m (fst (rs c)) (snd (rs c)) = (err, al, w)"
      by (auto simp: alcub_recon_def split: prod.splits)
    show ?thesis
    proof (cases "m = n")
      case True
      have "cur w n = None"
      proof (cases "cur (snd (rs c)) n")
        case None
        obtain w1 where "kube_get E n (snd (rs c)) = (Inl (ApiErr ReasonNotFound n), w1)" "cur w1 = cur (snd (rs c))"
          using read_fresh [OF assms(1), of n "snd (rs c)"] None by auto
        with r True None show ?thesis by (auto simp: AlcubCon_Reconcile_def)
      next
        case (Some x)
        then have "x = a" using assms(5) by (auto simp: releasing_def split: if_splits)
        with Reconcile_releases [OF assms(1) Some _ _ r [unfolded True]] assms(3,4) show ?thesis by simp
      qed
      with handle l s True show ?thesis by (simp add: releasing_def)
    next
      case False
      then have "cur w n = cur (snd (rs c)) n" using Reconcile_other [OF assms(1) r] by simp
      with handle l s False assms(5) show ?thesis by (simp add: releasing_def)
    qed
  qed (use assms(2,5,6) in \<open>auto simp: releasing_def calm_step_def\<close>)
qed

lemma calm_run:
  assumes "reliable E cur past" "(calm_step E cur n)\<^sup>*\<^sup>* c c'" "DeletionTimestamp (Meta a) \<noteq> None" "Node (Status a) = []"
    and "cur (snd (rs c)) n = Some a" "rlog c' = l @ rlog c"
  shows "releasing cur n a c' (ended l)"
  using assms(2,6)
proof (induction arbitrary: l rule: rtranclp_induct)
  case base
  with assms(5) show ?case by (simp add: releasing_def)
next
  case (step c1 c2)
  have "(rc_step (alcub_recon E))\<^sup>*\<^sup>* c c1" using step.hyps(1)
    by (rule rtranclp_mono [THEN predicate2D, rotated]) (auto simp: calm_step_def)
  then obtain l1 where l1: "rlog c1 = l1 @ rlog c" using rc_run_queue by blast
  have "rc_step (alcub_recon E) c1 c2" using step.hyps(2) by (simp add: calm_step_def)
  then obtain l2 where l2: "rlog c2 = l2 @ rlog c1" using rc_step_queue by blast
  have "l = l2 @ l1" using l1 l2 step.prems by simp
  with calm_releasing [OF assms(1) step.hyps(2) assms(3,4) step.IH [OF l1] l2] show ?case by (simp add: ended_append)
qed

text \<open>C10: A release that succeeds is done by the first reconciliation. Against an API server that
  answers every read with what is stored and carries out every update of the current version, and while
  nobody else touches the resource, one that is marked and attached to no node stays as it is until a
  worker has reconciled it, and is gone from then on, however often and in whatever order this and other
  resources are reconciled.\<close>

theorem release_done:
  assumes "reliable E cur past" "(calm_step E cur n)\<^sup>*\<^sup>* c c'" "rlog c' = l @ rlog c"
    and "cur (snd (rs c)) n = Some a" "DeletionTimestamp (Meta a) \<noteq> None" "Node (Status a) = []"
  shows "cur (snd (rs c')) n = (if n \<in> set (ended l) then None else Some a)"
  using calm_run [OF assms(1,2,5,6,4,3)] by (simp add: releasing_def)

theorem release_done_witness:
  "\<exists>c c1. rs c = (NewAlcubCon, demo_reg []) \<and> calm_step reg_env reg_cur ''pvc-1'' c c1
     \<and> rlog c1 = [Ended ''pvc-1'' True, Began ''pvc-1'', Event ''pvc-1''] \<and> reg_cur (snd (rs c1)) ''pvc-1'' = None"
proof -
  obtain a where a: "reg_cur (demo_reg []) ''pvc-1'' = Some a" "DeletionTimestamp (Meta a) \<noteq> None" "Node (Status a) = []"
    by (simp add: demo_reg_def zero_status_def)
  obtain e al w where r: "AlcubCon_Reconcile reg_env ''pvc-1'' NewAlcubCon (demo_reg []) = (e, al, w)" by (metis prod_cases3)
  have "e = None" using Reconcile_releases [where E = reg_env and cur = reg_cur and past = reg_past, OF reg_reliable a r] by simp
  then have q: "fst (alcub_recon reg_env ''pvc-1'' (NewAlcubCon, demo_reg [])) = (\<lparr>Requeue = False, RequeueAfter = 0\<rparr>, None)"
    using r by (simp add: alcub_recon_def no_requeue_def)
  obtain c c1 where c: "rc_step (alcub_recon reg_env) c c1" "rlog c1 = Ended ''pvc-1'' True # rlog c" "rs c = (NewAlcubCon, demo_reg [])"
    "rlog c = [Began ''pvc-1'', Event ''pvc-1'']" using one_round [where recon = "alcub_recon reg_env", OF q] by blast
  have s: "calm_step reg_env reg_cur ''pvc-1'' c c1" using c(1,2) by (simp add: calm_step_def)
  have run: "(calm_step reg_env reg_cur ''pvc-1'')\<^sup>*\<^sup>* c c1" by (rule r_into_rtranclp) (rule s)
  have "reg_cur (snd (rs c1)) ''pvc-1'' = (if ''pvc-1'' \<in> set (ended [Ended ''pvc-1'' True]) then None else Some a)"
    by (rule release_done [where E = reg_env and cur = reg_cur and past = reg_past, OF reg_reliable run])
      (use c a in simp_all)
  with c s show ?thesis by auto
qed

end
