(* ===== verification/Concurrent.thy ===== *)
theory Concurrent
  imports Registry
begin

text \<open>
  The manager of resources (\<open>pkg/manager\<close>) as it is used: by many goroutines at once. The gRPC
  handlers and the workers of the reconciler share one \<open>AlcubCon\<close>; its maps are only touched under
  their locks, so each locked section is one step, and so is each call of the API server. A goroutine is
  what is left of its call; \<open>thread_step\<close> takes its next step. Of the other operations, \<open>Delete\<close> and
  \<open>Update\<close> change the world only, which may change at any time, and \<open>ForEach\<close>, \<open>GetByName\<close> and
  \<open>GetNodeInfo\<close> change nothing.

  A goroutine that is not disturbed does what the definitions of \<open>Manager\<close> say. Disturbed by any
  others, a volume that was created keeps its entry in the index. But a creation that is answered with an
  error although the API server has stored the resource, as after a time-out, may take away the entry that
  the reconciler made meanwhile: the volume then exists and cannot be deleted.
\<close>

section \<open>Goroutines\<close>

datatype thread =
    Create string CsiAlcubSpec
  | Reserved string CsiAlcubSpec
  | Refused string CsiAlcubSpec error
  | Created string CsiAlcubSpec
  | NotCreated string CsiAlcubSpec error
  | Reconcile string
  | Seen CsiAlcub
  | Recorded CsiAlcub
  | Releasing CsiAlcub nat
  | Reconciled "error option"
  | Lookup string
  | Named string
  | Found "CsiAlcub option"

text \<open>The next step of a goroutine, unless its call has returned. \<open>Refused\<close> still has to run the
  deferred function of \<open>Create\<close>; \<open>Releasing\<close> counts the attempts that are left.\<close>

fun thread_step :: "'w env \<Rightarrow> thread \<Rightarrow> AlcubCon \<times> 'w \<Rightarrow> (thread \<times> AlcubCon \<times> 'w) option" where
  "thread_step E (Create name sp) (al, w) = Some (case reverseUuid (Uuid sp) name al of
     (Some e, al1) \<Rightarrow> (NotCreated name sp e, al1, w) | (None, al1) \<Rightarrow> (Reserved name sp, al1, w))"
| "thread_step E (Reserved name sp) (al, w) = Some (case kube_create E (newobj name sp) w of
     (None, w1) \<Rightarrow> (Created name sp, al, w1)
   | (Some e, w1) \<Rightarrow> (Refused name sp
       (if IsAlreadyExists e then NewAlreadyExistError (name @ '' is alerady exist!'') else e), al, w1))"
| "thread_step E (Refused name sp e) (al, w) = Some (NotCreated name sp e, releaseUuid (Uuid sp) al, w)"
| "thread_step E (Reconcile name) (al, w) = Some (case kube_get E name w of
     (Inl e, w1) \<Rightarrow> (Reconciled (if IsNotFound e then None else Some e), al, w1)
   | (Inr alcub, w1) \<Rightarrow>
       if DeletionTimestamp (Meta alcub) \<noteq> None then
         (if validBeDelete alcub = None
          then (Releasing (alcub\<lparr>Meta := (Meta alcub)\<lparr>Finalizers := []\<rparr>\<rparr>) DefaultRetry, al, w1)
          else (Reconciled None, al, w1))
       else (Seen alcub, al, w1))"
| "thread_step E (Seen alcub) (al, w) =
     Some (Recorded alcub, snd (reverseUuid (Uuid (Spec alcub)) (Name (Meta alcub)) al), w)"
| "thread_step E (Recorded alcub) (al, w) = Some (Reconciled None, reverseNode (Some (Status alcub)) al, w)"
| "thread_step E (Releasing x k) (al, w) = Some (case kube_update E x w of
     (None, w1) \<Rightarrow> (Reconciled None, al, w1)
   | (Some e, w1) \<Rightarrow> (if IsConflict e \<and> 1 < k then Releasing x (k - 1) else Reconciled None, al, w1))"
| "thread_step E (Lookup uuid) (al, w) = Some
     (if uuid = [] \<or> getNameByuuid uuid al = [] then Found None else Named (getNameByuuid uuid al), al, w)"
| "thread_step E (Named name) (al, w) = Some (case AlcubCon_GetByName E name w of (x, w1) \<Rightarrow> (Found x, al, w1))"
| "thread_step E _ (al, w) = None"

text \<open>All goroutines of a process and what they share. A new call may start at any time, and a call that has
  returned stays in the list with its result. The world may change at any time.\<close>

type_synonym 'w crowd = "thread list \<times> AlcubCon \<times> 'w"

fun create_of :: "thread \<Rightarrow> string option" where
  "create_of (Create n sp) = Some (Uuid sp)"
| "create_of (Reserved n sp) = Some (Uuid sp)"
| "create_of (Refused n sp e) = Some (Uuid sp)"
| "create_of (Created n sp) = Some (Uuid sp)"
| "create_of (NotCreated n sp e) = Some (Uuid sp)"
| "create_of _ = None"

inductive crowd_step :: "'w env \<Rightarrow> 'w crowd \<Rightarrow> 'w crowd \<Rightarrow> bool" for E :: "'w env" where
  create: "crowd_step E (ts, al, w) (ts @ [Create n sp], al, w)"
| reconcile: "crowd_step E (ts, al, w) (ts @ [Reconcile n], al, w)"
| lookup: "crowd_step E (ts, al, w) (ts @ [Lookup u], al, w)"
| thread: "i < length ts \<Longrightarrow> thread_step E (ts ! i) (al, w) = Some (t, al', w') \<Longrightarrow> crowd_step E (ts, al, w) (ts[i := t], al', w')"
| outside: "crowd_step E (ts, al, w) (ts, al, w')"

inductive_cases crowd_stepE: "crowd_step E (ts, al, w) s'"

abbreviation crowd_run :: "'w env \<Rightarrow> 'w crowd \<Rightarrow> 'w crowd \<Rightarrow> bool" where
  "crowd_run E \<equiv> (crowd_step E)\<^sup>*\<^sup>*"

lemma steps_run: "crowd_step E s t \<Longrightarrow> crowd_run E t u \<Longrightarrow> crowd_run E s u"
  by (rule converse_rtranclp_into_rtranclp)

section \<open>One goroutine alone\<close>

text \<open>At most \<open>n\<close> steps of one goroutine.\<close>

fun alone :: "'w env \<Rightarrow> nat \<Rightarrow> thread \<times> AlcubCon \<times> 'w \<Rightarrow> thread \<times> AlcubCon \<times> 'w" where
  "alone E 0 s = s"
| "alone E (Suc n) (t, al, w) = (case thread_step E t (al, w) of None \<Rightarrow> (t, al, w) | Some s \<Rightarrow> alone E n s)"

lemma alone_returned: "thread_step E t (al, w) = None \<Longrightarrow> alone E n (t, al, w) = (t, al, w)"
  by (cases n) simp_all

lemma alone_create:
  "alone E 3 (Create name sp, al, w) = (case AlcubCon_Create E name (Some sp) al w of
     (None, al1, w1) \<Rightarrow> (Created name sp, al1, w1) | (Some e, al1, w1) \<Rightarrow> (NotCreated name sp e, al1, w1))"
  by (auto simp: AlcubCon_Create_def numeral_3_eq_3 split: prod.splits option.splits)

lemma alone_releasing: "k \<noteq> 0 \<Longrightarrow> alone E k (Releasing x k, al, w) = (Reconciled None, al, snd (attempts k l (kube_update E x) w))"
proof (induction k arbitrary: w l)
  case (Suc k)
  then show ?case by (cases k) (auto simp: alone_returned split: prod.splits option.splits)
qed simp

lemma alone_reconcile:
  "alone E 6 (Reconcile name, al, w) = (case AlcubCon_Reconcile E name al w of (err, al1, w1) \<Rightarrow> (Reconciled err, al1, w1))"
proof -
  have step: "alone E 6 (t, al, w) = (case thread_step E t (al, w) of None \<Rightarrow> (t, al, w) | Some s \<Rightarrow> alone E 5 s)"
    "alone E 5 (t, al, w) = (case thread_step E t (al, w) of None \<Rightarrow> (t, al, w) | Some s \<Rightarrow> alone E 4 s)"
    "alone E 4 (t, al, w) = (case thread_step E t (al, w) of None \<Rightarrow> (t, al, w) | Some s \<Rightarrow> alone E 3 s)" for t al w
    using alone.simps(2) [of E 5 t al w] alone.simps(2) [of E 4 t al w] alone.simps(2) [of E 3 t al w] by simp_all
  have r: "alone E 5 (Releasing x DefaultRetry, al, w) = (Reconciled None, al, snd (RetryOnConflict DefaultRetry (kube_update E x) w))" for x al w
    using alone_releasing [of 5 E x al w None] by (simp add: RetryOnConflict_attempts DefaultRetry_def)
  have seen: "alone E 5 (Seen a, al, w)
      = (Reconciled None, reverseNode (Some (Status a)) (snd (reverseUuid (Uuid (Spec a)) (Name (Meta a)) al)), w)" for a al w
    by (simp add: step(2,3) alone_returned)
  show ?thesis
    by (auto simp: AlcubCon_Reconcile_def step(1) r seen alone_returned split: prod.splits sum.splits)
qed

lemma alone_lookup:
  "alone E 2 (Lookup uuid, al, w) = (case AlcubCon_GetByUuid E uuid al w of (x, w1) \<Rightarrow> (Found x, al, w1))"
  by (auto simp: AlcubCon_GetByUuid_def numeral_2_eq_2 Let_def split: prod.splits)

section \<open>The index among many\<close>

text \<open>No two creations drew the same identifier.\<close>

definition own_ids :: "thread list \<Rightarrow> bool" where
  "own_ids ts \<longleftrightarrow> (\<forall>i j u. i < length ts \<and> j < length ts \<and> create_of (ts ! i) = Some u \<and> create_of (ts ! j) = Some u \<longrightarrow> i = j)"

text \<open>A creation that has reserved its identifier, or has succeeded, owns the entry.\<close>

fun owns :: "thread \<Rightarrow> (string \<times> string) option" where
  "owns (Reserved n sp) = Some (Uuid sp, n)"
| "owns (Refused n sp e) = Some (Uuid sp, n)"
| "owns (Created n sp) = Some (Uuid sp, n)"
| "owns _ = None"

definition crowd_inv :: "'w crowd \<Rightarrow> bool" where
  "crowd_inv s \<longleftrightarrow> (case s of (ts, al, w) \<Rightarrow>
     own_ids ts \<longrightarrow> (\<forall>t \<in> set ts. \<forall>u n. owns t = Some (u, n) \<longrightarrow> uuidname al u = Some n))"

lemma owns_create: "owns t = Some (u, n) \<Longrightarrow> create_of t = Some u"
  by (cases t) auto

lemma reverse_entry: "uuidname al u = Some n \<Longrightarrow> reverseUuid v m al = (r, al1) \<Longrightarrow> uuidname al1 u = Some n"
  by (auto simp: reverseUuid_def split: option.splits if_splits)

lemma reverse_own: "reverseUuid u n al = (None, al1) \<Longrightarrow> uuidname al1 u = Some n"
  by (auto simp: reverseUuid_def split: option.splits if_splits)

text \<open>What a step of a goroutine does to its identifier and to the entries.\<close>

lemma thread_step_create: "thread_step E t (al, w) = Some (t', al', w') \<Longrightarrow> create_of t' = create_of t"
  by (cases t) (auto split: prod.splits option.splits sum.splits if_splits)

lemma thread_step_entry:
  assumes "thread_step E t (al, w) = Some (t', al', w')" "uuidname al u = Some n" "create_of t \<noteq> Some u"
  shows "uuidname al' u = Some n"
  using assms reverse_entry [of al u n, OF _ surjective_pairing]
  by (cases t) (auto simp: frame_simps releaseUuid_def split: prod.splits option.splits sum.splits if_splits dest: reverse_entry)

lemma thread_step_owns:
  assumes "thread_step E t (al, w) = Some (t', al', w')" "owns t' = Some (u, n)" "owns t = Some (u, n) \<Longrightarrow> uuidname al u = Some n"
  shows "uuidname al' u = Some n"
  using assms by (cases t) (auto split: prod.splits option.splits sum.splits if_splits dest: reverse_own)


lemma inv_owns: "crowd_inv (ts, al, w) \<Longrightarrow> own_ids ts \<Longrightarrow> i < length ts \<Longrightarrow> owns (ts ! i) = Some (u, n) \<Longrightarrow> uuidname al u = Some n"
  unfolding crowd_inv_def prod.case by (blast dest: nth_mem)

lemma ids_unique: "own_ids ts \<Longrightarrow> i < length ts \<Longrightarrow> j < length ts \<Longrightarrow> create_of (ts ! i) = Some u \<Longrightarrow> create_of (ts ! j) = Some u \<Longrightarrow> i = j"
  by (auto simp: own_ids_def)

text \<open>The creations of a state are among those of the next.\<close>

lemma crowd_step_ids:
  assumes "crowd_step E s s'" "own_ids (fst s')"
  shows "own_ids (fst s)"
  using assms(1)
proof cases
  case (thread i ts al w t al' w')
  have "create_of (ts[i := t] ! j) = create_of (ts ! j)" for j
    using thread_step_create [OF thread(4)] thread(3) by (cases "j = i") simp_all
  with assms(2) thread(1,2) show ?thesis by (simp add: own_ids_def)
qed (use assms(2) in \<open>force simp: own_ids_def nth_append less_Suc_eq\<close>)+

lemma crowd_run_ids: "crowd_run E s s' \<Longrightarrow> own_ids (fst s') \<Longrightarrow> own_ids (fst s)"
  by (induction rule: converse_rtranclp_induct) (auto dest: crowd_step_ids)

lemma crowd_step_inv:
  assumes "crowd_step E s s'" "crowd_inv s"
  shows "crowd_inv s'"
  using assms(1)
proof cases
  case (thread i ts al w t al' w')
  have own: "uuidname al' u = Some n"
    if ids: "own_ids (ts[i := t])" and j: "j < length ts" "owns (ts[i := t] ! j) = Some (u, n)" for j u n
  proof -
    have ids0: "own_ids ts" using crowd_step_ids [OF assms(1)] ids thread(1,2) by simp
    note own0 = inv_owns [OF assms(2) [unfolded thread(1)] ids0]
    show ?thesis
    proof (cases "j = i")
      case True
      then show ?thesis using j thread(3) own0 [of i] by (intro thread_step_owns [OF thread(4)]) auto
    next
      case False
      then have o: "owns (ts ! j) = Some (u, n)" using j by simp
      then have "uuidname al u = Some n" by (rule own0 [OF j(1)])
      moreover have "create_of (ts ! i) \<noteq> Some u"
        using ids_unique [OF ids0 thread(3) j(1)] False owns_create [OF o] by auto
      ultimately show ?thesis by (rule thread_step_entry [OF thread(4)])
    qed
  qed
  show ?thesis unfolding thread(2) crowd_inv_def prod.case
  proof (intro impI ballI allI)
    fix x u n assume ids: "own_ids (ts[i := t])" and x: "x \<in> set (ts[i := t])" "owns x = Some (u, n)"
    from x(1) obtain j where "j < length ts" "x = ts[i := t] ! j" by (auto simp: in_set_conv_nth)
    with own [OF ids] x(2) show "uuidname al' u = Some n" by blast
  qed
qed (use assms(2) crowd_step_ids [OF assms(1)] in \<open>auto simp: crowd_inv_def\<close>)

interpretation crowd: preserved "crowd_step E" crowd_inv
  by unfold_locales (rule crowd_step_inv)

lemma crowd_inv_start: "crowd_inv ([], al, w)"
  by (simp add: crowd_inv_def)





text \<open>A call that has returned stays returned.\<close>

lemma crowd_step_done:
  assumes "crowd_step E s s'" "i < length (fst s)" "\<And>al w. thread_step E (fst s ! i) (al, w) = None"
  shows "i < length (fst s') \<and> fst s' ! i = fst s ! i"
  using assms(1)
proof cases
  case (thread j ts al w t al' w')
  then have "j \<noteq> i" using assms(3) [of al w] by auto
  with thread assms(2) show ?thesis by simp
qed (use assms(2) in \<open>auto simp: nth_append\<close>)

lemma crowd_run_done:
  assumes "crowd_run E s s'" "i < length (fst s)" "\<And>al w. thread_step E (fst s ! i) (al, w) = None"
  shows "i < length (fst s') \<and> fst s' ! i = fst s ! i"
  using assms(1)
proof (induction rule: rtranclp_induct)
  case (step t u)
  then show ?case using crowd_step_done [OF step.hyps(2), of i] assms(3) by simp
qed (use assms(2) in simp)

section \<open>Properties\<close>

text \<open>C14: However many calls run at once, in whatever interleaving of their locked sections and API calls,
  a volume whose creation has returned success has its entry in the index then and in every later state:
  it can be found by its identifier. This relies on the generator: no two creations of the run drew the same
  identifier.\<close>

theorem created_keeps_entry:
  assumes "crowd_run E ([], NewAlcubCon, w0) (ts, al, w)" "i < length ts" "ts ! i = Created n sp"
    and "crowd_run E (ts, al, w) (ts', al', w')" "own_ids ts'"
  shows "uuidname al (Uuid sp) = Some n \<and> uuidname al' (Uuid sp) = Some n
    \<and> AlcubCon_GetByUuid E (Uuid sp) al' v = (if Uuid sp = [] \<or> n = [] then (None, v) else AlcubCon_GetByName E n v)"
proof -
  have inv: "crowd_inv (ts, al, w)" by (rule crowd.run_inv [OF assms(1) crowd_inv_start])
  have ids: "own_ids ts" using crowd_run_ids [OF assms(4)] assms(5) by simp
  have "i < length ts' \<and> ts' ! i = Created n sp" using crowd_run_done [OF assms(4), of i] assms(2,3) by simp
  then have "uuidname al (Uuid sp) = Some n" "uuidname al' (Uuid sp) = Some n"
    using inv_owns [OF inv ids assms(2)] inv_owns [OF crowd.run_inv [OF assms(4) inv] assms(5), of i] assms(3) by auto
  then show ?thesis by (simp add: AlcubCon_GetByUuid_def getNameByuuid_def)
qed


text \<open>A goroutine that is not disturbed does what the definitions of the manager say: its steps, taken
  one after the other, end after at most six and give the result, the index and the world of
  \<open>Create\<close>, \<open>Reconcile\<close> and \<open>GetByUuid\<close>.\<close>

lemma undisturbed:
  "alone E 3 (Create name sp, al, w) = (case AlcubCon_Create E name (Some sp) al w of
      (None, al1, w1) \<Rightarrow> (Created name sp, al1, w1) | (Some e, al1, w1) \<Rightarrow> (NotCreated name sp e, al1, w1))
   \<and> alone E 6 (Reconcile name, al, w) = (case AlcubCon_Reconcile E name al w of (err, al1, w1) \<Rightarrow> (Reconciled err, al1, w1))
   \<and> alone E 2 (Lookup uuid, al, w) = (case AlcubCon_GetByUuid E uuid al w of (x, w1) \<Rightarrow> (Found x, al, w1))"
  by (intro conjI alone_create alone_reconcile alone_lookup)

text \<open>C16: A lost answer loses the volume. When the API server stores a resource but its answer to the
  creation is an error, there is an interleaving in which the reconciler sees the resource and enters it
  into the index before the failed creation releases the identifier. Then the resource exists, its last
  event has been handled, and the identifier leads nowhere: deleting the volume is answered with success
  and does nothing.\<close>

theorem lost_answer:
  assumes "kube_create E (newobj n sp) w = (Some e, w1)" "kube_get E n w1 = (Inr a, w2)"
    and "Name (Meta a) = n" "Spec a = sp" "DeletionTimestamp (Meta a) = None"
  shows "\<exists>ts al. crowd_run E ([], NewAlcubCon, w) (ts, al, w2) \<and> Reconciled None \<in> set ts \<and> (\<exists>e'. NotCreated n sp e' \<in> set ts)
    \<and> (\<forall>c v. c_alcub c = al \<longrightarrow> DeleteVolume E (Uuid sp) c v = (None, c, v))"
proof -
  let ?e = "if IsAlreadyExists e then NewAlreadyExistError (n @ '' is alerady exist!'') else e"
  define al1 where "al1 = snd (reverseUuid (Uuid sp) n NewAlcubCon)"
  let ?al2 = "snd (reverseUuid (Uuid sp) n al1)"
  let ?al3 = "reverseNode (Some (Status a)) ?al2"
  let ?al4 = "releaseUuid (Uuid sp) ?al3"
  have r: "reverseUuid (Uuid sp) n NewAlcubCon = (None, al1)" by (simp add: al1_def reverseUuid_def NewAlcubCon_def)
  have s1: "crowd_step E ([], NewAlcubCon, w) ([Create n sp], NewAlcubCon, w)"
    using crowd_step.create [of E "[]" NewAlcubCon w n sp] by simp
  have s2: "crowd_step E ([Create n sp], NewAlcubCon, w) ([Reserved n sp], al1, w)"
    using crowd_step.thread [of 0 "[Create n sp]" E NewAlcubCon w] by (simp add: r)
  have s3: "crowd_step E ([Reserved n sp], al1, w) ([Refused n sp ?e], al1, w1)"
    using crowd_step.thread [of 0 "[Reserved n sp]" E al1 w] by (simp add: assms(1))
  have s4: "crowd_step E ([Refused n sp ?e], al1, w1) ([Refused n sp ?e, Reconcile n], al1, w1)"
    using crowd_step.reconcile [of E "[Refused n sp ?e]" al1 w1 n] by simp
  have s5: "crowd_step E ([Refused n sp ?e, Reconcile n], al1, w1) ([Refused n sp ?e, Seen a], al1, w2)"
    using crowd_step.thread [of 1 "[Refused n sp ?e, Reconcile n]" E al1 w1] by (simp add: assms(2,5))
  have s6: "crowd_step E ([Refused n sp ?e, Seen a], al1, w2) ([Refused n sp ?e, Recorded a], ?al2, w2)"
    using crowd_step.thread [of 1 "[Refused n sp ?e, Seen a]" E al1 w2] by (simp add: assms(3,4))
  have s7: "crowd_step E ([Refused n sp ?e, Recorded a], ?al2, w2) ([Refused n sp ?e, Reconciled None], ?al3, w2)"
    using crowd_step.thread [of 1 "[Refused n sp ?e, Recorded a]" E ?al2 w2] by simp
  have s8: "crowd_step E ([Refused n sp ?e, Reconciled None], ?al3, w2) ([NotCreated n sp ?e, Reconciled None], ?al4, w2)"
    using crowd_step.thread [of 0 "[Refused n sp ?e, Reconciled None]" E ?al3 w2] by simp
  have run: "crowd_run E ([], NewAlcubCon, w) ([NotCreated n sp ?e, Reconciled None], ?al4, w2)"
    by (rule steps_run, rule s1, rule steps_run, rule s2, rule steps_run, rule s3, rule steps_run, rule s4, rule steps_run, rule s5,
        rule steps_run, rule s6, rule steps_run, rule s7, rule steps_run, rule s8, rule rtranclp.rtrancl_refl)
  have "getNameByuuid (Uuid sp) ?al4 = []" by (simp add: idx.name_of_release)
  then have "DeleteVolume E (Uuid sp) c v = (None, c, v)" if "c_alcub c = ?al4" for c v
    using that by (simp add: DeleteVolume_def AlcubCon_GetByUuid_def)
  with run show ?thesis by (intro exI [of _ "[NotCreated n sp ?e, Reconciled None]"] exI [of _ ?al4]) auto
qed

section \<open>Witnesses\<close>

definition race_spec :: CsiAlcubSpec where
  "race_spec = \<lparr>Uuid = ''u1'', Capacity = 1, RbdSc = ''general'', Pool = ''rbd'', Image = ''pvc-1''\<rparr>"

text \<open>The API server of \<open>Registry\<close>, whose answers to creations are lost.\<close>

definition timeout_env :: "reg env" where
  "timeout_env = reg_env\<lparr>kube_create := (\<lambda>x w. (Some (ApiErr ReasonOther ''timeout''), snd (kube_create reg_env x w)))\<rparr>"

theorem lost_answer_witness:
  "\<exists>ts al w. crowd_run timeout_env ([], NewAlcubCon, []) (ts, al, w) \<and> reg_cur w ''pvc-1'' \<noteq> None
     \<and> (\<forall>c v. c_alcub c = al \<longrightarrow> DeleteVolume timeout_env ''u1'' c v = (None, c, v))"
proof -
  let ?w = "snd (kube_create reg_env (newobj ''pvc-1'' race_spec) [])"
  let ?a = "ver 0 ''pvc-1'' (newobj ''pvc-1'' race_spec)"
  have c: "kube_create timeout_env (newobj ''pvc-1'' race_spec) [] = (Some (ApiErr ReasonOther ''timeout''), ?w)" by (simp add: timeout_env_def)
  have s: "reg_cur ?w ''pvc-1'' = Some ?a" by (simp add: reg_env_def newobj_def ver_def)
  then have g: "kube_get timeout_env ''pvc-1'' ?w = (Inr ?a, ?w)" by (simp add: timeout_env_def reg_env_def)
  have a: "Name (Meta ?a) = ''pvc-1''" "Spec ?a = race_spec" "DeletionTimestamp (Meta ?a) = None" by (simp_all add: newobj_def)
  obtain ts al where "crowd_run timeout_env ([], NewAlcubCon, []) (ts, al, ?w)"
    "\<forall>c v. c_alcub c = al \<longrightarrow> DeleteVolume timeout_env (Uuid race_spec) c v = (None, c, v)"
    using lost_answer [OF c g a] by blast
  with s show ?thesis by (auto simp: race_spec_def)
qed

theorem created_keeps_entry_witness:
  "\<exists>ts al w. crowd_run reg_env ([], NewAlcubCon, []) (ts, al, w) \<and> Created ''pvc-1'' race_spec \<in> set ts \<and> uuidname al ''u1'' = Some ''pvc-1''"
proof -
  let ?al = "snd (reverseUuid ''u1'' ''pvc-1'' NewAlcubCon)" and ?w = "snd (kube_create reg_env (newobj ''pvc-1'' race_spec) [])"
  have u: "Uuid race_spec = ''u1''" by (simp add: race_spec_def)
  have s1: "crowd_step reg_env ([], NewAlcubCon, []) ([Create ''pvc-1'' race_spec], NewAlcubCon, [])"
    using crowd_step.create [of reg_env "[]" NewAlcubCon "[]" "''pvc-1''" race_spec] by simp
  have s2: "crowd_step reg_env ([Create ''pvc-1'' race_spec], NewAlcubCon, []) ([Reserved ''pvc-1'' race_spec], ?al, [])"
    using crowd_step.thread [of 0 "[Create ''pvc-1'' race_spec]" reg_env NewAlcubCon "[]"] by (simp add: reverseUuid_def NewAlcubCon_def u)
  have s3: "crowd_step reg_env ([Reserved ''pvc-1'' race_spec], ?al, []) ([Created ''pvc-1'' race_spec], ?al, ?w)"
    using crowd_step.thread [of 0 "[Reserved ''pvc-1'' race_spec]" reg_env ?al "[]"] by (simp add: reg_env_def)
  have run: "crowd_run reg_env ([], NewAlcubCon, []) ([Created ''pvc-1'' race_spec], ?al, ?w)"
    by (rule steps_run, rule s1, rule steps_run, rule s2, rule steps_run, rule s3, rule rtranclp.rtrancl_refl)
  have "uuidname ?al (Uuid race_spec) = Some ''pvc-1''"
    using created_keeps_entry [OF run, of 0 "''pvc-1''" race_spec, OF _ _ rtranclp.rtrancl_refl] by (simp add: own_ids_def)
  then show ?thesis
    by (intro exI [of _ "[Created ''pvc-1'' race_spec]"] exI [of _ ?al] exI [of _ ?w] conjI, intro run) (simp_all add: u)
qed


end
