(* ===== verification/SharedUrl.thy ===== *)
theory SharedUrl
  imports Store
begin

text \<open>
  The client of the alcubierre server (\<open>pkg/store/alcub.go\<close>) as a node uses it: by many gRPC calls at
  once, all with the client's own configuration. \<open>do\<close> reads and writes the URL in that configuration
  without a lock. Here each access to the URL and each call of the outside is one step of the goroutine, as
  if accesses were atomic, which Go does not promise.

  What every interleaving keeps: the node name, and the URL from the moment it is known and nobody is fetching
  it; and requests only go to URLs that were read from the node's attribute. What goes wrong: a call that
  found no URL writes its own answer over one that another call has fetched and used meanwhile.
\<close>

section \<open>Calls\<close>

text \<open>Where a call of \<open>do\<close> is: before it looks at the URL, before it asks for it, before it stores the answer
  in \<open>fillAlcubUrl\<close>, before it reads the URL, sending to it, or failed.\<close>

datatype call = AtCheck | AtFetch | AtStore string | AtRead | Requesting URL | CallFailed error

fun call_step :: "'w env \<Rightarrow> client \<Rightarrow> call \<Rightarrow> DynConf \<times> 'w \<Rightarrow> (call \<times> DynConf \<times> 'w) option" where
  "call_step E c AtCheck (d, w) = Some (if length (AlucbUrl d) = 0 then AtFetch else AtRead, d, w)"
| "call_step E c AtFetch (d, w) = Some (case FetchUrl E (AlucbPool (conf c)) (''alcubierre_node_'' @ Nodename d) w of
     ((alcuburl, Some err), w1) \<Rightarrow> (CallFailed err, d, w1) | ((alcuburl, None), w1) \<Rightarrow> (AtStore alcuburl, d, w1))"
| "call_step E c (AtStore alcuburl) (d, w) = Some (AtRead, d\<lparr>AlucbUrl := alcuburl\<rparr>, w)"
| "call_step E c AtRead (d, w) = Some (case url_Parse (AlucbUrl d) of Inl e \<Rightarrow> CallFailed e | Inr u \<Rightarrow> Requesting u, d, w)"
| "call_step E c _ (d, w) = None"

text \<open>All calls of a node, the configuration they share and the logged world. Calls start at any time, and the
  world may change at any time.\<close>

type_synonym 'w calls = "call list \<times> DynConf \<times> 'w \<times> event list"

inductive calls_step :: "'w env \<Rightarrow> client \<Rightarrow> 'w calls \<Rightarrow> 'w calls \<Rightarrow> bool" for E :: "'w env" and c :: client where
  start: "calls_step E c (ts, d, w, l) (ts @ [AtCheck], d, w, l)"
| step: "i < length ts \<Longrightarrow> call_step (traced E) c (ts ! i) (d, w, l) = Some (t, d', w', l') \<Longrightarrow>
    calls_step E c (ts, d, w, l) (ts[i := t], d', w', l')"
| outside: "calls_step E c (ts, d, w, l) (ts, d, w', l)"

abbreviation calls_run :: "'w env \<Rightarrow> client \<Rightarrow> 'w calls \<Rightarrow> 'w calls \<Rightarrow> bool" where
  "calls_run E c \<equiv> (calls_step E c)\<^sup>*\<^sup>*"

lemma calls_then: "calls_step E c s t \<Longrightarrow> calls_run E c t u \<Longrightarrow> calls_run E c s u"
  by (rule converse_rtranclp_into_rtranclp)

text \<open>A call that is not disturbed is the method \<open>do\<close>: it sends to the URL, or fails, exactly as
  \<open>client_do\<close> does, and leaves the same configuration.\<close>

fun call_alone :: "'w env \<Rightarrow> client \<Rightarrow> nat \<Rightarrow> call \<times> DynConf \<times> 'w \<Rightarrow> call \<times> DynConf \<times> 'w" where
  "call_alone E c 0 s = s"
| "call_alone E c (Suc n) (t, d, w) = (case call_step E c t (d, w) of None \<Rightarrow> (t, d, w) | Some s \<Rightarrow> call_alone E c n s)"

lemma call_alone_done: "call_step E c t (d, w) = None \<Longrightarrow> call_alone E c n (t, d, w) = (t, d, w)"
  by (cases n) simp_all

lemma call_undisturbed:
  assumes "dynConf c = Some d" "call_alone E c 4 (AtCheck, d, w) = (t, d', w1)"
  shows "(case t of Requesting u \<Rightarrow> client_do E c None fn s w
        = (let (res, w2) = fn (dev_url c u) (auth_of c) d' s w1 in (res, None, c\<lparr>dynConf := Some d'\<rparr>, w2))
    | CallFailed e \<Rightarrow> client_do E c None fn s w = ((Some e, s), None, c\<lparr>dynConf := Some d'\<rparr>, w1)
    | _ \<Rightarrow> False)"
proof -
  have four: "call_alone E c 4 x = call_alone E c (Suc (Suc (Suc (Suc 0)))) x" for x by (simp add: numeral_eq_Suc)
  have c: "c\<lparr>dynConf := Some d\<rparr> = c" using assms(1) by (cases c) simp
  show ?thesis
  proof (cases "AlucbUrl d = []")
    case True
    then show ?thesis using assms
      by (auto simp: four client_do_unknown fillAlcubUrl_def Let_def split: prod.splits option.splits sum.splits)
  next
    case False
    show ?thesis
    proof (cases "url_Parse (AlucbUrl d)")
      case (Inl e)
      with False assms c show ?thesis by (auto simp: four client_do_def)
    next
      case (Inr u)
      with False assms have "t = Requesting u" "d' = d" "w1 = w" by (simp_all add: four)
      with client_do_known [OF assms(1) False Inr] c show ?thesis by (simp add: case_prod_beta)
    qed
  qed
qed

section \<open>What every interleaving keeps\<close>

text \<open>The URL is the one at the start, or the answer to a successful query of the node's attribute.\<close>

definition fetched :: "client \<Rightarrow> DynConf \<Rightarrow> event list \<Rightarrow> string \<Rightarrow> bool" where
  "fetched c d0 l url \<longleftrightarrow> url = AlucbUrl d0 \<or> (\<exists>o1. url_query c d0 o1 \<in> set l \<and> cmd_ok o1 \<and> Out o1 = url)"

fun call_inv :: "(string \<Rightarrow> bool) \<Rightarrow> call \<Rightarrow> bool" where
  "call_inv P (AtStore url) = P url"
| "call_inv P (Requesting u) = (\<exists>url. P url \<and> url_Parse url = Inr u)"
| "call_inv P _ = True"

definition calls_inv :: "client \<Rightarrow> DynConf \<Rightarrow> 'w calls \<Rightarrow> bool" where
  "calls_inv c d0 s \<longleftrightarrow> (case s of (ts, d, w, l) \<Rightarrow>
     Nodename d = Nodename d0 \<and> fetched c d0 l (AlucbUrl d) \<and> (\<forall>t \<in> set ts. call_inv (fetched c d0 l) t))"

lemma fetched_mono: "set l \<subseteq> set l' \<Longrightarrow> fetched c d0 l url \<Longrightarrow> fetched c d0 l' url"
  by (auto simp: fetched_def)

lemma call_inv_mono: "call_inv P t \<Longrightarrow> (\<And>u. P u \<Longrightarrow> Q u) \<Longrightarrow> call_inv Q t"
  by (cases t) auto

lemma FetchUrl_logged:
  assumes "FetchUrl (traced E) (AlucbPool (conf c)) (''alcubierre_node_'' @ Nodename d) (w, l) = ((url, e), w', l')"
  shows "l' = l \<and> e \<noteq> None \<or> (\<exists>o1. l' = l @ [url_query c d o1] \<and> (e = None \<longrightarrow> cmd_ok o1 \<and> url = Out o1))"
  using assms
  by (auto simp: FetchUrl_def RBDUtil_FetchUrl_def execCommand_def env_defs url_query_def cmd_ok_def
      split: if_splits option.splits)

lemma FetchUrl_traced:
  assumes "FetchUrl E p a w = ((url, None), w')"
  shows "\<exists>l'. FetchUrl (traced E) p a (w, l) = ((url, None), w', l')"
  using assms by (auto simp: FetchUrl_def RBDUtil_FetchUrl_def execCommand_def env_defs split: if_splits option.splits prod.splits)

lemma call_step_inv:
  assumes "call_step (traced E) c t (d, w, l) = Some (t', d', w', l')"
    and "Nodename d = Nodename d0" "fetched c d0 l (AlucbUrl d)" "call_inv (fetched c d0 l) t"
  shows "set l \<subseteq> set l' \<and> Nodename d' = Nodename d0 \<and> fetched c d0 l' (AlucbUrl d') \<and> call_inv (fetched c d0 l') t'"
proof (cases t)
  case AtFetch
  obtain url e w1 l1 where f: "FetchUrl (traced E) (AlucbPool (conf c)) (''alcubierre_node_'' @ Nodename d) (w, l) = ((url, e), w1, l1)"
    by (metis prod.collapse)
  have q: "url_query c d o1 = url_query c d0 o1" for o1 using assms(2) by (simp add: url_query_def)
  have sub: "set l \<subseteq> set l1" using FetchUrl_logged [OF f] by auto
  have "d' = d" "l' = l1" "t' = (case e of Some x \<Rightarrow> CallFailed x | None \<Rightarrow> AtStore url)"
    using assms(1) AtFetch f by (auto split: option.splits)
  moreover have "e = None \<Longrightarrow> fetched c d0 l1 url" using FetchUrl_logged [OF f] by (auto simp: fetched_def q)
  ultimately show ?thesis using assms(2) fetched_mono [OF sub assms(3)] sub by (auto split: option.splits)
next
  case AtRead
  with assms show ?thesis by (auto split: sum.splits)
qed (use assms in \<open>auto split: if_splits\<close>)

lemma calls_step_inv:
  assumes "calls_step E c s s'" "calls_inv c d0 s"
  shows "calls_inv c d0 s'"
  using assms(1)
proof cases
  case (step i ts d w l t d' w' l')
  have i: "Nodename d = Nodename d0" "fetched c d0 l (AlucbUrl d)" "\<forall>t \<in> set ts. call_inv (fetched c d0 l) t"
    using assms(2) step(1) by (auto simp: calls_inv_def)
  have "call_inv (fetched c d0 l) (ts ! i)" using i(3) step(3) by simp
  from call_step_inv [OF step(4) i(1,2) this]
  have s: "set l \<subseteq> set l'" "Nodename d' = Nodename d0" "fetched c d0 l' (AlucbUrl d')" "call_inv (fetched c d0 l') t" by auto
  have "\<forall>x \<in> set (ts[i := t]). call_inv (fetched c d0 l') x"
    using i(3) s(4) call_inv_mono fetched_mono [OF s(1)] by (metis insertE set_update_subset_insert subsetD)
  with s step(2) show ?thesis by (simp add: calls_inv_def)
qed (use assms(2) in \<open>auto simp: calls_inv_def\<close>)

interpretation calls: preserved "calls_step E c" "calls_inv c d0"
  by unfold_locales (rule calls_step_inv)

text \<open>A call that has found no URL and has not stored one yet.\<close>

fun fetching :: "call \<Rightarrow> bool" where
  "fetching AtFetch = True"
| "fetching (AtStore url) = True"
| "fetching _ = False"

definition settled :: "DynConf \<Rightarrow> event list \<Rightarrow> 'w calls \<Rightarrow> bool" where
  "settled d0 l0 s \<longleftrightarrow> (case s of (ts, d, w, l) \<Rightarrow> d = d0 \<and> l = l0 \<and> AlucbUrl d \<noteq> [] \<and> (\<forall>t \<in> set ts. \<not> fetching t))"

lemma settled_step:
  assumes "calls_step E c s s'" "settled d0 l0 s"
  shows "settled d0 l0 s'"
  using assms(1)
proof cases
  case (step i ts d w l t d' w' l')
  have "\<not> fetching (ts ! i)" "d = d0" "l = l0" "AlucbUrl d \<noteq> []" using assms(2) step(1,3) by (auto simp: settled_def)
  then have "d' = d0 \<and> l' = l0 \<and> \<not> fetching t" using step(4) by (cases "ts ! i") (auto split: sum.splits)
  moreover have "\<forall>x \<in> set (ts[i := t]). x = t \<or> x \<in> set ts" by (meson insertE set_update_subset_insert subsetD)
  ultimately show ?thesis using assms(2) step(1,2) by (auto simp: settled_def)
qed (use assms(2) in \<open>auto simp: settled_def\<close>)

interpretation settle: preserved "calls_step E c" "settled d0 l0"
  by unfold_locales (rule settled_step)

section \<open>Properties\<close>

text \<open>C19: However the calls of a node interleave, requests are only sent to the URL the client was started with or
  to one that a successful query of the attribute of this very node has answered; the configured node name
  never changes.\<close>

theorem requests_to_fetched:
  assumes "calls_run E c ([], d0, w0, []) (ts, d, w, l)" "Requesting u \<in> set ts"
  shows "Nodename d = Nodename d0 \<and> (\<exists>url. url_Parse url = Inr u
    \<and> (url = AlucbUrl d0 \<or> (\<exists>o1. url_query c d0 o1 \<in> set l \<and> cmd_ok o1 \<and> Out o1 = url)))"
proof -
  have "calls_inv c d0 (ts, d, w, l)" by (rule calls.run_inv [OF assms(1)]) (simp add: calls_inv_def fetched_def)
  then have n: "Nodename d = Nodename d0" and i: "call_inv (fetched c d0 l) (Requesting u)"
    using assms(2) by (auto simp: calls_inv_def simp del: call_inv.simps)
  from i obtain url where "fetched c d0 l url" "url_Parse url = Inr u" by auto
  then show ?thesis using n by (auto simp: fetched_def)
qed

text \<open>Once the URL is known and no call is on its way to fetch it, it stays as it is for ever, in every
  interleaving of whatever calls, and it is not asked for again.\<close>

lemma url_settles:
  assumes "calls_run E c (ts, d, w, l) (ts', d', w', l')" "AlucbUrl d \<noteq> []" "\<forall>t \<in> set ts. \<not> fetching t"
  shows "d' = d \<and> l' = l"
proof -
  have "settled d l (ts', d', w', l')" by (rule settle.run_inv [OF assms(1)]) (use assms(2,3) in \<open>simp add: settled_def\<close>)
  then show ?thesis by (simp add: settled_def)
qed

text \<open>C20: But a known URL is overwritten. When the attribute changes while two calls that found no URL fetch it,
  there is an interleaving in which one call stores a URL and sends its request there, and then the other
  replaces it by its own answer, which may be the older one, or empty.\<close>

theorem url_overwritten:
  assumes "AlucbUrl d = []" "url_Parse url1 = Inr u1"
    and "FetchUrl E (AlucbPool (conf c)) (''alcubierre_node_'' @ Nodename d) w1 = ((url1, None), w1')"
    and "FetchUrl E (AlucbPool (conf c)) (''alcubierre_node_'' @ Nodename d) w2 = ((url2, None), w2')"
  shows "\<exists>ts l ts'. calls_run E c ([], d, w1, []) (ts, d\<lparr>AlucbUrl := url1\<rparr>, w2', l) \<and> Requesting u1 \<in> set ts
    \<and> calls_run E c (ts, d\<lparr>AlucbUrl := url1\<rparr>, w2', l) (ts', d\<lparr>AlucbUrl := url2\<rparr>, w2', l)"
proof -
  let ?d = "d\<lparr>AlucbUrl := url1\<rparr>"
  obtain l1 where f1: "FetchUrl (traced E) (AlucbPool (conf c)) (''alcubierre_node_'' @ Nodename d) (w1, []) = ((url1, None), w1', l1)"
    using FetchUrl_traced [OF assms(3)] by blast
  obtain l2 where f2: "FetchUrl (traced E) (AlucbPool (conf c)) (''alcubierre_node_'' @ Nodename d) (w2, l1) = ((url2, None), w2', l2)"
    using FetchUrl_traced [OF assms(4)] by blast
  have s: "calls_step E c (ts, d, w, l) (ts[i := t], d', w', l')"
    if "i < length ts" "call_step (traced E) c (ts ! i) (d, w, l) = Some (t, d', w', l')" for ts i d w l t d' w' l'
    using that by (rule calls_step.step)
  have 0: "calls_step E c ([], d, w1, []) ([AtCheck], d, w1, [])"
    using calls_step.start [of E c "[]" d w1 "[]"] by simp
  have 1: "calls_step E c ([AtCheck], d, w1, []) ([AtCheck, AtCheck], d, w1, [])"
    using calls_step.start [of E c "[AtCheck]" d w1 "[]"] by simp
  have 2: "calls_step E c ([AtCheck, AtCheck], d, w1, []) ([AtFetch, AtCheck], d, w1, [])"
    using s [of 0 "[AtCheck, AtCheck]" d w1 "[]"] assms(1) by simp
  have 3: "calls_step E c ([AtFetch, AtCheck], d, w1, []) ([AtFetch, AtFetch], d, w1, [])"
    using s [of 1 "[AtFetch, AtCheck]" d w1 "[]"] assms(1) by simp
  have 4: "calls_step E c ([AtFetch, AtFetch], d, w1, []) ([AtStore url1, AtFetch], d, w1', l1)"
    using s [of 0 "[AtFetch, AtFetch]"] f1 by simp
  have 5: "calls_step E c ([AtStore url1, AtFetch], d, w1', l1) ([AtStore url1, AtFetch], d, w2, l1)"
    by (rule calls_step.outside)
  have 6: "calls_step E c ([AtStore url1, AtFetch], d, w2, l1) ([AtStore url1, AtStore url2], d, w2', l2)"
    using s [of 1 "[AtStore url1, AtFetch]"] f2 by simp
  have 7: "calls_step E c ([AtStore url1, AtStore url2], d, w2', l2) ([AtRead, AtStore url2], ?d, w2', l2)"
    using s [of 0 "[AtStore url1, AtStore url2]"] by simp
  have 8: "calls_step E c ([AtRead, AtStore url2], ?d, w2', l2) ([Requesting u1, AtStore url2], ?d, w2', l2)"
    using s [of 0 "[AtRead, AtStore url2]" ?d] assms(2) by simp
  have 9: "calls_step E c ([Requesting u1, AtStore url2], ?d, w2', l2) ([Requesting u1, AtRead], d\<lparr>AlucbUrl := url2\<rparr>, w2', l2)"
    using s [of 1 "[Requesting u1, AtStore url2]" ?d] by simp
  have "calls_run E c ([], d, w1, []) ([Requesting u1, AtStore url2], ?d, w2', l2)"
    by (rule calls_then, rule 0, rule calls_then, rule 1, rule calls_then, rule 2, rule calls_then, rule 3, rule calls_then, rule 4, rule calls_then, rule 5,
        rule calls_then, rule 6, rule calls_then, rule 7, rule calls_then, rule 8, rule rtranclp.rtrancl_refl)
  moreover have "calls_run E c ([Requesting u1, AtStore url2], ?d, w2', l2) ([Requesting u1, AtRead], d\<lparr>AlucbUrl := url2\<rparr>, w2', l2)"
    by (rule r_into_rtranclp, rule 9)
  ultimately show ?thesis by (metis list.set_intros(1))
qed

section \<open>Witnesses\<close>

text \<open>A cluster whose attribute changes with the world.\<close>

definition moving_env :: "string env" where
  "moving_env = undefined\<lparr>run_cmd := (\<lambda>cmd as w. (\<lparr>Out = w, Deadline = False, CmdErr = None\<rparr>, w))\<rparr>"

definition demo_empty :: DynConf where
  "demo_empty = \<lparr>AlucbUrl = [], Nodename = ''node-1''\<rparr>"

lemma moving_fetch: "a \<noteq> [] \<Longrightarrow> FetchUrl moving_env (AlucbPool (conf demo_client)) a w = ((w, None), w)"
  by (simp add: FetchUrl_def RBDUtil_FetchUrl_def execCommand_def moving_env_def demo_client_def)

theorem url_overwritten_witness:
  "\<exists>ts l ts'. calls_run moving_env demo_client ([], demo_empty, ''http://10.0.0.1'', [])
      (ts, demo_empty\<lparr>AlucbUrl := ''http://10.0.0.1''\<rparr>, [], l)
    \<and> calls_run moving_env demo_client (ts, demo_empty\<lparr>AlucbUrl := ''http://10.0.0.1''\<rparr>, [], l) (ts', demo_empty\<lparr>AlucbUrl := []\<rparr>, [], l)"
  using url_overwritten [OF _ demo_url moving_fetch moving_fetch, of demo_empty "[]"] by (fastforce simp: demo_empty_def)

definition demo_known :: DynConf where
  "demo_known = \<lparr>AlucbUrl = ''http://10.0.0.1'', Nodename = ''node-1''\<rparr>"

lemma demo_call: "calls_run E c ([], demo_known, w, []) ([Requesting \<lparr>Scheme = ''http'', Host = ''10.0.0.1''\<rparr>], demo_known, w, [])"
proof -
  have 1: "calls_step E c ([], demo_known, w, []) ([AtCheck], demo_known, w, [])"
    using calls_step.start [of E c "[]"] by simp
  have 2: "calls_step E c ([AtCheck], demo_known, w, []) ([AtRead], demo_known, w, [])"
    using calls_step.step [of 0 "[AtCheck]" E c demo_known w "[]"] by (simp add: demo_known_def)
  have 3: "calls_step E c ([AtRead], demo_known, w, []) ([Requesting \<lparr>Scheme = ''http'', Host = ''10.0.0.1''\<rparr>], demo_known, w, [])"
    using calls_step.step [of 0 "[AtRead]" E c demo_known w "[]"] by (simp add: demo_known_def demo_url)
  show ?thesis by (rule calls_then, rule 1, rule calls_then, rule 2, rule calls_then, rule 3, rule rtranclp.rtrancl_refl)
qed

theorem requests_to_fetched_witness:
  "\<exists>ts w l. calls_run demo_env demo_client ([], demo_known, demo0, []) (ts, demo_known, w, l)
     \<and> Requesting \<lparr>Scheme = ''http'', Host = ''10.0.0.1''\<rparr> \<in> set ts
     \<and> (\<exists>url. url_Parse url = Inr \<lparr>Scheme = ''http'', Host = ''10.0.0.1''\<rparr>
         \<and> (url = AlucbUrl demo_known \<or> (\<exists>o1. url_query demo_client demo_known o1 \<in> set l \<and> cmd_ok o1 \<and> Out o1 = url)))"
proof -
  let ?u = "\<lparr>Scheme = ''http'', Host = ''10.0.0.1''\<rparr>"
  have run: "calls_run demo_env demo_client ([], demo_known, demo0, []) ([Requesting ?u], demo_known, demo0, [])" by (rule demo_call)
  have "Requesting ?u \<in> set [Requesting ?u]" by simp
  from requests_to_fetched [OF run this] run show ?thesis by (intro exI [of _ "[Requesting ?u]"]) auto
qed

end
