(* ===== verification/Shutdown.thy ===== *)
theory Shutdown
  imports Commands
begin

text \<open>
  How a process ends. The manager of the runtime (\<open>internal.go\<close>, \<open>Start\<close> with its deferred
  \<open>engageStopProcedure\<close>), the signal handler (\<open>signals/signal.go\<close>) and the gRPC server of
  \<open>utils/server.go\<close> run at the same time: the manager starts its runnables, each in a goroutine
  that is counted by a wait group, is asked to stop, cancels their context, waits for the group and
  returns, which ends the process.

  A process that ends without an error has waited for its cache, its reconcilers and the server of its
  metrics. It has not waited for
  its server: \<open>Runner.Start\<close> returns at once, so the group does not count it.
\<close>

section \<open>The order of the program counters\<close>

text \<open>The places of the two goroutines of the server in the order of the code.\<close>

primrec serve_place :: "serve_pc \<Rightarrow> nat" where
  "serve_place AtListen = 0"
| "serve_place AtNew = 1"
| "serve_place AtRegister = 2"
| "serve_place AtServe = 3"
| "serve_place AtAccept = 4"
| "serve_place AtWaitDone = 5"
| "serve_place ServeReturned = 6"

primrec stop_place :: "stop_pc \<Rightarrow> nat" where
  "stop_place AtContext = 0"
| "stop_place AtStop = 1"
| "stop_place AtClose = 2"
| "stop_place AtServeWG = 3"
| "stop_place AtConns = 4"
| "stop_place StopReturned = 5"

lemma serve_place_inj: "serve_place p = serve_place q \<Longrightarrow> p = q"
  by (cases p; cases q) simp_all

lemma stop_place_inj: "stop_place p = stop_place q \<Longrightarrow> p = q"
  by (cases p; cases q) simp_all

instantiation serve_pc :: linorder
begin

definition less_eq_serve_pc :: "serve_pc \<Rightarrow> serve_pc \<Rightarrow> bool" where
  "p \<le> q \<longleftrightarrow> serve_place p \<le> serve_place q"

definition less_serve_pc :: "serve_pc \<Rightarrow> serve_pc \<Rightarrow> bool" where
  "p < q \<longleftrightarrow> serve_place p < serve_place q"

instance
  by intro_classes (auto simp: less_eq_serve_pc_def less_serve_pc_def intro: serve_place_inj)

end

instantiation stop_pc :: linorder
begin

definition less_eq_stop_pc :: "stop_pc \<Rightarrow> stop_pc \<Rightarrow> bool" where
  "p \<le> q \<longleftrightarrow> stop_place p \<le> stop_place q"

definition less_stop_pc :: "stop_pc \<Rightarrow> stop_pc \<Rightarrow> bool" where
  "p < q \<longleftrightarrow> stop_place p < stop_place q"

instance
  by intro_classes (auto simp: less_eq_stop_pc_def less_stop_pc_def intro: stop_place_inj)

end

lemmas place_defs = less_eq_serve_pc_def less_serve_pc_def less_eq_stop_pc_def less_stop_pc_def

text \<open>Neither goroutine goes back, and until the server dies each step of it is taken alive.\<close>

lemma srv_step_forward:
  assumes "srv_step r s s'"
  shows "died s = None \<and> spc s \<le> spc s' \<and> tpc s \<le> tpc s'"
  using assms
  by cases (auto simp: place_defs grpc_Serve_def accept_failed_def server_Stop_def graceful_close_def split: option.splits)

lemma stop_not_begun: "q \<le> AtContext \<longleftrightarrow> q = AtContext"
  by (cases q) (simp_all add: place_defs)

section \<open>The process\<close>

text \<open>Where \<open>Start\<close> is: at its \<open>select\<close>, in the stop procedure before the manager's lock,
  waiting for the runnables, returned; a second signal ends the process at once. The error is what the
  \<open>select\<close> returned.\<close>

datatype stage = Selecting | Engaged "error option" | Draining "error option" | Exited "error option" | Killed

text \<open>\<open>p_open\<close> are the runnables that the wait group counts, \<open>p_srv\<close> the server once its
  runnable was started; \<open>p_grace\<close> says that the time to shut down is not zero.\<close>

record Proc =
  p_mgr :: Mgr
  p_open :: "runnable list"
  p_srv :: "nonBlockingGRPCServer option"
  p_signal :: bool
  p_grace :: bool
  p_stage :: stage

definition proc_start :: "Mgr \<Rightarrow> Proc" where
  "proc_start m = \<lparr>p_mgr = m, p_open = [], p_srv = None, p_signal = False, p_grace = True, p_stage = Selecting\<rparr>"

fun is_server :: "runnable \<Rightarrow> bool" where
  "is_server (Serves r) = True"
| "is_server _ = False"

definition alive :: "Proc \<Rightarrow> bool" where
  "alive p \<longleftrightarrow> (case p_stage p of Exited e \<Rightarrow> False | Killed \<Rightarrow> False | _ \<Rightarrow> True)
     \<and> (case p_srv p of None \<Rightarrow> True | Some s \<Rightarrow> died s = None)"

text \<open>Whether the context of the runnables is done.\<close>

definition cancelled :: "Proc \<Rightarrow> bool" where
  "cancelled p \<longleftrightarrow> p_signal p \<or> p_stage p \<noteq> Selecting"

text \<open>The server of the metrics is shut down by the stop procedure; the cache and the reconcilers follow their
  context.\<close>

definition told :: "Proc \<Rightarrow> runnable \<Rightarrow> bool" where
  "told p x \<longleftrightarrow> (if x = ServesMetrics then p_stage p \<noteq> Selecting else cancelled p)"

definition timed_out :: "error option \<Rightarrow> error" where
  "timed_out err =
     (let e = Errorf ''failed waiting for all runnables to end within grace period of %s: %w'' [AStr ''30s'', AErr (ExtErr ''context deadline exceeded'')]
      in case err of None \<Rightarrow> e | Some e0 \<Rightarrow> Errorf ''[%v, %v]'' [AErr e0, AErr e])"

definition report :: "error \<Rightarrow> stage \<Rightarrow> stage" where
  "report e st = (if st = Selecting then Engaged (Some e) else st)"

text \<open>The steps of all goroutines. The runnables other than the server return when they are told to, or
  with an error at any time; an error that comes after the \<open>select\<close> is only logged.\<close>

inductive proc_step :: "Runner \<Rightarrow> Proc \<Rightarrow> Proc \<Rightarrow> bool" for r :: Runner where
  launch: "alive p \<Longrightarrow> mgr_step (p_mgr p) m' \<Longrightarrow> returned m' = returned (p_mgr p) \<Longrightarrow>
    proc_step r p (p\<lparr>p_mgr := m', p_open := p_open p @ drop (length (running (p_mgr p))) (running m')\<rparr>)"
| signal: "alive p \<Longrightarrow> \<not> p_signal p \<Longrightarrow> proc_step r p (p\<lparr>p_signal := True\<rparr>)"
| second_signal: "alive p \<Longrightarrow> p_signal p \<Longrightarrow> proc_step r p (p\<lparr>p_stage := Killed\<rparr>)"
| selected: "alive p \<Longrightarrow> p_stage p = Selecting \<Longrightarrow> p_signal p \<Longrightarrow> proc_step r p (p\<lparr>p_stage := Engaged None\<rparr>)"
| failed: "alive p \<Longrightarrow> x \<in> set (p_open p) \<Longrightarrow> \<not> is_server x \<Longrightarrow>
    proc_step r p (p\<lparr>p_open := remove1 x (p_open p), p_stage := report e (p_stage p)\<rparr>)"
| ended: "alive p \<Longrightarrow> x \<in> set (p_open p) \<Longrightarrow> \<not> is_server x \<Longrightarrow> told p x \<Longrightarrow> proc_step r p (p\<lparr>p_open := remove1 x (p_open p)\<rparr>)"
| runner: "alive p \<Longrightarrow> Serves r \<in> set (p_open p) \<Longrightarrow> Runner_Start r = (None, r') \<Longrightarrow>
    proc_step r p (p\<lparr>p_open := remove1 (Serves r) (p_open p), p_srv := Some (run_server r')\<rparr>)"
| server: "alive p \<Longrightarrow> p_srv p = Some s \<Longrightarrow> srv_step r s s' \<Longrightarrow> tpc s = AtContext \<and> AtContext < tpc s' \<longrightarrow> cancelled p \<Longrightarrow>
    proc_step r p (p\<lparr>p_srv := Some s'\<rparr>)"
| lost: "alive p \<Longrightarrow> resourceLock (p_mgr p) \<Longrightarrow>
    proc_step r p (p\<lparr>p_grace := False, p_stage := report (Errorf ''leader election lost'' []) (p_stage p)\<rparr>)"
| engage: "alive p \<Longrightarrow> p_stage p = Engaged err \<Longrightarrow> p_grace p \<Longrightarrow>
    proc_step r p (p\<lparr>p_mgr := (p_mgr p)\<lparr>stopProcedureEngaged := True, returned := Some err\<rparr>, p_stage := Draining err\<rparr>)"
| no_grace: "alive p \<Longrightarrow> p_stage p = Engaged err \<Longrightarrow> \<not> p_grace p \<Longrightarrow> proc_step r p (p\<lparr>p_stage := Exited err\<rparr>)"
| drained: "alive p \<Longrightarrow> p_stage p = Draining err \<Longrightarrow> p_open p = [] \<Longrightarrow> proc_step r p (p\<lparr>p_stage := Exited err\<rparr>)"
| timeout: "alive p \<Longrightarrow> p_stage p = Draining err \<Longrightarrow> proc_step r p (p\<lparr>p_stage := Exited (Some (timed_out err))\<rparr>)"

abbreviation proc_run :: "Runner \<Rightarrow> Proc \<Rightarrow> Proc \<Rightarrow> bool" where
  "proc_run r \<equiv> (proc_step r)\<^sup>*\<^sup>*"

lemma proc_then: "proc_step r p p' \<Longrightarrow> proc_run r p' p'' \<Longrightarrow> proc_run r p p''"
  by (rule converse_rtranclp_into_rtranclp)

section \<open>Invariant\<close>

text \<open>How many servers there are among some runnables.\<close>

abbreviation servers :: "runnable list \<Rightarrow> nat" where
  "servers rs \<equiv> length (filter is_server rs)"

definition stage_inv :: "Proc \<Rightarrow> bool" where
  "stage_inv p \<longleftrightarrow> (case p_stage p of
     Selecting \<Rightarrow> p_grace p \<and> returned (p_mgr p) = None
   | Engaged err \<Rightarrow> returned (p_mgr p) = None \<and> (p_grace p \<and> err \<noteq> None \<longrightarrow> running (p_mgr p) \<noteq> [])
   | Exited None \<Rightarrow> p_grace p \<longrightarrow> p_open p = []
   | _ \<Rightarrow> True)"

definition proc_inv :: "Runner \<Rightarrow> Proc \<Rightarrow> bool" where
  "proc_inv r p \<longleftrightarrow> stage_inv p \<and> mgr_inv (p_mgr p) \<and> set (p_open p) \<subseteq> set (running (p_mgr p))
     \<and> servers (p_open p) + (if p_srv p = None then 0 else 1) = servers (running (p_mgr p))
     \<and> servers (leaderElectionRunnables (p_mgr p)) + servers (nonLeaderElectionRunnables (p_mgr p)) \<le> 1
     \<and> (\<forall>s. p_srv p = Some s \<longrightarrow> srv_run r s \<and> (AtContext < tpc s \<longrightarrow> cancelled p))"

lemma mgr_servers:
  assumes "mgr_inv m" "servers (leaderElectionRunnables m) + servers (nonLeaderElectionRunnables m) \<le> 1"
  shows "servers (running m) \<le> 1"
proof -
  have "filter is_server (running m) = filter is_server (filter (\<lambda>r. r \<noteq> ServesMetrics) (running m))"
    by (auto simp: filter_filter intro: filter_cong)
  moreover have "servers (filter (\<lambda>r. r \<noteq> ServesMetrics) (running m)) \<le> 1"
    using assms by (auto simp only: mgr_inv_def started_parts_def Let_def filter.simps filter_append length_append is_server.simps
        list.size if_False split: if_splits)
  ultimately show ?thesis by simp
qed

text \<open>The list of what runs only grows.\<close>

lemma mgr_step_running: "mgr_step m m' \<Longrightarrow> \<exists>rs. running m' = running m @ rs"
  by (erule mgr_stepE) (auto simp: start_defs)

lemma servers_remove: "x \<in> set rs \<Longrightarrow> servers (remove1 x rs) = servers rs - (if is_server x then 1 else 0)"
  by (simp add: filter_remove1 length_remove1 remove1_idem)

lemma servers_some: "x \<in> set rs \<Longrightarrow> is_server x \<Longrightarrow> \<exists>n. servers rs = Suc n"
  by (auto simp: filter_empty_conv gr0_conv_Suc [symmetric])

lemma inv_servers: "proc_inv r p \<Longrightarrow> servers (running (p_mgr p)) \<le> 1"
  using mgr_servers [of "p_mgr p"] by (simp add: proc_inv_def)

lemma proc_launch_inv:
  assumes "mgr_step (p_mgr p) m'" "returned m' = returned (p_mgr p)" "proc_inv r p" "alive p"
  shows "proc_inv r (p\<lparr>p_mgr := m', p_open := p_open p @ drop (length (running (p_mgr p))) (running m')\<rparr>)"
proof -
  obtain rs where rs: "running m' = running (p_mgr p) @ rs" using mgr_step_running [OF assms(1)] by blast
  have "stage_inv (p\<lparr>p_mgr := m', p_open := p_open p @ rs\<rparr>)"
    using assms(2-4) rs by (auto simp: proc_inv_def cancelled_def report_def stage_inv_def alive_def split: stage.splits option.splits)
  then show ?thesis
    using assms(3) mgr_step_inv [OF assms(1)] mgr_step_frame [OF assms(1)] rs by (auto simp: proc_inv_def cancelled_def report_def)
qed

lemma proc_step_inv:
  assumes "proc_step r p p'" "proc_inv r p"
  shows "proc_inv r p'"
  using assms(1)
proof cases
  case (launch m')
  then show ?thesis using proc_launch_inv assms(2) by simp
next
  case (failed x e)
  have "running (p_mgr p) \<noteq> []" using failed(3) assms(2) by (auto simp: proc_inv_def cancelled_def report_def)
  then have "stage_inv p'" using failed assms(2)
    by (auto simp: proc_inv_def cancelled_def report_def stage_inv_def alive_def report_def split: stage.splits option.splits)
  with failed assms(2) show ?thesis by (auto simp: proc_inv_def cancelled_def report_def servers_remove dest: notin_set_remove1 in_set_remove1 set_remove1_subset [THEN subsetD])
next
  case (ended x)
  then have "stage_inv p'" using assms(2)
    by (auto simp: proc_inv_def cancelled_def report_def stage_inv_def alive_def split: stage.splits option.splits)
  with ended assms(2) show ?thesis by (auto simp: proc_inv_def cancelled_def report_def servers_remove dest: set_remove1_subset [THEN subsetD])
next
  case (runner r')
  have "servers (running (p_mgr p)) \<le> 1" by (rule inv_servers [OF assms(2)])
  moreover obtain n where "servers (p_open p) = Suc n" using servers_some [OF runner(3)] by auto
  moreover have "stage_inv p'" using runner assms(2)
    by (auto simp: proc_inv_def cancelled_def report_def stage_inv_def alive_def split: stage.splits option.splits)
  moreover have "run_server r' = run_server (snd (Runner_Start r))" using runner(4) by simp
  moreover have "\<not> AtContext < tpc (run_server (snd (Runner_Start r)))" by (simp add: Runner_Start_def)
  ultimately show ?thesis using runner(1,3) assms(2) by (auto simp: proc_inv_def cancelled_def report_def servers_remove dest: set_remove1_subset [THEN subsetD])
next
  case (server s s')
  then have "srv_run r s'" using assms(2) by (auto simp: proc_inv_def intro: rtranclp.rtrancl_into_rtrancl)
  moreover have "cancelled p" if "AtContext < tpc s'"
    using that server assms(2) stop_not_begun [of "tpc s"] by (auto simp: proc_inv_def not_le [symmetric])
  moreover have "stage_inv p'" using server assms(2)
    by (auto simp: proc_inv_def cancelled_def report_def stage_inv_def alive_def split: stage.splits option.splits)
  ultimately show ?thesis using server assms(2) by (auto simp: proc_inv_def cancelled_def report_def)
next
  case (engage err)
  have "mgr_inv ((p_mgr p)\<lparr>stopProcedureEngaged := True, returned := Some err\<rparr>)"
    using assms(2) by (auto simp: proc_inv_def cancelled_def report_def mgr_inv_def started_parts_def)
  with engage assms(2) show ?thesis by (auto simp: proc_inv_def cancelled_def report_def stage_inv_def)
qed (use assms(2) in \<open>auto simp: proc_inv_def cancelled_def report_def stage_inv_def report_def split: stage.splits option.splits\<close>)

text \<open>What the manager does in a process is what it does by itself.\<close>

lemma proc_step_sim:
  assumes "proc_step r p p'" "proc_inv r p"
  shows "mgr_step\<^sup>*\<^sup>* (p_mgr p) (p_mgr p')"
  using assms(1)
proof cases
  case (engage err)
  have m: "returned (p_mgr p) = None" "err \<noteq> None \<longrightarrow> running (p_mgr p) \<noteq> []"
    using engage assms(2) by (auto simp: proc_inv_def stage_inv_def)
  have "mgr_step (p_mgr p) ((p_mgr p)\<lparr>stopProcedureEngaged := True, returned := Some err\<rparr>)"
  proof (cases err)
    case None
    then show ?thesis using mgr_step.stop [OF m(1)] by simp
  next
    case (Some e)
    then have "hd (running (p_mgr p)) \<in> set (running (p_mgr p))" using m(2) by simp
    then show ?thesis using mgr_step.failed [OF m(1)] Some by simp
  qed
  with engage(1) show ?thesis by simp
qed auto

interpretation proc: simulation "proc_step r" "proc_inv r" mgr_step p_mgr
  by unfold_locales (rule proc_step_inv, assumption+, rule proc_step_sim)

section \<open>The processes of the program\<close>

fun parts :: "process \<Rightarrow> Runner \<times> Mgr" where
  "parts (ControllerProcess ctl ids run m) = (run, m)"
| "parts (NodeProcess srv ids run m) = (run, m)"

lemma main_parts:
  assumes "k8s_registers addk8s" "main_cmd E B addk8s ifaces pd cmd args f w = (Inr q, w')" "parts q = (run, m)"
  shows "\<exists>sch lock ln. m = idle_mgr sch lock ln [alcub_ctl, node_ctl, Serves run] [] \<or> m = idle_mgr sch lock ln [alcub_ctl] [Serves run]"
proof -
  obtain sch where sch: "commands_init addk8s = Inr sch" using assms(2) by (auto simp: main_cmd_def split: sum.splits)
  note kt = known_init [OF assms(1) sch]
  show ?thesis
  proof (cases q)
    case (ControllerProcess ctl ids run' m')
    then obtain f1 where "controller_main E B sch f1 w = (Inr (ctl, ids, run', m'), w')"
      using assms(2) sch by (auto simp: main_cmd_def split: sum.splits prod.splits if_splits)
    from controller_mgr [OF kt this] ControllerProcess assms(3) show ?thesis by auto
  next
    case (NodeProcess srv ids run' m')
    then obtain f1 where "node_main E B sch ifaces f1 w = (Inr (srv, ids, run', m'), w')"
      using assms(2) sch by (auto simp: main_cmd_def split: sum.splits prod.splits if_splits)
    from node_mgr [OF kt this] NodeProcess assms(3) show ?thesis by auto
  qed
qed

lemma proc_reached:
  assumes "k8s_registers addk8s" "main_cmd E B addk8s ifaces pd cmd args f w = (Inr q, w')" "parts q = (run, m)"
    and "proc_run run (proc_start m) p"
  shows "proc_inv run p \<and> mgr_step\<^sup>*\<^sup>* m (p_mgr p)"
proof -
  have "mgr_inv m \<and> running m = [] \<and> returned m = None \<and> servers (leaderElectionRunnables m) + servers (nonLeaderElectionRunnables m) \<le> 1"
    using main_parts [OF assms(1-3)] by (auto simp: program_inv) (auto simp: idle_mgr_def alcub_ctl_def node_ctl_def)
  then have i: "proc_inv run (proc_start m)" by (simp add: proc_inv_def stage_inv_def proc_start_def)
  with proc.run_inv [OF assms(4) i] proc.run_sim [OF assms(4) i] show ?thesis by (simp add: proc_start_def)
qed

section \<open>Stopping\<close>

lemma drain:
  assumes "alive p" "p_stage p \<noteq> Selecting" "\<forall>x \<in> set (p_open p). \<not> is_server x"
  shows "proc_run r p (p\<lparr>p_open := []\<rparr>)"
  using assms
proof (induction "p_open p" arbitrary: p)
  case Nil
  then have "p\<lparr>p_open := []\<rparr> = p" by simp
  then show ?case by simp
next
  case (Cons x xs)
  let ?p = "p\<lparr>p_open := xs\<rparr>"
  have "proc_step r p (p\<lparr>p_open := remove1 x (p_open p)\<rparr>)"
    by (rule proc_step.ended) (use Cons.prems Cons.hyps(2) [symmetric] in \<open>auto simp: told_def cancelled_def\<close>)
  then have "proc_step r p ?p" using Cons.hyps(2) [symmetric] by simp
  moreover have "proc_run r ?p (?p\<lparr>p_open := []\<rparr>)"
    by (rule Cons.hyps(1)) (use Cons.prems Cons.hyps(2) [symmetric] in \<open>auto simp: alive_def\<close>)
  ultimately show ?case by (simp add: proc_then)
qed

lemma stop_run:
  assumes "proc_inv r p" "p_stage p = Selecting" "p_srv p = Some s" "died s = None"
  shows "\<exists>p'. proc_run r p p' \<and> p_stage p' = Exited None \<and> p_open p' = [] \<and> p_grace p' \<and> p_srv p' = Some s"
proof -
  have g: "p_grace p" using assms(1,2) by (simp add: proc_inv_def stage_inv_def)
  have o: "\<forall>x \<in> set (p_open p). \<not> is_server x"
    using assms(1,3) inv_servers [OF assms(1)] servers_some [of _ "p_open p"] by (auto simp: proc_inv_def)
  define a where "a = p\<lparr>p_signal := True\<rparr>"
  define b where "b = a\<lparr>p_stage := Engaged None\<rparr>"
  define c where "c = b\<lparr>p_mgr := (p_mgr b)\<lparr>stopProcedureEngaged := True, returned := Some None\<rparr>, p_stage := Draining None\<rparr>"
  define d where "d = c\<lparr>p_open := []\<rparr>"
  have 1: "proc_run r p a"
  proof (cases "p_signal p")
    case True
    then have "a = p" by (simp add: a_def)
    then show ?thesis by simp
  next
    case False
    then have "proc_step r p a" unfolding a_def by (intro proc_step.signal) (use assms in \<open>auto simp: alive_def\<close>)
    then show ?thesis by (rule r_into_rtranclp)
  qed
  have 2: "proc_step r a b" unfolding b_def by (rule proc_step.selected) (use assms in \<open>auto simp: a_def alive_def\<close>)
  have 3: "proc_step r b c" unfolding c_def by (rule proc_step.engage) (use assms g in \<open>auto simp: a_def b_def alive_def\<close>)
  have 4: "proc_run r c d" unfolding d_def by (rule drain) (use assms o in \<open>auto simp: a_def b_def c_def alive_def cancelled_def\<close>)
  have 5: "proc_step r d (d\<lparr>p_stage := Exited None\<rparr>)"
    by (rule proc_step.drained) (use assms in \<open>auto simp: a_def b_def c_def d_def alive_def\<close>)
  have "proc_run r p (d\<lparr>p_stage := Exited None\<rparr>)"
    by (rule rtranclp_trans [OF 1], rule proc_then [OF 2], rule proc_then [OF 3],
        rule rtranclp_trans [OF 4], rule r_into_rtranclp, rule 5)
  then show ?thesis by (rule exI [of _ "d\<lparr>p_stage := Exited None\<rparr>", OF conjI]) (use assms g in \<open>simp add: a_def b_def c_def d_def\<close>)
qed

text \<open>Nothing but a stop of the process stops its server.\<close>

lemma serves_until_stopped:
  assumes "k8s_registers addk8s" "main_cmd E B addk8s ifaces pd cmd args f w = (Inr q, w')" "parts q = (run, m)"
    and "proc_run run (proc_start m) p" "p_srv p = Some s" "p_stage p = Selecting" "\<not> p_signal p"
  shows "tpc s = AtContext"
  using conjunct1 [OF proc_reached [OF assms(1-4)]] assms(5-7) stop_not_begun [of "tpc s"]
  by (auto simp: proc_inv_def cancelled_def not_less)


text \<open>C25: But it has not waited for its server: from every state of a process that serves and was not told to
  stop, a run leads to its end without an error in which the server has done nothing, so that a server that
  is accepting connections and has open ones is cut off.\<close>

theorem stop_not_waited:
  assumes "k8s_registers addk8s" "main_cmd E B addk8s ifaces pd cmd args f w = (Inr q, w')" "parts q = (run, m)"
    and "proc_run run (proc_start m) p" "p_stage p = Selecting" "p_srv p = Some s" "died s = None"
  shows "\<exists>p'. proc_run run p p' \<and> p_stage p' = Exited None \<and> p_srv p' = Some s"
  using stop_run [OF conjunct1 [OF proc_reached [OF assms(1-4)]] assms(5-7)] by blast

section \<open>Witnesses\<close>

text \<open>As long as the context is not done, the steps of the server are steps of the process.\<close>

lemma serve_in_proc:
  assumes "(srv_step r)\<^sup>*\<^sup>* s0 s" "tpc s = AtContext" "p_srv p = Some s0" "p_stage p = Selecting"
  shows "proc_run r p (p\<lparr>p_srv := Some s\<rparr>)"
  using assms(1,2)
proof (induction rule: rtranclp_induct)
  case base
  have "p\<lparr>p_srv := Some s0\<rparr> = p" using assms(3) by (simp add: assms(3) [symmetric])
  then show ?case by simp
next
  case (step t u)
  have t: "tpc t = AtContext" "died t = None"
    using srv_step_forward [OF step.hyps(2)] step.prems by (simp_all add: stop_not_begun)
  let ?p = "p\<lparr>p_srv := Some t\<rparr>"
  have "proc_step r ?p (?p\<lparr>p_srv := Some u\<rparr>)"
    by (rule proc_step.server [where s = t]) (use t step assms(4) in \<open>auto simp: alive_def\<close>)
  with step.IH [OF t(1)] show ?case by (simp add: rtranclp.rtrancl_into_rtrancl)
qed

lemma srv_step_cong:
  assumes "srv_step r s s'" "run_endpoint r' = run_endpoint r" "run_ids r' = run_ids r" "run_cs r' = run_cs r" "run_ns r' = run_ns r"
  shows "srv_step r' s s'"
  using assms(1)
proof cases
  case (accept g)
  show ?thesis unfolding accept(1) by (rule srv_step.accept) (use accept in auto)
next
  case (add_conn g h n)
  show ?thesis unfolding add_conn(1) by (rule srv_step.add_conn) (use add_conn in auto)
next
  case (drop_conn g h)
  show ?thesis unfolding drop_conn(1) by (rule srv_step.drop_conn) (use drop_conn in auto)
qed (auto intro: srv_step.intros simp: assms(2-5) [symmetric])

lemma srv_run_cong:
  assumes "(srv_step r)\<^sup>*\<^sup>* s s'" "run_endpoint r' = run_endpoint r" "run_ids r' = run_ids r" "run_cs r' = run_cs r" "run_ns r' = run_ns r"
  shows "(srv_step r')\<^sup>*\<^sup>* s s'"
  using assms(1) by (induction rule: rtranclp_induct) (auto intro: rtranclp.rtrancl_into_rtrancl srv_step_cong [OF _ assms(2-5)])

lemma node_main_runner: "node_main E B sch ifaces f w = (Inr (srv, ids, run, m), w') \<Longrightarrow> run = NewRunner False (endpoint f) True False True"
  by (auto simp: node_main_def Let_def split: option.splits sum.splits prod.splits)

text \<open>The server of \<open>Server\<close> that is ready, with one connection.\<close>

definition demo_busy :: nonBlockingGRPCServer where
  "demo_busy = demo_ready\<lparr>server := Some ((the (server demo_ready))\<lparr>g_conns := Some 1\<rparr>)\<rparr>"

lemma demo_busy_run: "srv_run demo_runner demo_busy"
proof -
  let ?g = "the (server demo_ready)"
  let ?h = "?g\<lparr>g_serveWG := g_serveWG ?g + 1, g_hand := g_hand ?g + 1\<rparr>"
  let ?s = "demo_ready\<lparr>server := Some ?h\<rparr>"
  have 1: "srv_step demo_runner demo_ready ?s"
    by (rule srv_step.accept) (simp_all add: demo_ready_def)
  have 2: "srv_step demo_runner ?s (?s\<lparr>server := Some (?h\<lparr>g_serveWG := g_serveWG ?h - 1, g_hand := 0, g_conns := Some (Suc 0)\<rparr>)\<rparr>)"
    by (rule srv_step.add_conn [where n = 0]) (simp_all add: demo_ready_def)
  have "?s\<lparr>server := Some (?h\<lparr>g_serveWG := g_serveWG ?h - 1, g_hand := 0, g_conns := Some (Suc 0)\<rparr>)\<rparr> = demo_busy"
    by (simp add: demo_busy_def demo_ready_def)
  with 2 have 3: "srv_step demo_runner ?s demo_busy" by simp
  show ?thesis by (rule rtranclp.rtrancl_into_rtrancl [OF rtranclp.rtrancl_into_rtrancl [OF demo_serving 1] 3])
qed

lemma demo_line_endpoint: "\<exists>f'. parse_command (\<lambda>_. None) ''node'' demo_line default_flags = Inr (''node'', f')
     \<and> storageIfName f' = ''eth1'' \<and> ApiUrl (storeConf f') = ''api'' \<and> endpoint f' = ''unix:///csi.sock''"
  by (simp add: parse_command_def rootCmd_def NewControllerCmd_def NewNodeCmd_def apply_defs demo_line_def ParseFlags_def flag_Set_def)

lemma demo_process:
  "\<exists>q run m w p. main_cmd demo_env demo_boot demo_k8s demo_ifaces (\<lambda>_. None) ''node'' demo_line default_flags demo0 = (Inr q, w)
     \<and> parts q = (run, m) \<and> proc_run run (proc_start m) p \<and> p_stage p = Selecting \<and> p_srv p = Some demo_busy"
proof -
  obtain f' where f': "parse_command (\<lambda>_. None) ''node'' demo_line default_flags = Inr (''node'', f')"
    "storageIfName f' = ''eth1''" "ApiUrl (storeConf f') = ''api''" "endpoint f' = ''unix:///csi.sock''" using demo_line_endpoint by blast
  obtain srv ids run m w where n: "node_main demo_env demo_boot demo_sch demo_ifaces f' demo0 = (Inr (srv, ids, run, m), w)"
    using demo_node_main [OF f'(2,3)] by blast
  have q: "main_cmd demo_env demo_boot demo_k8s demo_ifaces (\<lambda>_. None) ''node'' demo_line default_flags demo0 = (Inr (NodeProcess srv ids run m), w)"
    using n f'(1) by (simp add: main_cmd_def demo_init)
  have m: "m = idle_mgr demo_sch False None [alcub_ctl] [Serves run]"
    by (rule node_mgr [OF known_init [OF demo_registers demo_init] n])
  have run: "run = NewRunner False ''unix:///csi.sock'' True False True" using node_main_runner [OF n] f'(4) by simp
  let ?m = "startNonLeaderElectionRunnables m"
  let ?a = "(proc_start m)\<lparr>p_mgr := ?m, p_open := p_open (proc_start m) @ drop (length (running (p_mgr (proc_start m)))) (running ?m)\<rparr>"
  have "mgr_step m ?m" by (rule mgr_step.others) (simp_all add: m idle_mgr_def)
  then have "mgr_step (p_mgr (proc_start m)) ?m" by (simp add: proc_start_def)
  then have a: "proc_step run (proc_start m) ?a"
    by (rule proc_step.launch [rotated]) (simp_all add: proc_start_def alive_def m idle_mgr_def start_defs)
  let ?b = "?a\<lparr>p_open := remove1 (Serves run) (p_open ?a), p_srv := Some (run_server (snd (Runner_Start run)))\<rparr>"
  have b: "proc_step run ?a ?b"
    by (rule proc_step.runner) (simp_all add: proc_start_def alive_def m idle_mgr_def start_defs Runner_Start_def)
  have "run_server (snd (Runner_Start run)) = run_server (snd (Runner_Start demo_runner))"
    by (simp add: run demo_runner_def Runner_Start_def NewRunner_def)
  with srv_run_cong [OF demo_busy_run, of run] have s: "srv_run run demo_busy"
    by (simp add: run demo_runner_def NewRunner_def)
  have c: "proc_run run ?b (?b\<lparr>p_srv := Some demo_busy\<rparr>)"
    by (rule serve_in_proc [OF s]) (simp_all add: demo_busy_def demo_ready_def proc_start_def)
  have "proc_run run (proc_start m) (?b\<lparr>p_srv := Some demo_busy\<rparr>)"
    by (rule proc_then [OF a], rule proc_then [OF b], rule c)
  with q show ?thesis
    by (intro exI [of _ "NodeProcess srv ids run m"] exI [of _ run] exI [of _ m] exI [of _ w] exI [of _ "?b\<lparr>p_srv := Some demo_busy\<rparr>"])
      (simp add: proc_start_def)
qed

theorem stop_not_waited_witness:
  "\<exists>run m p s g. proc_run run (proc_start m) p \<and> p_stage p = Exited None \<and> p_srv p = Some s
     \<and> spc s = AtAccept \<and> tpc s = AtContext \<and> server s = Some g \<and> g_conns g = Some 1"
proof -
  obtain q run m w p where x: "main_cmd demo_env demo_boot demo_k8s demo_ifaces (\<lambda>_. None) ''node'' demo_line default_flags demo0 = (Inr q, w)"
    "parts q = (run, m)" "proc_run run (proc_start m) p" "p_stage p = Selecting" "p_srv p = Some demo_busy" using demo_process by blast
  have "died demo_busy = None" by (simp add: demo_busy_def demo_ready_def)
  from stop_not_waited [OF demo_registers x this] obtain p' where p': "proc_run run p p'" "p_stage p' = Exited None" "p_srv p' = Some demo_busy" by blast
  then show ?thesis
    by (intro exI [of _ run] exI [of _ m] exI [of _ p'] exI [of _ demo_busy] exI [of _ "the (server demo_busy)"])
      (simp add: rtranclp_trans [OF x(3) p'(1)] demo_busy_def demo_ready_def)
qed


end
