(* ===== verification/DeepCopy.thy ===== *)
theory DeepCopy
  imports Kube
begin

text \<open>
  \<open>pkg/api/v1beta1/zz_generated.deepcopy.go\<close>: the deep copies of the resource types, over an
  explicit store. A Go slice of strings, a pointer to a time and a slice of resources are addresses into
  the store, so that two structs may share what they point to; \<open>*out = *in\<close> copies the
  addresses, \<open>make\<close> and \<open>new\<close> take a fresh one. Of the metadata the model has the
  fields the program uses.

  The other theories use the value of a resource (\<open>CsiAlcub\<close>), where a struct owns its
  slices. \<open>obj_val\<close> and \<open>list_val\<close> read this value off the store. The facts: copying
  keeps the store well typed, the copy has the value of the original, and it shares nothing with
  anything that existed before, so that no write through the copy is seen elsewhere. This is why an
  update of a resource may overwrite its spec and status by a copy of the caller's.
\<close>

section \<open>The store\<close>

record hMeta =
  hName :: string
  hFinalizers :: "nat option"
  hDeletionTimestamp :: "nat option"
  hResourceVersion :: string

record hStatus =
  hVolumeInfo :: VolumeInfo
  hPrenode :: string
  hNode :: string
  hAllNodes :: "nat option"

record hCsiAlcub =
  hObjectMeta :: hMeta
  hSpec :: CsiAlcubSpec
  hStat :: hStatus

record hCsiAlcubList =
  hListMeta :: string
  hItems :: "nat option"

text \<open>Addresses from \<open>brk\<close> on are unused.\<close>

record Heap =
  h_strs :: "nat \<rightharpoonup> string list"
  h_stamps :: "nat \<rightharpoonup> nat"
  h_items :: "nat \<rightharpoonup> hCsiAlcub list"
  brk :: nat

definition make_strs :: "nat \<Rightarrow> Heap \<Rightarrow> nat \<times> Heap" where
  "make_strs n h = (brk h, h\<lparr>h_strs := (h_strs h)(brk h \<mapsto> replicate n []), brk := Suc (brk h)\<rparr>)"

definition copy_strs :: "nat \<Rightarrow> nat \<Rightarrow> Heap \<Rightarrow> Heap" where
  "copy_strs d s h = h\<lparr>h_strs := (h_strs h)(d \<mapsto> go_copy (the (h_strs h d)) (the (h_strs h s)))\<rparr>"

definition new_time :: "nat \<Rightarrow> Heap \<Rightarrow> nat \<times> Heap" where
  "new_time t h = (brk h, h\<lparr>h_stamps := (h_stamps h)(brk h \<mapsto> t), brk := Suc (brk h)\<rparr>)"

definition zero_hstatus :: hStatus where
  "zero_hstatus = \<lparr>hVolumeInfo = \<lparr>Devpath = [], StorageIp = []\<rparr>, hPrenode = [], hNode = [], hAllNodes = None\<rparr>"

definition zero_hobj :: hCsiAlcub where
  "zero_hobj = \<lparr>hObjectMeta = \<lparr>hName = [], hFinalizers = None, hDeletionTimestamp = None, hResourceVersion = []\<rparr>,
     hSpec = \<lparr>Uuid = [], Capacity = 0, RbdSc = [], Pool = [], Image = []\<rparr>, hStat = zero_hstatus\<rparr>"

definition make_items :: "nat \<Rightarrow> Heap \<Rightarrow> nat \<times> Heap" where
  "make_items n h = (brk h, h\<lparr>h_items := (h_items h)(brk h \<mapsto> replicate n zero_hobj), brk := Suc (brk h)\<rparr>)"

section \<open>The copies\<close>

text \<open>The block \<open>if in.X != nil\<close> for a slice of strings, given the slice \<open>*out\<close> took over.\<close>

definition copy_slice :: "nat option \<Rightarrow> Heap \<Rightarrow> nat option \<times> Heap" where
  "copy_slice s h = (case s of
     None \<Rightarrow> (None, h)
   | Some a \<Rightarrow> (let (d, h1) = make_strs (length (the (h_strs h a))) h in (Some d, copy_strs d a h1)))"

definition VolumeInfo_DeepCopyInto :: "VolumeInfo \<Rightarrow> Heap \<Rightarrow> VolumeInfo \<times> Heap" where
  "VolumeInfo_DeepCopyInto i h = (i, h)"

definition VolumeInfo_DeepCopy :: "VolumeInfo option \<Rightarrow> Heap \<Rightarrow> VolumeInfo option \<times> Heap" where
  "VolumeInfo_DeepCopy p h = (case p of
     None \<Rightarrow> (None, h) | Some i \<Rightarrow> (let (out, h1) = VolumeInfo_DeepCopyInto i h in (Some out, h1)))"

definition CsiAlcubSpec_DeepCopyInto :: "CsiAlcubSpec \<Rightarrow> Heap \<Rightarrow> CsiAlcubSpec \<times> Heap" where
  "CsiAlcubSpec_DeepCopyInto i h = (i, h)"

definition CsiAlcubSpec_DeepCopy :: "CsiAlcubSpec option \<Rightarrow> Heap \<Rightarrow> CsiAlcubSpec option \<times> Heap" where
  "CsiAlcubSpec_DeepCopy p h = (case p of
     None \<Rightarrow> (None, h) | Some i \<Rightarrow> (let (out, h1) = CsiAlcubSpec_DeepCopyInto i h in (Some out, h1)))"

definition CsiAlcubStatus_DeepCopyInto :: "hStatus \<Rightarrow> Heap \<Rightarrow> hStatus \<times> Heap" where
  "CsiAlcubStatus_DeepCopyInto i h =
     (let out = i;
          out1 = out\<lparr>hVolumeInfo := hVolumeInfo i\<rparr>;
          (a, h1) = copy_slice (hAllNodes i) h
      in (out1\<lparr>hAllNodes := a\<rparr>, h1))"

definition CsiAlcubStatus_DeepCopy :: "hStatus option \<Rightarrow> Heap \<Rightarrow> hStatus option \<times> Heap" where
  "CsiAlcubStatus_DeepCopy p h = (case p of
     None \<Rightarrow> (None, h) | Some i \<Rightarrow> (let (out, h1) = CsiAlcubStatus_DeepCopyInto i h in (Some out, h1)))"

text \<open>The vendored copy of the metadata, on the fields of the model.\<close>

definition ObjectMeta_DeepCopyInto :: "hMeta \<Rightarrow> Heap \<Rightarrow> hMeta \<times> Heap" where
  "ObjectMeta_DeepCopyInto i h =
     (let out = i;
          (t, h1) = (case hDeletionTimestamp i of
             None \<Rightarrow> (None, h) | Some p \<Rightarrow> (let (q, h') = new_time (the (h_stamps h p)) h in (Some q, h')));
          (f, h2) = copy_slice (hFinalizers i) h1
      in (out\<lparr>hDeletionTimestamp := t, hFinalizers := f\<rparr>, h2))"

definition CsiAlcub_DeepCopyInto :: "hCsiAlcub \<Rightarrow> Heap \<Rightarrow> hCsiAlcub \<times> Heap" where
  "CsiAlcub_DeepCopyInto i h =
     (let out = i;
          (m, h1) = ObjectMeta_DeepCopyInto (hObjectMeta i) h;
          (s, h2) = CsiAlcubStatus_DeepCopyInto (hStat i) h1
      in (out\<lparr>hObjectMeta := m, hSpec := hSpec i, hStat := s\<rparr>, h2))"

definition CsiAlcub_DeepCopy :: "hCsiAlcub option \<Rightarrow> Heap \<Rightarrow> hCsiAlcub option \<times> Heap" where
  "CsiAlcub_DeepCopy p h = (case p of
     None \<Rightarrow> (None, h) | Some i \<Rightarrow> (let (out, h1) = CsiAlcub_DeepCopyInto i h in (Some out, h1)))"

text \<open>\<open>DeepCopyObject\<close> gives the interface value that holds the pointer, or nil.\<close>

definition CsiAlcub_DeepCopyObject :: "hCsiAlcub option \<Rightarrow> Heap \<Rightarrow> hCsiAlcub option \<times> Heap" where
  "CsiAlcub_DeepCopyObject p h = (case CsiAlcub_DeepCopy p h of
     (Some c, h1) \<Rightarrow> (Some c, h1) | (None, h1) \<Rightarrow> (None, h1))"

text \<open>The loop over the items: the \<open>i\<close>-th is copied into the \<open>i\<close>-th place of the new slice.\<close>

function items_loop :: "nat \<Rightarrow> nat \<Rightarrow> nat \<Rightarrow> nat \<Rightarrow> Heap \<Rightarrow> Heap" where
  "items_loop s d n i h =
     (if i < n then
        (let (c, h1) = CsiAlcub_DeepCopyInto (the (h_items h s) ! i) h
         in items_loop s d n (Suc i) (h1\<lparr>h_items := (h_items h1)(d \<mapsto> (the (h_items h1 d))[i := c])\<rparr>))
      else h)"
  by pat_completeness auto
termination by (relation "measure (\<lambda>(s, d, n, i, h). n - i)") auto

declare items_loop.simps [simp del]

definition CsiAlcubList_DeepCopyInto :: "hCsiAlcubList \<Rightarrow> Heap \<Rightarrow> hCsiAlcubList \<times> Heap" where
  "CsiAlcubList_DeepCopyInto i h = (case hItems i of
     None \<Rightarrow> (i, h)
   | Some s \<Rightarrow>
       (let n = length (the (h_items h s));
            (d, h1) = make_items n h
        in (i\<lparr>hItems := Some d\<rparr>, items_loop s d n 0 h1)))"

definition CsiAlcubList_DeepCopy :: "hCsiAlcubList option \<Rightarrow> Heap \<Rightarrow> hCsiAlcubList option \<times> Heap" where
  "CsiAlcubList_DeepCopy p h = (case p of
     None \<Rightarrow> (None, h) | Some i \<Rightarrow> (let (out, h1) = CsiAlcubList_DeepCopyInto i h in (Some out, h1)))"

definition CsiAlcubList_DeepCopyObject :: "hCsiAlcubList option \<Rightarrow> Heap \<Rightarrow> hCsiAlcubList option \<times> Heap" where
  "CsiAlcubList_DeepCopyObject p h = (case CsiAlcubList_DeepCopy p h of
     (Some c, h1) \<Rightarrow> (Some c, h1) | (None, h1) \<Rightarrow> (None, h1))"

section \<open>Values and types\<close>

definition arr :: "Heap \<Rightarrow> nat option \<Rightarrow> string list" where
  "arr h s = (case s of None \<Rightarrow> [] | Some a \<Rightarrow> the (h_strs h a))"

definition status_val :: "Heap \<Rightarrow> hStatus \<Rightarrow> CsiAlcubStatus" where
  "status_val h s = \<lparr>VolInfo = hVolumeInfo s, Prenode = hPrenode s, Node = hNode s, AllNodes = arr h (hAllNodes s)\<rparr>"

definition meta_val :: "Heap \<Rightarrow> hMeta \<Rightarrow> ObjectMeta" where
  "meta_val h m = \<lparr>Name = hName m, Finalizers = arr h (hFinalizers m),
     DeletionTimestamp = (case hDeletionTimestamp m of None \<Rightarrow> None | Some p \<Rightarrow> h_stamps h p),
     ResourceVersion = hResourceVersion m\<rparr>"

definition obj_val :: "Heap \<Rightarrow> hCsiAlcub \<Rightarrow> CsiAlcub" where
  "obj_val h o1 = \<lparr>Meta = meta_val h (hObjectMeta o1), Spec = hSpec o1, Status = status_val h (hStat o1)\<rparr>"

definition list_val :: "Heap \<Rightarrow> hCsiAlcubList \<Rightarrow> CsiAlcub list" where
  "list_val h l = (case hItems l of None \<Rightarrow> [] | Some a \<Rightarrow> map (obj_val h) (the (h_items h a)))"

text \<open>The addresses a resource holds, and the store in which they lead somewhere.\<close>

definition strs_of :: "hCsiAlcub \<Rightarrow> nat set" where
  "strs_of o1 = set_option (hFinalizers (hObjectMeta o1)) \<union> set_option (hAllNodes (hStat o1))"

definition times_of :: "hCsiAlcub \<Rightarrow> nat set" where
  "times_of o1 = set_option (hDeletionTimestamp (hObjectMeta o1))"

definition obj_ok :: "Heap \<Rightarrow> hCsiAlcub \<Rightarrow> bool" where
  "obj_ok h o1 \<longleftrightarrow> strs_of o1 \<subseteq> dom (h_strs h) \<and> times_of o1 \<subseteq> dom (h_stamps h)"

definition list_ok :: "Heap \<Rightarrow> hCsiAlcubList \<Rightarrow> bool" where
  "list_ok h l \<longleftrightarrow> set_option (hItems l) \<subseteq> dom (h_items h)"

definition heap_ok :: "Heap \<Rightarrow> bool" where
  "heap_ok h \<longleftrightarrow> dom (h_strs h) \<union> dom (h_stamps h) \<union> dom (h_items h) \<subseteq> {..< brk h}
     \<and> (\<forall>xs \<in> ran (h_items h). \<forall>o1 \<in> set xs. obj_ok h o1)"


section \<open>What copying does to the store\<close>

text \<open>A later store that has every array and time of the earlier one.\<close>

definition extends :: "Heap \<Rightarrow> Heap \<Rightarrow> bool" where
  "extends h h' \<longleftrightarrow> brk h \<le> brk h' \<and> (\<forall>a < brk h. h_strs h' a = h_strs h a \<and> h_stamps h' a = h_stamps h a)"

lemma extends_refl [simp]: "extends h h" by (simp add: extends_def)

lemma extends_trans [trans]: "extends h h1 \<Longrightarrow> extends h1 h2 \<Longrightarrow> extends h h2" by (auto simp: extends_def)

lemma extends_items [simp]: "extends h (h'\<lparr>h_items := x\<rparr>) \<longleftrightarrow> extends h h'" by (simp add: extends_def)

lemma heap_ok_lt:
  "h_strs h a = Some x \<Longrightarrow> heap_ok h \<Longrightarrow> a < brk h"
  "h_stamps h a = Some t \<Longrightarrow> heap_ok h \<Longrightarrow> a < brk h"
  "h_items h a = Some xs \<Longrightarrow> heap_ok h \<Longrightarrow> a < brk h"
  by (auto simp: heap_ok_def dom_def)

lemma extends_get:
  "h_strs h a = Some x \<Longrightarrow> heap_ok h \<Longrightarrow> extends h h' \<Longrightarrow> h_strs h' a = Some x"
  "h_stamps h a = Some t \<Longrightarrow> heap_ok h \<Longrightarrow> extends h h' \<Longrightarrow> h_stamps h' a = Some t"
  using heap_ok_lt [of h a] by (auto simp: extends_def)

lemma slice_extends:
  assumes "set_option s \<subseteq> dom (h_strs h)" "heap_ok h" "extends h h'"
  shows "set_option s \<subseteq> dom (h_strs h')" "arr h' s = arr h s"
  using assms(1) extends_get(1) [OF _ assms(2,3)] by (cases s; force simp: arr_def)+

lemma stamp_extends:
  assumes "set_option t \<subseteq> dom (h_stamps h)" "heap_ok h" "extends h h'"
  shows "set_option t \<subseteq> dom (h_stamps h')" "(case t of None \<Rightarrow> None | Some p \<Rightarrow> h_stamps h' p) = (case t of None \<Rightarrow> None | Some p \<Rightarrow> h_stamps h p)"
  using assms(1) extends_get(2) [OF _ assms(2,3)] by (cases t; force)+

lemma obj_ok_extends: "heap_ok h \<Longrightarrow> extends h h' \<Longrightarrow> obj_ok h x \<Longrightarrow> obj_ok h' x"
  unfolding obj_ok_def subset_iff domIff not_None_eq by (metis extends_get)

lemma obj_ok_lt: "heap_ok h \<Longrightarrow> obj_ok h x \<Longrightarrow> a \<in> strs_of x \<union> times_of x \<Longrightarrow> a < brk h"
  unfolding obj_ok_def subset_iff domIff not_None_eq by (metis UnE heap_ok_lt(1,2))

text \<open>The value of a resource depends on the arrays and times it holds only.\<close>

lemma obj_val_cong:
  "(\<And>a. a \<in> strs_of x \<Longrightarrow> h_strs h' a = h_strs h a) \<Longrightarrow> (\<And>a. a \<in> times_of x \<Longrightarrow> h_stamps h' a = h_stamps h a) \<Longrightarrow>
   obj_val h' x = obj_val h x"
  by (auto simp: obj_val_def meta_val_def status_val_def arr_def strs_of_def times_of_def split: option.splits)

lemma obj_val_extends: "heap_ok h \<Longrightarrow> extends h h' \<Longrightarrow> obj_ok h x \<Longrightarrow> obj_val h' x = obj_val h x"
  by (rule obj_val_cong) (use obj_ok_lt [of h x] in \<open>auto simp: extends_def\<close>)

lemma obj_val_items [simp]: "obj_val (h\<lparr>h_items := x\<rparr>) y = obj_val h y"
  by (rule obj_val_cong) simp_all

lemma obj_ok_items [simp]: "obj_ok (h\<lparr>h_items := x\<rparr>) y = obj_ok h y"
  by (simp add: obj_ok_def)

lemma heap_ok_alloc:
  assumes "heap_ok h" "extends h h'" "h_items h' = h_items h" "dom (h_strs h') \<union> dom (h_stamps h') \<subseteq> {..< brk h'}"
  shows "heap_ok h'"
proof -
  have "dom (h_items h') \<subseteq> {..< brk h'}"
    using assms by (auto simp: heap_ok_def extends_def dom_def)
  with assms show ?thesis using obj_ok_extends [OF assms(1,2)] by (auto simp: heap_ok_def)
qed

lemma copy_slice_ok:
  assumes "copy_slice s h = (s', h')" "heap_ok h" "set_option s \<subseteq> dom (h_strs h)"
  shows "heap_ok h'" "extends h h'" "h_items h' = h_items h" "set_option s' \<subseteq> dom (h_strs h') \<inter> {brk h..}" "arr h' s' = arr h s"
proof -
  have "heap_ok h' \<and> extends h h' \<and> h_items h' = h_items h \<and> set_option s' \<subseteq> dom (h_strs h') \<inter> {brk h..} \<and> arr h' s' = arr h s"
  proof (cases s)
    case (Some a)
    then have "extends h h' \<and> h_items h' = h_items h \<and> set_option s' \<subseteq> dom (h_strs h') \<inter> {brk h..} \<and> arr h' s' = arr h s
      \<and> dom (h_strs h') \<union> dom (h_stamps h') \<subseteq> {..< brk h'}"
      using assms
      by (auto simp: copy_slice_def make_strs_def copy_strs_def arr_def extends_def go_copy_same_length
          less_Suc_eq split: if_splits dest!: heap_ok_lt [OF _ assms(2)])
    with heap_ok_alloc [OF assms(2)] show ?thesis by blast
  qed (use assms in \<open>simp add: copy_slice_def\<close>)
  then show "heap_ok h'" "extends h h'" "h_items h' = h_items h"
    "set_option s' \<subseteq> dom (h_strs h') \<inter> {brk h..}" "arr h' s' = arr h s" by blast+
qed

lemma new_time_ok:
  assumes "new_time t h = (q, h')" "heap_ok h"
  shows "heap_ok h'" "extends h h'" "h_items h' = h_items h" "h_stamps h' q = Some t" "brk h \<le> q"
proof -
  have "extends h h' \<and> h_items h' = h_items h \<and> h_stamps h' q = Some t \<and> brk h \<le> q
    \<and> dom (h_strs h') \<union> dom (h_stamps h') \<subseteq> {..< brk h'}"
    using assms
    by (auto simp: new_time_def extends_def less_Suc_eq split: if_splits dest!: heap_ok_lt [OF _ assms(2)])
  with heap_ok_alloc [OF assms(2)] show "heap_ok h'" "extends h h'" "h_items h' = h_items h" "h_stamps h' q = Some t" "brk h \<le> q"
    by blast+
qed


lemma meta_copy_ok:
  assumes "ObjectMeta_DeepCopyInto m h = (m', h')" "heap_ok h"
    and "set_option (hFinalizers m) \<subseteq> dom (h_strs h)" "set_option (hDeletionTimestamp m) \<subseteq> dom (h_stamps h)"
  shows "heap_ok h'" "extends h h'" "h_items h' = h_items h" "meta_val h' m' = meta_val h m"
    "set_option (hFinalizers m') \<subseteq> dom (h_strs h') \<inter> {brk h..}"
    "set_option (hDeletionTimestamp m') \<subseteq> dom (h_stamps h') \<inter> {brk h..}"
proof -
  obtain t h1 where t: "(case hDeletionTimestamp m of None \<Rightarrow> (None, h)
      | Some p \<Rightarrow> (let (q, h') = new_time (the (h_stamps h p)) h in (Some q, h'))) = (t, h1)" by (metis surj_pair)
  obtain f where f: "copy_slice (hFinalizers m) h1 = (f, h')" "m' = m\<lparr>hDeletionTimestamp := t, hFinalizers := f\<rparr>"
    using assms(1) t by (auto simp: ObjectMeta_DeepCopyInto_def Let_def split: prod.splits)
  have h1: "heap_ok h1 \<and> extends h h1 \<and> h_items h1 = h_items h \<and> set_option t \<subseteq> dom (h_stamps h1) \<inter> {brk h..}
    \<and> (case t of None \<Rightarrow> None | Some p \<Rightarrow> h_stamps h1 p) = (case hDeletionTimestamp m of None \<Rightarrow> None | Some p \<Rightarrow> h_stamps h p)"
  proof (cases "hDeletionTimestamp m")
    case (Some p)
    with assms(4) obtain x where x: "h_stamps h p = Some x" by auto
    obtain q h2 where q: "new_time x h = (q, h2)" by (cases "new_time x h")
    with t Some x have "t = Some q" "h1 = h2" by auto
    with new_time_ok [OF q assms(2)] Some x show ?thesis by auto
  qed (use t assms(2) in simp)
  then have "extends h h1" by blast
  note s = slice_extends [OF assms(3,2) this]
  note c = copy_slice_ok [OF f(1) _ s(1)]
  have "set_option t \<subseteq> dom (h_stamps h1)" "heap_ok h1" using h1 by auto
  note st = stamp_extends [OF this c(2)]
  show "heap_ok h'" "h_items h' = h_items h" using c h1 by auto
  show "extends h h'" using c(2) h1 extends_trans by blast
  show "set_option (hFinalizers m') \<subseteq> dom (h_strs h') \<inter> {brk h..}"
    using c(4) h1 f(2) by (auto simp: extends_def)
  show "set_option (hDeletionTimestamp m') \<subseteq> dom (h_stamps h') \<inter> {brk h..}" using st(1) h1 f(2) by auto
  show "meta_val h' m' = meta_val h m" using f(2) c(5) s(2) st(2) h1 by (simp add: meta_val_def)
qed

lemma obj_copy_ok:
  assumes "CsiAlcub_DeepCopyInto x h = (c, h')" "heap_ok h" "obj_ok h x"
  shows "heap_ok h'" "extends h h'" "h_items h' = h_items h" "obj_ok h' c" "obj_val h' c = obj_val h x"
    "strs_of c \<union> times_of c \<subseteq> {brk h..}"
proof -
  obtain m h1 where m: "ObjectMeta_DeepCopyInto (hObjectMeta x) h = (m, h1)" by (metis surj_pair)
  obtain s where s: "copy_slice (hAllNodes (hStat x)) h1 = (s, h')"
    "c = x\<lparr>hObjectMeta := m, hStat := (hStat x)\<lparr>hAllNodes := s\<rparr>\<rparr>"
    using assms(1) m by (auto simp: CsiAlcub_DeepCopyInto_def CsiAlcubStatus_DeepCopyInto_def Let_def split: prod.splits)
  have sub: "set_option (hFinalizers (hObjectMeta x)) \<subseteq> dom (h_strs h)" "set_option (hAllNodes (hStat x)) \<subseteq> dom (h_strs h)"
    "set_option (hDeletionTimestamp (hObjectMeta x)) \<subseteq> dom (h_stamps h)"
    using assms(3) by (auto simp: obj_ok_def strs_of_def times_of_def)
  note mk = meta_copy_ok [OF m assms(2) sub(1,3)]
  note sub1 = slice_extends [OF sub(2) assms(2) mk(2)]
  note sk = copy_slice_ok [OF s(1) mk(1) sub1(1)]
  have "set_option (hFinalizers m) \<subseteq> dom (h_strs h1)" "set_option (hDeletionTimestamp m) \<subseteq> dom (h_stamps h1)"
    using mk(5,6) by auto
  note fin = slice_extends [OF this(1) mk(1) sk(2)] and del = stamp_extends [OF this(2) mk(1) sk(2)]
  have mv: "meta_val h' m = meta_val h x1" if "meta_val h1 m = meta_val h x1" for x1
    using that fin(2) del(2) by (simp add: meta_val_def)
  show "heap_ok h'" "h_items h' = h_items h" using sk mk by auto
  show "extends h h'" using mk(2) sk(2) by (rule extends_trans)
  show "obj_ok h' c" using fin(1) del(1) sk(4) s(2) by (auto simp: obj_ok_def strs_of_def times_of_def)
  show "obj_val h' c = obj_val h x" using mv [OF mk(4)] sk(5) sub1(2) s(2) by (simp add: obj_val_def status_val_def)
  show "strs_of c \<union> times_of c \<subseteq> {brk h..}"
    using mk(2,5,6) sk(4) s(2) by (auto simp: strs_of_def times_of_def extends_def)
qed


text \<open>The loop keeps the source and fills the new slice from the left; \<open>b\<close> bounds the fresh
  addresses from below.\<close>

lemma items_loop_ok:
  assumes "heap_ok h" "h_items h s = Some xs" "h_items h d = Some ys" "s \<noteq> d" "length xs = n" "length ys = n" "i \<le> n"
    and "\<And>j. j < i \<Longrightarrow> obj_val h (ys ! j) = obj_val h (xs ! j)"
    and "\<And>y. y \<in> set ys \<Longrightarrow> strs_of y \<union> times_of y \<subseteq> {b..}" "b \<le> brk h"
    and "h' = items_loop s d n i h"
  shows "heap_ok h' \<and> extends h h' \<and> (\<forall>a. a \<noteq> d \<longrightarrow> h_items h' a = h_items h a)
    \<and> (\<exists>zs. h_items h' d = Some zs \<and> map (obj_val h') zs = map (obj_val h') xs
         \<and> (\<forall>z \<in> set zs. strs_of z \<union> times_of z \<subseteq> {b..}))"
  using assms
proof (induction s d n i h arbitrary: ys rule: items_loop.induct)
  case (1 s d n i h)
  show ?case
  proof (cases "i < n")
    case False
    then have "h' = h" using 1(12) by (simp add: items_loop.simps [of s d n i h])
    moreover have "map (obj_val h) ys = map (obj_val h) xs"
      using False 1(6,7,8,9) by (auto intro: nth_equalityI)
    ultimately show ?thesis using 1(2,4,10) by auto
  next
    case True
    obtain c h1 where c: "CsiAlcub_DeepCopyInto (xs ! i) h = (c, h1)" by (metis surj_pair)
    define h2 where "h2 = h1\<lparr>h_items := (h_items h1)(d \<mapsto> ys[i := c])\<rparr>"
    have okx: "\<And>x. x \<in> set xs \<union> set ys \<Longrightarrow> obj_ok h x" using 1(2,3,4) unfolding heap_ok_def ran_def by blast
    then have ok: "obj_ok h (xs ! i)" using True 1(6) by simp
    note ck = obj_copy_ok [OF c 1(2) ok]
    have e: "extends h h2" using ck(2) by (simp add: h2_def)
    have nx: "h' = items_loop s d n (Suc i) h2" using 1(12) True 1(3,4) c ck(3)
      by (simp add: items_loop.simps [of s d n i h] h2_def)
    have h2: "heap_ok h2" unfolding heap_ok_def
    proof (intro conjI ballI)
      show "dom (h_strs h2) \<union> dom (h_stamps h2) \<union> dom (h_items h2) \<subseteq> {..< brk h2}"
        using ck(1,3) 1(4) by (auto simp: heap_ok_def h2_def)
    next
      fix zs z assume "zs \<in> ran (h_items h2)" "z \<in> set zs"
      then consider "z = c" | zs' where "zs' \<in> ran (h_items h1)" "z \<in> set zs'"
        using set_update_subset_insert [of ys i c] 1(4) ck(3)
        by (auto simp: h2_def ran_def split: if_splits)
      then show "obj_ok h2 z" using ck(1,4) by cases (auto simp: h2_def heap_ok_def)
    qed
    have h2e: "h1\<lparr>h_items := (h_items h1)(d \<mapsto> (the (h_items h1 d))[i := c])\<rparr> = h2" using 1(4) ck(3) by (simp add: h2_def)
    have "(c, h1) = CsiAlcub_DeepCopyInto (the (h_items h s) ! i) h" using c 1(3) by simp
    note IH = 1(1) [OF True this refl, unfolded h2e]
    have v: "obj_val h2 x = obj_val h x" if "x \<in> set xs \<union> set ys" for x
      using obj_val_extends [OF 1(2) e] okx that by blast
    have "obj_val h2 (ys[i := c] ! j) = obj_val h2 (xs ! j)" if "j < Suc i" for j
    proof (cases "j = i")
      case True
      with \<open>i < n\<close> 1(6,7) ck(5) v [of "xs ! i"] show ?thesis by (simp add: h2_def)
    next
      case False
      with that \<open>i < n\<close> 1(6,7,9) show ?thesis by (simp add: v)
    qed
    moreover have "strs_of y \<union> times_of y \<subseteq> {b..}" if "y \<in> set (ys[i := c])" for y
      using that ck(6) 1(10,11) set_update_subset_insert [of ys i c] by fastforce
    moreover have "b \<le> brk h2" using 1(11) e by (simp add: extends_def)
    moreover have "h_items h2 s = Some xs" "h_items h2 d = Some (ys[i := c])" using 1(3,5) ck(3) by (auto simp: h2_def)
    ultimately have "heap_ok h' \<and> extends h2 h' \<and> (\<forall>a. a \<noteq> d \<longrightarrow> h_items h' a = h_items h2 a)
      \<and> (\<exists>zs. h_items h' d = Some zs \<and> map (obj_val h') zs = map (obj_val h') xs
         \<and> (\<forall>z \<in> set zs. strs_of z \<union> times_of z \<subseteq> {b..}))"
      by (intro IH [of "ys[i := c]"]) (use h2 1(5,6,7) True nx in auto)
    then show ?thesis using e ck(3) extends_trans [OF e] by (auto simp: h2_def)
  qed
qed


lemma list_copy_ok:
  assumes "CsiAlcubList_DeepCopyInto l h = (c, h')" "heap_ok h" "list_ok h l"
  shows "heap_ok h'" "extends h h'" "\<And>a. a < brk h \<Longrightarrow> h_items h' a = h_items h a" "list_ok h' c"
    "list_val h' c = list_val h l" "hListMeta c = hListMeta l"
    "\<And>a. hItems c = Some a \<Longrightarrow> brk h \<le> a \<and> (\<forall>z \<in> set (the (h_items h' a)). strs_of z \<union> times_of z \<subseteq> {brk h..})"
proof -
  have "heap_ok h' \<and> extends h h' \<and> (\<forall>a < brk h. h_items h' a = h_items h a) \<and> list_ok h' c
    \<and> list_val h' c = list_val h l \<and> hListMeta c = hListMeta l
    \<and> (\<forall>a. hItems c = Some a \<longrightarrow> brk h \<le> a \<and> (\<forall>z \<in> set (the (h_items h' a)). strs_of z \<union> times_of z \<subseteq> {brk h..}))"
  proof (cases "hItems l")
    case None
    with assms show ?thesis by (auto simp: CsiAlcubList_DeepCopyInto_def)
  next
    case (Some s)
    with assms(3) obtain xs where xs: "h_items h s = Some xs" by (auto simp: list_ok_def)
    have s: "s < brk h" using heap_ok_lt(3) [OF xs assms(2)] .
    let ?n = "length xs" and ?d = "brk h"
    define h1 where "h1 = h\<lparr>h_items := (h_items h)(?d \<mapsto> replicate ?n zero_hobj), brk := Suc (brk h)\<rparr>"
    have loop: "c = l\<lparr>hItems := Some ?d\<rparr>" "h' = items_loop s ?d ?n 0 h1"
      using assms(1) Some xs by (simp_all add: CsiAlcubList_DeepCopyInto_def make_items_def h1_def Let_def)
    have z: "strs_of zero_hobj = {}" "times_of zero_hobj = {}"
      by (simp_all add: strs_of_def times_of_def zero_hobj_def zero_hstatus_def)
    have e1: "extends h h1" by (simp add: extends_def h1_def)
    have okx: "x \<in> set xs \<Longrightarrow> obj_ok h x" for x using assms(2) xs unfolding heap_ok_def ran_def by blast
    have "heap_ok h1" unfolding heap_ok_def
    proof (intro conjI ballI)
      show "dom (h_strs h1) \<union> dom (h_stamps h1) \<union> dom (h_items h1) \<subseteq> {..< brk h1}"
        using assms(2) by (auto simp: heap_ok_def h1_def)
    next
      fix zs x assume "zs \<in> ran (h_items h1)" "x \<in> set zs"
      then have "x = zero_hobj \<or> obj_ok h x" using assms(2) by (auto simp: h1_def ran_def heap_ok_def split: if_splits)
      then show "obj_ok h1 x" using obj_ok_extends [OF assms(2) e1] z by (auto simp: obj_ok_def)
    qed
    from items_loop_ok [OF this _ _ _ refl _ _ _ _ _ loop(2), of "replicate ?n zero_hobj" "brk h"] s xs z
    have r: "heap_ok h'" "extends h1 h'" "\<forall>a. a \<noteq> ?d \<longrightarrow> h_items h' a = h_items h1 a"
      "\<exists>zs. h_items h' ?d = Some zs \<and> map (obj_val h') zs = map (obj_val h') xs
         \<and> (\<forall>z \<in> set zs. strs_of z \<union> times_of z \<subseteq> {?d..})"
      by (auto simp: h1_def)
    have e: "extends h h'" using e1 r(2) by (rule extends_trans)
    have "map (obj_val h') xs = map (obj_val h) xs" using obj_val_extends [OF assms(2) e okx] by simp
    with e r loop(1) Some xs show ?thesis by (auto simp: list_ok_def list_val_def h1_def)
  qed
  then show "heap_ok h'" "extends h h'" "\<And>a. a < brk h \<Longrightarrow> h_items h' a = h_items h a" "list_ok h' c"
    "list_val h' c = list_val h l" "hListMeta c = hListMeta l"
    "\<And>a. hItems c = Some a \<Longrightarrow> brk h \<le> a \<and> (\<forall>z \<in> set (the (h_items h' a)). strs_of z \<union> times_of z \<subseteq> {brk h..})"
    by blast+
qed

lemma DeepCopyObject_Into:
  "CsiAlcubList_DeepCopyObject (Some l) h = (case CsiAlcubList_DeepCopyInto l h of (c, h') \<Rightarrow> (Some c, h'))"
  by (simp add: CsiAlcubList_DeepCopyObject_def CsiAlcubList_DeepCopy_def split: prod.splits)

text \<open>The addresses a list holds, and the stores that agree outside a set of addresses.\<close>

definition held :: "Heap \<Rightarrow> hCsiAlcubList \<Rightarrow> nat set" where
  "held h l = (case hItems l of None \<Rightarrow> {}
     | Some a \<Rightarrow> insert a (\<Union>z \<in> set (the (h_items h a)). strs_of z \<union> times_of z))"

definition same_but :: "nat set \<Rightarrow> Heap \<Rightarrow> Heap \<Rightarrow> bool" where
  "same_but A h h' \<longleftrightarrow> (\<forall>a. a \<notin> A \<longrightarrow> h_strs h' a = h_strs h a \<and> h_stamps h' a = h_stamps h a \<and> h_items h' a = h_items h a)"

lemma list_val_same:
  assumes "same_but A h h'" "held h l \<inter> A = {}"
  shows "list_val h' l = list_val h l"
proof (cases "hItems l")
  case (Some a)
  then have a: "h_items h' a = h_items h a" using assms by (auto simp: held_def same_but_def)
  have "obj_val h' z = obj_val h z" if "z \<in> set (the (h_items h a))" for z
    by (rule obj_val_cong) (use assms Some that in \<open>auto simp: held_def same_but_def\<close>)
  with a Some show ?thesis by (simp add: list_val_def)
qed (simp add: list_val_def)

lemma held_lt: "heap_ok h \<Longrightarrow> list_ok h l \<Longrightarrow> held h l \<subseteq> {..< brk h}"
proof (cases "hItems l")
  case (Some a)
  assume h: "heap_ok h" "list_ok h l"
  with Some obtain xs where xs: "h_items h a = Some xs" by (auto simp: list_ok_def)
  then have "obj_ok h z" if "z \<in> set xs" for z using h(1) that unfolding heap_ok_def ran_def by blast
  with Some xs show ?thesis using obj_ok_lt [OF h(1)] heap_ok_lt(3) [OF xs h(1)] by (auto simp: held_def)
qed (simp add: held_def)

lemma list_val_old:
  assumes "heap_ok h" "list_ok h k" "extends h h'" "\<And>a. a < brk h \<Longrightarrow> h_items h' a = h_items h a"
  shows "list_val h' k = list_val h k" "held h' k = held h k" "list_ok h' k"
proof -
  have lt: "held h k \<subseteq> {..< brk h}" using held_lt assms(1,2) by blast
  then have "h_items h' a = h_items h a" if "hItems k = Some a" for a using assms(4) that by (auto simp: held_def)
  then show "held h' k = held h k" "list_ok h' k" using assms(2) by (auto simp: held_def list_ok_def split: option.splits)
  have "same_but {brk h..} h h'" using assms(3,4) by (auto simp: same_but_def extends_def)
  then show "list_val h' k = list_val h k" by (rule list_val_same) (use lt in auto)
qed

section \<open>Properties\<close>

text \<open>C22: The generated copy implements the copy of values. Read as values, the copy of a list of resources
  is the list, and nothing that could be read before reads differently afterwards.\<close>

theorem DeepCopy_refines:
  assumes "heap_ok h" "list_ok h l" "CsiAlcubList_DeepCopyObject (Some l) h = (r, h')"
  shows "\<exists>c. r = Some c \<and> list_val h' c = list_val h l \<and> hListMeta c = hListMeta l
    \<and> (\<forall>k. list_ok h k \<longrightarrow> list_val h' k = list_val h k)"
proof -
  obtain c where c: "CsiAlcubList_DeepCopyInto l h = (c, h')" "r = Some c"
    using assms(3) by (auto simp: DeepCopyObject_Into split: prod.splits)
  note ok = list_copy_ok [OF c(1) assms(1,2)]
  show ?thesis using ok(5,6) c(2) list_val_old(1) [OF assms(1) _ ok(2,3)] by blast
qed

text \<open>C23: The copy shares nothing. Whatever is later written through the addresses the copy holds, every list
  that existed before keeps its value; and whatever is written through the addresses of such a list, the
  copy keeps its value.\<close>

theorem DeepCopy_independent:
  assumes "heap_ok h" "list_ok h l" "CsiAlcubList_DeepCopyObject (Some l) h = (Some c, h')" "list_ok h k"
  shows "(same_but (held h' c) h' h2 \<longrightarrow> list_val h2 k = list_val h k)
    \<and> (same_but (held h' k) h' h2 \<longrightarrow> list_val h2 c = list_val h l)"
proof -
  have c: "CsiAlcubList_DeepCopyInto l h = (c, h')" using assms(3) by (auto simp: DeepCopyObject_Into split: prod.splits)
  note ok = list_copy_ok [OF c assms(1,2)] and old = list_val_old [OF assms(1,4)]
  have "held h' c \<subseteq> {brk h..}" using ok(7) by (auto simp: held_def split: option.splits)
  moreover have "held h' k \<subseteq> {..< brk h}" using held_lt [OF assms(1,4)] old(2) [OF ok(2,3)] by simp
  ultimately have "held h' c \<inter> held h' k = {}" by fastforce
  then show ?thesis using list_val_same [of _ h' h2] old(1) [OF ok(2,3)] ok(5) by (metis Int_commute)
qed


section \<open>Witnesses\<close>

definition demo_hobj :: hCsiAlcub where
  "demo_hobj = \<lparr>hObjectMeta = \<lparr>hName = ''pvc-1'', hFinalizers = Some 0, hDeletionTimestamp = Some 2, hResourceVersion = ''7''\<rparr>,
     hSpec = hSpec zero_hobj, hStat = zero_hstatus\<lparr>hAllNodes := Some 1\<rparr>\<rparr>"

definition demo_heap :: Heap where
  "demo_heap = \<lparr>h_strs = [0 \<mapsto> [''controller/csi-alcub''], 1 \<mapsto> [''n1'', ''n2'']], h_stamps = [2 \<mapsto> 7],
     h_items = [3 \<mapsto> [demo_hobj]], brk = 4\<rparr>"

definition demo_hlist :: hCsiAlcubList where
  "demo_hlist = \<lparr>hListMeta = ''8'', hItems = Some 3\<rparr>"

lemma demo_heap_ok: "heap_ok demo_heap" "list_ok demo_heap demo_hlist"
  by (auto simp: heap_ok_def list_ok_def demo_heap_def demo_hlist_def demo_hobj_def obj_ok_def strs_of_def times_of_def
      ran_def split: if_splits)

theorem DeepCopy_refines_witness:
  "\<exists>c h'. CsiAlcubList_DeepCopyObject (Some demo_hlist) demo_heap = (Some c, h')
     \<and> map (Finalizers \<circ> Meta) (list_val h' c) = [[''controller/csi-alcub'']]"
proof -
  from DeepCopy_refines [OF demo_heap_ok prod.collapse [symmetric]] obtain c where
    "fst (CsiAlcubList_DeepCopyObject (Some demo_hlist) demo_heap) = Some c"
    "list_val (snd (CsiAlcubList_DeepCopyObject (Some demo_hlist) demo_heap)) c = list_val demo_heap demo_hlist" by blast
  moreover have "map (Finalizers \<circ> Meta) (list_val demo_heap demo_hlist) = [[''controller/csi-alcub'']]"
    by (simp add: list_val_def demo_hlist_def demo_heap_def obj_val_def meta_val_def arr_def demo_hobj_def)
  ultimately show ?thesis by (metis prod.collapse)
qed

theorem DeepCopy_independent_witness:
  "\<exists>c h'. CsiAlcubList_DeepCopyObject (Some demo_hlist) demo_heap = (Some c, h')
     \<and> list_val (h'\<lparr>h_items := (h_items h')(the (hItems c) \<mapsto> [])\<rparr>) demo_hlist = list_val demo_heap demo_hlist"
proof -
  obtain c h' where c: "CsiAlcubList_DeepCopyObject (Some demo_hlist) demo_heap = (Some c, h')" "hItems c = Some 4"
    by (simp add: DeepCopyObject_Into CsiAlcubList_DeepCopyInto_def make_items_def demo_hlist_def demo_heap_def)
  have "same_but (held h' c) h' (h'\<lparr>h_items := (h_items h')(the (hItems c) \<mapsto> [])\<rparr>)"
    using c(2) by (simp add: same_but_def held_def)
  with DeepCopy_independent [OF demo_heap_ok c(1) demo_heap_ok(2)] c(1) show ?thesis by blast
qed

end
