(* ===== verification/Spec2Isabelle.thy ===== *)
theory Spec2Isabelle
  imports Reconcilers Concurrent SharedUrl Shutdown DeepCopy
begin

text \<open>
  A model of \<open>csi-alcub\<close>, a CSI driver for Kubernetes volumes on Ceph RBD images behind an
  alcubierre server, and the properties that make it correct.

  \<^bold>\<open>The program.\<close> Two processes are built from the same packages (\<open>cmd/commands\<close>).
  The controller serves the CSI controller calls (\<open>pkg/controlrpc/rpc.go\<close>): creating a volume
  creates an RBD image (\<open>pkg/rbd\<close>) and a \<open>CsiAlcub\<close> resource that describes it
  (\<open>pkg/manager\<close>), deleting removes both. It also reconciles the resources (it keeps an index
  from volume identifiers to resource names and releases deleted resources) and the Kubernetes nodes
  (\<open>pkg/controlrpc/nodeManage.go\<close>: it labels those that may attach volumes). The node process
  serves the CSI node calls (\<open>pkg/noderpc\<close>): publishing asks the alcubierre server
  (\<open>pkg/store\<close>) for a device, mounts it and records the node in the resource's status;
  unpublishing reverses this. The two processes meet in the resources only.

  \<^bold>\<open>The theories\<close>, each over the ones before it:
  \<^item> \<open>Prelude\<close>: Go errors as values, Go maps, slices and 64-bit integers;
    \<open>types/errors.go\<close>. The locale \<open>map_interface\<close>.
  \<^item> \<open>GoText\<close>, \<open>GoNet\<close>: what the program uses of \<open>strings\<close>,
    \<open>path\<close>, \<open>net\<close> and \<open>net/url\<close>.
  \<^item> \<open>Kube\<close>: the resource types of \<open>pkg/api/v1beta1\<close>, node objects, the outside
    world \<open>env\<close>, its logging version \<open>traced\<close>, and the vendored retry helper with the
    locale \<open>conflict_retry\<close>.
  \<^item> \<open>Demo\<close>: one concrete outside world, for witnesses only.
  \<^item> \<open>Manager\<close>: \<open>pkg/manager\<close>; the locale \<open>uuid_index\<close>.
  \<^item> \<open>DeepCopy\<close>: the generated copies of the resource types, over an explicit store.
  \<^item> \<open>Rbd\<close>: \<open>pkg/rbd\<close>. \<open>Utils\<close>: \<open>utils/buf.go\<close> and
    \<open>utils/net.go\<close>. \<open>Server\<close>: \<open>utils/server.go\<close> with what it uses of the vendored
    gRPC server. \<open>Store\<close>: \<open>pkg/store\<close>, with the locale \<open>alcuber\<close> for the
    interface of that name. \<open>SharedUrl\<close>: the calls of one such client, interleaved at their accesses
    to the URL they share.
  \<^item> \<open>Controller\<close>, \<open>NodeManage\<close>, \<open>ControllerRpc\<close>: the three files of
    \<open>pkg/controlrpc\<close>. \<open>NodeRpc\<close>: \<open>pkg/noderpc\<close>. \<open>Flags\<close>:
    the flags and the command tree of \<open>cmd\<close>.
  \<^item> \<open>Scheme\<close>: the registration of the resource types. \<open>Runtime\<close>: the vendored manager
    with its leader election and the builder, as far as the program uses them; \<open>probe\<close> of the two
    reconcilers. \<open>Commands\<close>: \<open>pkg/server\<close> and what the two commands of \<open>cmd\<close> put
    together, manager included. \<open>Shutdown\<close>: how a process ends, with the manager's stop procedure, the
    signal handler and the server at the same time.
  \<^item> \<open>WorkQueue\<close>: the vendored work queue and the workers that run a reconciler, with the locale
    \<open>forgetful\<close> for reconcilers that answer a failure as a success.
  \<^item> \<open>WorldFrame\<close>: the locale \<open>world_frame\<close> says that the calls of the program other
    than its three writes of resources keep a property of the world; it follows that the operations built
    from them do.
  \<^item> \<open>StoreClient\<close>: the locale \<open>store_client\<close> extends it by what the three writes may do,
    under permissions, and proves once what each handler does to the stored resources.
  \<^item> \<open>System\<close>: the API server, the abstract life of a volume, the world \<open>interleaved E\<close> in
    which others act before each call, and the processes as a step relation; it interprets
    \<open>store_client\<close> on the world itself (\<open>own\<close>) and on the interleaved one (\<open>amid\<close>).
    \<open>Registry\<close>: a concrete API server, for witnesses only. \<open>Concurrent\<close>: the goroutines that
    share one manager of resources, interleaved at its locks and at its calls of the API server.
  \<^item> \<open>Lifecycle\<close>: a volume from its creation to its release against a reliable API server.
    \<open>Reconcilers\<close>: the program's two reconcilers under the workers of \<open>WorkQueue\<close>.
  \<^item> This theory: runs of the controller and of the whole system.

  The locales \<open>preserved\<close>, \<open>terminating\<close> and \<open>simulation\<close> of
  \<open>Prelude\<close> carry all proofs about runs; they are interpreted on the controller, the
  system, the server, the manager of the runtime, the goroutines of \<open>Concurrent\<close>, the calls of \<open>SharedUrl\<close> and the whole process of
  \<open>Shutdown\<close>.

  \<^bold>\<open>How code corresponds to definitions.\<close> A struct is a record, a method a function of the
  same name (prefixed by its type where two types share it) that takes and returns the record; a Go
  error is \<open>Some\<close> of an \<open>error\<close>, a result with an error a sum. A panic is the error
  \<open>GoPanic\<close>. Everything that is not the program's code is a field of \<open>env\<close>, a function
  on an abstract world; the definitions thread the world, so a theorem that assumes nothing about the
  record holds for every behaviour of the API server, the commands, the alcubierre server and the mount
  library. Theorems about order run a handler against \<open>traced E\<close> and speak about the log of its
  calls. Deferred functions are the last step of the definition they belong to; loops are recursions
  over the list they range over, in any order where Go leaves the order open.

  \<^bold>\<open>What is shown.\<close>
  \<^item> Volumes: \<open>ControllerRpc\<close> shows what a successful creation has made, in which order, that
    a failed one ends with trying to remove its image, that repeated creation is answered from the resource, and that
    deletion removes the image before the resource.
  \<^item> Attachments: \<open>NodeRpc\<close> shows that after a failed mount the request to disconnect the device is sent and
    the status left alone, that a device is detached only after its mount point is gone, and that the
    status is cleared only after an answer without an error; with \<open>Manager\<close> it
    follows here that a published volume is protected from being released.
  \<^item> Lives: for all interleavings of the calls of the handlers of the controller and its nodes, every run
    is a run of the life of volumes (\<open>system_refines\<close>); when all goes well the calls take a volume
    through its whole life (\<open>volume_life_cycle\<close>); and the controller alone never releases or detaches an
    attached volume (\<open>attached_survives_controller\<close>). The hypothesis \<open>api_server\<close>
    allows reads from an old cache and lost answers.
  \<^item> Identifiers: the index is first come and stable (\<open>Manager\<close>), also when its users interleave at their locks: a
    created volume keeps its entry as long as the generator draws no identifier twice
    (\<open>created_keeps_entry\<close>), and nothing but a failed creation takes an entry away
    (\<open>index_stable\<close>); a created volume is found on the node.
  \<^item> Reconciling: no event is lost, no resource is reconciled twice at once and nobody starves
    (\<open>work_not_lost\<close>, \<open>queue_fair\<close>); a release that succeeds is done by the first
    reconciliation (\<open>release_done\<close>).
  \<^item> Labels: \<open>NodeManage\<close> shows which labels a node has after one undisturbed
    reconciliation, and that a second one does nothing.
  \<^item> Images: \<open>Rbd\<close> shows exact sizes within 64 bits, removal only without watchers, and that
    the order of parameters is immaterial unless two names differ in case only.
  \<^item> Requests: \<open>Store\<close> shows what is sent and how answers are read; \<open>SharedUrl\<close> that
    requests only go where the node's attribute said, in every interleaving; \<open>Utils\<close> that the
    credentials and \<open>Combine\<close> are what they should be.
  \<^item> Processes: \<open>Flags\<close> and \<open>Commands\<close> show which command lines start which process with
    which configuration, what runs before and after an election (\<open>leader_only\<close>: the cache and the metrics
    before; \<open>node_comes_up\<close>), and what a process waits for before it ends (\<open>stop_waits\<close>); \<open>Scheme\<close> that the types are registered; \<open>Server\<close> which services it offers where, and that a graceful stop ends;
    \<open>controller_invariant\<close> what the controller keeps as long as it runs.
  \<^item> Copies: \<open>DeepCopy\<close> shows that a copied resource has the value of the original and shares
    nothing with it, which is why the other theories may treat resources as values.
  \<^item> Defects: both reconcilers drop the error of the write they exist for, so that a failure is not
    repeated (\<open>release_forgotten\<close>, \<open>labels_forgotten\<close>); updates of resources retry without reading again (\<open>Update_conflict_persists\<close>);
    node information is copied into empty slices, so the alcubierre server is never notified
    (\<open>GetNodeInfo_empty\<close>, \<open>notify_never_succeeds\<close>, \<open>notready_never_updates\<close>,
    \<open>controller_invariant\<close>); a wrong label value is never repaired (\<open>label_wrong_value\<close>);
    a volume attached elsewhere is attached all the same (\<open>preMount_ignores_status\<close>); answers of
    the alcubierre server are accepted whatever their HTTP status (\<open>FailNode_trace\<close>); a stop
    that comes before the server was made is a panic (\<open>stop_too_early\<close>), and nobody can wait for
    the server (\<open>server_invariant\<close>), nor does the manager when it stops (\<open>stop_not_waited\<close>); a creation
    that is answered with an error although the resource was stored may take away the entry the reconciler
    made, and the volume cannot be deleted any more (\<open>lost_answer\<close>), while the entry of a deleted
    volume is never taken away (\<open>index_stable\<close>); the URL of the alcubierre server is shared without a
    lock, and a call overwrites the one another call already uses (\<open>url_overwritten\<close>); with two parameters
    whose names differ in case only the pool depends on the order of a Go map (\<open>parameter_case_order\<close>); an endpoint with a scheme in capitals is accepted but not
    served (\<open>scheme_case_refused\<close>).

  \<^bold>\<open>Bounds.\<close> The only fuel is the number of steps of the retry helper, which is the
  program's own (five). All other recursions are structural or have a termination proof.

  \<^bold>\<open>Not modelled.\<close> Log output and the flags of the log library, sleeping between retries,
  contexts and time-outs other than the deadline of a command and the end of a process; mutexes as such (the maps
  of the manager are only touched under their locks, and so are the lists of the runtime's manager: a locked
  section is one step); the types \<open>client-go\<close>
  registers (an argument, with what is relied on as a hypothesis); the protocol of the leader election;
  health probes, which the program does not bind; what the server of the metrics answers (that and when it runs is in
  \<open>Runtime\<close>); the times of delayed entries of the work queue, which may become ready at any time; the fields of the
  object meta data the program never touches (labels, annotations, owner references); how the command line is split into
  options; the case folding of JSON keys beyond ASCII. Others may write resources at any time in
  \<open>system_refines\<close>, but only by the rules of the life. The steps of \<open>ctl_step\<close> are whole handlers; handlers
  that overlap are the subject of \<open>system_refines\<close> (at their calls), \<open>Concurrent\<close> (at the locks of
  the manager) and \<open>SharedUrl\<close> (at the URL of the client); Go's memory model below single accesses is
  not modelled.
\<close>

section \<open>The controller process\<close>

text \<open>Handlers of the controller, and changes of the outside world by others. A step is one handler or one
  reconciliation as a whole: these are the runs in which they do not overlap. The locks of the program cover
  single accesses of the maps only, so they do overlap; how they do at the locks and at the calls of the API
  server is in \<open>Concurrent\<close>, and \<open>no_zones_interleaved\<close> below is the invariant at that grain.\<close>

inductive ctl_step :: "'w env \<Rightarrow> Controller \<times> 'w \<Rightarrow> Controller \<times> 'w \<Rightarrow> bool" for E :: "'w env" where
  handler: "ctl_handler E s s' \<Longrightarrow> ctl_step E s s'"
| outside: "ctl_step E (c, w) (c, w')"

abbreviation ctl_run :: "'w env \<Rightarrow> Controller \<times> 'w \<Rightarrow> Controller \<times> 'w \<Rightarrow> bool" where
  "ctl_run E \<equiv> (ctl_step E)\<^sup>*\<^sup>*"

text \<open>What every handler keeps of the controller: all but the index, the node information, the cached
  DNS address and the dynamic configuration.\<close>

definition same_setup :: "Controller \<Rightarrow> Controller \<Rightarrow> bool" where
  "same_setup c c' \<longleftrightarrow> c_node c' = c_node c \<and> c_caps c' = c_caps c \<and> c_nodeID c' = c_nodeID c
     \<and> c_store c' = c_store c"

lemma same_setup_refl [simp]: "same_setup c c" by (simp add: same_setup_def)

lemma same_setup_trans: "same_setup a b \<Longrightarrow> same_setup b c \<Longrightarrow> same_setup a c" by (simp add: same_setup_def)

definition no_zones :: "AlcubCon \<Rightarrow> bool" where
  "no_zones al \<longleftrightarrow> (\<forall>n ni. nodes al n = Some ni \<longrightarrow> Zones ni = [])"

lemma no_zones_reverseNode: "no_zones al \<Longrightarrow> no_zones (reverseNode st al)"
  by (auto simp: no_zones_def reverseNode_def Let_def split: option.splits)

lemma createVolume_keeps:
  assumes "createVolume E ps n u b c w = (r, c', w')"
  shows "same_setup c c' \<and> nodes (c_alcub c') = nodes (c_alcub c)"
proof -
  have "nodes al1 = nodes (c_alcub c)" if "AlcubCon_Create E n (Some sp) (c_alcub c) w1 = (e, al1, w2)" for sp w1 e al1 w2
    using Create_frame [of E n "Some sp" "c_alcub c" w1] that by simp
  with assms show ?thesis
    by (auto simp: createVolume_def same_setup_def Let_def split: option.splits prod.splits sum.splits if_splits)
qed

lemma CreateVolume_keeps:
  assumes "CreateVolume E req c w = (r, c', w')"
  shows "same_setup c c' \<and> nodes (c_alcub c') = nodes (c_alcub c)"
proof -
  have "c' = c \<or> (\<exists>ps n x b y r1 z. createVolume E ps n (fst (new_uuid E x)) b c y = (r1, c', z))"
    using assms
    by (auto simp: CreateVolume_def create_new_def Let_def split: option.splits prod.splits if_splits) (metis fst_conv)+
  then show ?thesis using createVolume_keeps by (metis same_setup_refl)
qed

lemma DeleteVolume_keeps:
  assumes "DeleteVolume E vid c w = (r, c', w')"
  shows "same_setup c c' \<and> c_alcub c' = c_alcub c"
  using assms by (auto simp: DeleteVolume_def deleteVolume_def same_setup_def split: option.splits prod.splits)

lemma notready_keeps:
  assumes "notreadyController E nm x c w = (fn, c', w')"
  shows "same_setup c c' \<and> c_alcub c' = c_alcub c"
proof -
  have "same_setup c (fst (snd (StopNode E n b c w))) \<and> c_alcub (fst (snd (StopNode E n b c w))) = c_alcub c"
    "same_setup c (fst (snd (StartNode E n b c w))) \<and> c_alcub (fst (snd (StartNode E n b c w))) = c_alcub c" for n b
    by (auto simp: StopNode_def StartNode_def notidyAlcub_def GetNodeInfo_def Nodeinfo_DeepCopy_def same_setup_def Let_def
        split: option.splits)
  note stop = this(1) [of "nName x" "\<not> inMaps (nLabels x) (halabel nm)"]
    and start = this(2) [of "nName x" "\<not> inMaps (nLabels x) (halabel nm)"]
  show ?thesis using assms stop start
    by (auto simp: notreadyController_def Let_def split: if_splits prod.splits option.splits)
qed

definition ctl_keeps :: "Controller \<Rightarrow> Controller \<Rightarrow> bool" where
  "ctl_keeps c c' \<longleftrightarrow> same_setup c c' \<and> (no_zones (c_alcub c) \<longrightarrow> no_zones (c_alcub c'))"

lemma ctl_handler_keeps:
  assumes "ctl_handler E (c, w) (c', w')"
  shows "ctl_keeps c c'"
  using assms
proof cases
  case (create req r)
  then show ?thesis using CreateVolume_keeps [OF create] by (auto simp: ctl_keeps_def no_zones_def)
next
  case (delete vid r)
  then show ?thesis using DeleteVolume_keeps [OF delete] by (auto simp: ctl_keeps_def)
next
  case (reconcile n r al')
  have "al' = c_alcub c \<or> (\<exists>st u m. al' = reverseNode st (snd (reverseUuid u m (c_alcub c))))"
    using reconcile by (auto simp: AlcubCon_Reconcile_def split: prod.splits sum.splits if_splits)
  moreover have "no_zones (c_alcub c) \<Longrightarrow> no_zones (snd (reverseUuid u m (c_alcub c)))" for u m
    by (simp add: no_zones_def frame_simps)
  ultimately have nz: "no_zones (c_alcub c) \<Longrightarrow> no_zones al'" using no_zones_reverseNode by metis
  with nz reconcile show ?thesis by (auto simp: ctl_keeps_def same_setup_def)
next
  case (not_ready nm x fn)
  then show ?thesis using notready_keeps by (fastforce simp: ctl_keeps_def)
qed (auto simp: ctl_keeps_def)

interpretation ctls: preserved "ctl_step E" "\<lambda>s. ctl_keeps c (fst s)"
proof unfold_locales
  fix s s' assume "ctl_step E s s'" "ctl_keeps c (fst s)"
  then show "ctl_keeps c (fst s')"
    by cases (auto dest!: ctl_handler_keeps [of E "fst s" "snd s" "fst s'" "snd s'", simplified]
        simp: ctl_keeps_def intro: same_setup_trans)
qed

lemma run_keeps: "ctl_run E (c, w) (c', w') \<Longrightarrow> ctl_keeps c c'"
  using ctls.run_inv [of E "(c, w)" "(c', w')" c] by (simp add: ctl_keeps_def)

text \<open>C18: In every run of the controller process from a started controller, whatever the API server and
  the other services do, the node information holds no zones and the set-up of the controller is the one
  it was started with.\<close>

theorem controller_invariant:
  assumes "ctl_run E (c, w) (c', w')" "c_alcub c = NewAlcubCon"
  shows "no_zones (c_alcub c') \<and> same_setup c c'"
proof -
  have "no_zones (c_alcub c)" using assms(2) by (simp add: no_zones_def NewAlcubCon_def)
  with run_keeps [OF assms(1)] show ?thesis by (simp add: ctl_keeps_def)
qed

text \<open>The node information when the goroutines of the process interleave at the locks.\<close>

lemma no_zones_index: "no_zones (snd (reverseUuid u n al)) = no_zones al" "no_zones (releaseUuid u al) = no_zones al"
  by (simp_all add: no_zones_def frame_simps)

lemma no_zones_reserved: "reverseUuid u n al = (e, al') \<Longrightarrow> no_zones al' = no_zones al"
  using no_zones_index(1) [of u n al] by simp

lemma thread_step_zones: "thread_step E t (al, w) = Some (t', al', w') \<Longrightarrow> no_zones al \<Longrightarrow> no_zones al'"
  by (cases t) (auto simp: no_zones_reverseNode no_zones_index dest: no_zones_reserved
      split: prod.splits sum.splits option.splits if_splits)

interpretation zones: preserved "crowd_step E" "\<lambda>s. no_zones (fst (snd s))"
proof unfold_locales
  fix s s' assume "crowd_step E s s'" "no_zones (fst (snd s))"
  then show "no_zones (fst (snd s'))" by cases (auto dest: thread_step_zones)
qed

lemma no_zones_interleaved: "crowd_run E ([], NewAlcubCon, w) (ts, al, w') \<Longrightarrow> no_zones al"
  using zones.run_inv [of E "([], NewAlcubCon, w)" "(ts, al, w')"] by (simp add: no_zones_def NewAlcubCon_def)

section \<open>Controller and node together\<close>

text \<open>C17: A volume the controller created is found by the node service: once the node's own manager has
  reconciled the resource that the controller sent, the volume identifier the controller answered leads
  to that resource.\<close>

theorem created_found_on_node:
  assumes "CreateVolume (traced E) req c (w, []) = (Inr vol, c', w', l)" "valid_request req"
    and "\<not> (\<exists>a. fst (kube_get E (req_Name req) w) = Inr a)"
    and obj: "EvCreate obj None \<in> set l"
    and node: "kube_get E2 (req_Name req) v = (Inr a, v1)" "Spec a = Spec obj" "Name (Meta a) = Name (Meta obj)"
      "DeletionTimestamp (Meta a) = None"
    and fresh: "uuidname al (VolumeId vol) = None" "VolumeId vol \<noteq> []"
  shows "AlcubCon_GetByUuid E2 (VolumeId vol) (fst (snd (AlcubCon_Reconcile E2 (req_Name req) al v))) v2
       = AlcubCon_GetByName E2 (req_Name req) v2"
  using assms(1-3)
proof (cases rule: CreateVolume_new)
  case (made g items nm u w3 sp er)
  then have er: "er = None" and vol: "VolumeId vol = u" by (auto split: option.splits)
  have n: "req_Name req \<noteq> []" using assms(2) by (simp add: valid_request_def)
  from createVolume_log [OF made(3) n, unfolded er option.case] obtain lc opts z o1 where
    l: "l = [EvGet (req_Name req) g, EvNodeList (Inr items), EvUuid u] @ lc
        @ [EvCmd ''rbd'' (create_args opts (req_Name req) (itoa (nat z))) o1, EvCreate (newobj (req_Name req) (the sp)) None]"
    and sp: "Uuid (the sp) = u" and lc: "list_all class_event lc" by auto
  have "EvCreate obj None \<notin> set lc" using lc by (auto simp: list_all_iff)
  then have "obj = newobj (req_Name req) (the sp)" using obj l by auto
  then have a: "Uuid (Spec a) = u" "Name (Meta a) = req_Name req" using node sp by (simp_all add: newobj_def)
  have "getNameByuuid u (fst (snd (AlcubCon_Reconcile E2 (req_Name req) al v))) = req_Name req"
    using node a fresh vol by (simp add: AlcubCon_Reconcile_def frame_simps reverseUuid_def) (simp add: getNameByuuid_def)
  then show ?thesis using n fresh(2) vol by (simp add: AlcubCon_GetByUuid_def)
qed auto

text \<open>A volume is protected while it is published. A resource that is being deleted and whose status
  the node service wrote on publishing is only read by the reconciler; once the node service has cleared
  the node on unpublishing, the reconciler sends the resource without finalizers.\<close>

theorem published_protected:
  assumes "n_nodename s \<noteq> []" "DeletionTimestamp (Meta a) \<noteq> None"
    and "kube_get E n w = (Inr (a\<lparr>Status := mount_status s dev ns st\<rparr>), w1)"
    and "kube_get E n v = (Inr (a\<lparr>Status := (mount_status s dev ns st)\<lparr>Node := []\<rparr>\<rparr>), v1)"
  shows "AlcubCon_Reconcile E n al w = (None, al, w1)
    \<and> AlcubCon_Reconcile E n al v = (None, al, snd (RetryOnConflict DefaultRetry
        (kube_update E (a\<lparr>Status := (mount_status s dev ns st)\<lparr>Node := []\<rparr>, Meta := (Meta a)\<lparr>Finalizers := []\<rparr>\<rparr>)) v1))"
  using assms by (simp add: AlcubCon_Reconcile_def validBeDelete_def mount_status_def Let_def)

section \<open>The system\<close>

text \<open>C6: Every run of the controller and its nodes against an API server is, for the resources it stores, a
  run of the lives of volumes: resources are created unattached and unmarked, attached, detached and
  marked, and a resource that goes away was before marked for deletion and attached to no node. All
  resources keep a finalizer until then. This holds although handlers are not atomic: before each call of
  a handler others may act, the other processes among them, as long as their actions are steps of such
  lives.\<close>

theorem system_refines:
  assumes "sys_run E others s s'" "api_server E cur past" "\<forall>f. others f \<longrightarrow> follows life cur past f" "guarded past (world s)"
  shows "(vols_step life)\<^sup>*\<^sup>* (vols cur (world s)) (vols cur (world s')) \<and> guarded past (world s')
    \<and> (\<forall>n. vols cur (world s) n \<noteq> Absent \<and> vols cur (world s') n = Absent \<longrightarrow>
        (\<exists>C. (vols_step life)\<^sup>*\<^sup>* (vols cur (world s)) C \<and> (vols_step life)\<^sup>*\<^sup>* C (vols cur (world s'))
           \<and> C n = Present True []))"
proof -
  have inv: "sys_inv E others cur past s" using assms(2-4) by (simp add: sys_inv_def)
  have "(vols_step life)\<^sup>*\<^sup>* (vols cur (world s)) (vols cur (world s'))" by (rule sys.run_sim [OF assms(1) inv])
  with sys.run_inv [OF assms(1) inv] life_through show ?thesis by (simp add: sys_inv_def)
qed

text \<open>C8: However long the controller runs, and whatever volumes it is asked to delete, a volume that is
  attached to a node stays attached to that node and keeps its resource; the controller can only mark
  it for deletion.\<close>

theorem attached_survives_controller:
  assumes "(ctl_handler E)\<^sup>*\<^sup>* (c, w) (c', w')" "api_server E cur past" "guarded past w"
    and "vols cur w n = Present t m" "m \<noteq> []"
  shows "\<exists>t'. vols cur w' n = Present t' m \<and> (t \<longrightarrow> t')"
proof -
  have "(vols_step ctl_life)\<^sup>*\<^sup>* (vols cur w) (vols cur w')" using ctl.run_sim [OF assms(1)] assms(2,3) by simp
  then show ?thesis by (rule ctl_life_keeps) (fact assms(4,5))+
qed

section \<open>Witnesses\<close>

text \<open>A run of one step: a volume is created.\<close>

lemma demo_run: "ctl_run demo_env (c, demo0) (snd (CreateVolume demo_env demo_req c demo0))"
  by (rule r_into_rtranclp) (metis ctl_step.handler ctl_handler.create prod.collapse)

theorem controller_invariant_witness:
  "let s = snd (CreateVolume demo_env demo_req demo_ctl0 demo0) in no_zones (c_alcub (fst s)) \<and> same_setup demo_ctl0 (fst s)"
  using controller_invariant [of demo_env demo_ctl0 demo0 "fst (snd (CreateVolume demo_env demo_req demo_ctl0 demo0))"
      "snd (snd (CreateVolume demo_env demo_req demo_ctl0 demo0))"] demo_run [of demo_ctl0]
  by (simp add: Let_def demo_ctl0_def)

definition demo_new :: CsiAlcub where
  "demo_new = newobj ''pvc-1'' \<lparr>Uuid = ''u1'', Capacity = 1048577, RbdSc = ''general'', Pool = ''rbd'', Image = ''pvc-1''\<rparr>"

theorem created_found_on_node_witness:
  "AlcubCon_GetByUuid demo_env ''u1''
     (fst (snd (AlcubCon_Reconcile demo_env ''pvc-1'' NewAlcubCon (demo1\<lparr>d_objs := [''pvc-1'' \<mapsto> demo_new]\<rparr>)))) demo1
   = (Some demo_obj, demo1)"
proof -
  let ?x = "CreateVolume (traced demo_env) demo_req demo_ctl0 (demo0, [])"
  let ?v = "demo1\<lparr>d_objs := [''pvc-1'' \<mapsto> demo_new]\<rparr>"
  define vol where "vol = \<lparr>VolumeId = ''u1'', CapacityBytes = 1048577, VolumeContext = demo_params_sc,
     ContentSource = None, AccessibleTopology = None\<rparr>"
  have v: "fst ?x = Inr vol" by (simp add: demo_create demo_req_def demo_params_sc_def vol_def)
  have o: "EvCreate demo_new None \<in> set (snd (snd (snd ?x)))"
    by (simp add: demo_create demo_req_def demo_params_sc_def demo_new_def demo_opts_def parse_init_def)
  have e: "?x = (Inr vol, fst (snd ?x), fst (snd (snd ?x)), snd (snd (snd ?x)))" using v by (metis prod.collapse)
  have no: "\<not> (\<exists>a. fst (kube_get demo_env (req_Name demo_req) demo0) = Inr a)" by (simp add: demo_sel demo0_def)
  have g: "kube_get demo_env (req_Name demo_req) ?v = (Inr demo_new, ?v)" by (simp add: demo_sel demo_req_def)
  from created_found_on_node [OF e demo_req_valid no o g] show ?thesis
    by (simp add: demo_new_def newobj_def vol_def NewAlcubCon_def demo_req_def AlcubCon_GetByName_def demo_sel demo1_objs)
qed

definition demo_pub :: "CsiAlcubStatus \<Rightarrow> demo" where
  "demo_pub st = demo1\<lparr>d_objs := [''pvc-1'' \<mapsto> demo_obj\<lparr>Meta := (Meta demo_obj)\<lparr>DeletionTimestamp := Some 1\<rparr>, Status := st\<rparr>]\<rparr>"

theorem published_protected_witness:
  "AlcubCon_Reconcile demo_env ''pvc-1'' demo_al (demo_pub (mount_status demo_srv ''/dev/rbd0'' [] zero_status))
     = (None, demo_al, demo_pub (mount_status demo_srv ''/dev/rbd0'' [] zero_status))"
proof -
  let ?st = "mount_status demo_srv ''/dev/rbd0'' [] zero_status"
  let ?a = "demo_obj\<lparr>Meta := (Meta demo_obj)\<lparr>DeletionTimestamp := Some 1\<rparr>\<rparr>"
  have "kube_get demo_env ''pvc-1'' (demo_pub st) = (Inr (?a\<lparr>Status := st\<rparr>), demo_pub st)" for st
    by (simp add: demo_sel demo_pub_def)
  from published_protected [OF _ _ this this, of demo_srv demo_al] show ?thesis by (simp add: demo_srv_def)
qed

lemma demo_reconcile: "ctl_handler reg_env (demo_ctl, demo_reg m)
    (demo_ctl\<lparr>c_alcub := fst (snd (AlcubCon_Reconcile reg_env ''pvc-1'' (c_alcub demo_ctl) (demo_reg m)))\<rparr>,
     snd (snd (AlcubCon_Reconcile reg_env ''pvc-1'' (c_alcub demo_ctl) (demo_reg m))))"
  by (rule ctl_handler.reconcile) (rule pair3)

text \<open>A resource somebody else marks while the controller reconciles it, before the controller reads it.\<close>

definition demo_kept :: reg where
  "demo_kept = [(''pvc-1'', Some demo_obj)]"

definition marker :: "reg \<Rightarrow> reg" where
  "marker w = snd (kube_delete reg_env demo_obj w)"

lemma marker_follows: "follows life reg_cur reg_past marker"
  unfolding follows_def marker_def
  using delete_lives [OF reg_api lives_refl, of _ life] life_allows_all [of MayMark] by auto

lemma demo_kept_released:
  "AlcubCon_Reconcile (interleaved reg_env) ''pvc-1'' al (demo_kept, [marker]) = (None, al, (''pvc-1'', None) # marker demo_kept, [])"
  by (simp add: AlcubCon_Reconcile_def interleaved_def among_def demo_kept_def marker_def reg_env_def validBeDelete_def ver_def
      zero_status_def demo_obj_def RetryOnConflict_attempts DefaultRetry_def numeral_eq_Suc Let_def)

theorem system_refines_witness:
  "vols reg_cur demo_kept ''pvc-1'' = Present False [] \<and> vols reg_cur ((''pvc-1'', None) # marker demo_kept) ''pvc-1'' = Absent
    \<and> (vols_step life)\<^sup>*\<^sup>* (vols reg_cur demo_kept) (vols reg_cur ((''pvc-1'', None) # marker demo_kept))"
proof -
  let ?s = "(demo_ctl, [], demo_kept)" and ?w = "(''pvc-1'', None) # marker demo_kept"
  have "ctl_handler (interleaved reg_env) (demo_ctl, demo_kept, [marker]) (demo_ctl\<lparr>c_alcub := c_alcub demo_ctl\<rparr>, ?w, [])"
    by (rule ctl_handler.reconcile) (rule demo_kept_released)
  then have "sys_step reg_env (\<lambda>f. f = marker) ?s (demo_ctl, [], ?w)" by (intro sys_step.controller) auto
  then have r: "sys_run reg_env (\<lambda>f. f = marker) ?s (demo_ctl, [], ?w)" by (rule r_into_rtranclp)
  have g: "guarded reg_past (world ?s)" by (auto simp: guarded_def world_def demo_kept_def demo_obj_def)
  from system_refines [OF r reg_api _ g] show ?thesis using marker_follows
    by (simp add: world_def) (simp add: vols_def demo_kept_def demo_obj_def zero_status_def)
qed

theorem attached_survives_controller_witness:
  "\<exists>t'. vols reg_cur (snd (snd (AlcubCon_Reconcile reg_env ''pvc-1'' (c_alcub demo_ctl) (demo_reg ''node-1'')))) ''pvc-1''
     = Present t' ''node-1''"
proof -
  have "(ctl_handler reg_env)\<^sup>*\<^sup>* (demo_ctl, demo_reg ''node-1'')
    (demo_ctl\<lparr>c_alcub := fst (snd (AlcubCon_Reconcile reg_env ''pvc-1'' (c_alcub demo_ctl) (demo_reg ''node-1'')))\<rparr>,
     snd (snd (AlcubCon_Reconcile reg_env ''pvc-1'' (c_alcub demo_ctl) (demo_reg ''node-1''))))"
    by (rule r_into_rtranclp) (rule demo_reconcile)
  from attached_survives_controller [OF this reg_api demo_guarded demo_reg_vols] show ?thesis by auto
qed

end
